theory Spec2Isabelle
  imports Complex_Main
begin

section \<open>On-demand variant: the boundary aggregation of loadBoundaries\<close>

text \<open>
  The on-demand client (DuckDB-WASM and Leaflet) builds one SQL query per click,
  runs it in the embedded engine and turns the result rows into GeoJSON features.
  The engine, the remote parquet file and \<open>JSON.parse\<close> are external: they are
  the fields of the record \<open>env\<close>. A column \<open>NAME_3\<close> of the parquet file is the
  value \<open>Col_NAME 3\<close> below, a SQL NULL is \<open>None\<close>.
\<close>

datatype column = Col_NAME nat | Col_TYPE nat | Col_ENGTYPE nat | Col_GID nat

record 'w raw_row =
  cols :: "column \<Rightarrow> string option"
  geometry :: 'w

record 'w parquet =
  schema :: "column list"
  rows :: "'w raw_row list"

datatype js_error = IOError | BinderError

text \<open>
  The template string of loadBoundaries, kept as its parts: the select list with the
  aliases, the file it reads, the column of the WHERE clause
  (\<open>c IS NOT NULL AND c != ''\<close>) and the GROUP BY list. The aggregate column
  \<open>ST_AsGeoJSON(ST_Union_Agg(ST_GeomFromWKB(geometry))) as geojson\<close> is part of
  every query.
\<close>

record query =
  q_select :: "(column \<times> string) list"
  q_from :: string
  q_where :: column
  q_group_by :: "column list"

record ('w, 'g, 'j) env =
  ready :: "nat \<Rightarrow> bool"
  baseUrl :: string
  fetch :: "string \<Rightarrow> 'w parquet option"
  ST_GeomFromWKB :: "'w \<Rightarrow> 'g"
  ST_Union_Agg :: "'g list \<Rightarrow> 'g"
  ST_AsGeoJSON :: "'g \<Rightarrow> string"
  JSON_parse :: "string \<Rightarrow> 'j option"

record result_row =
  row_fields :: "(string \<times> string option) list"
  geojson :: string

definition build_query :: "string \<Rightarrow> string \<Rightarrow> nat \<Rightarrow> query" where
  "build_query base file level =
     \<lparr> q_select =
         [(Col_NAME level, ''name''), (Col_TYPE level, ''type''), (Col_ENGTYPE level, ''eng_type''),
          (Col_GID level, ''gid''), (Col_NAME 0, ''country'')]
         @ (if level > 1 then [(Col_NAME (level - 1), ''parent'')] else []),
       q_from = base @ ''data/'' @ file,
       q_where = Col_NAME level,
       q_group_by =
         [Col_NAME level, Col_TYPE level, Col_ENGTYPE level, Col_GID level, Col_NAME 0]
         @ (if level > 1 then [Col_NAME (level - 1)] else []) \<rparr>"

definition where_ok :: "query \<Rightarrow> 'w raw_row \<Rightarrow> bool" where
  "where_ok q r = (case cols r (q_where q) of None \<Rightarrow> False | Some s \<Rightarrow> s \<noteq> [])"

definition group_key :: "query \<Rightarrow> 'w raw_row \<Rightarrow> string option list" where
  "group_key q r = map (cols r) (q_group_by q)"

text \<open>
  GROUP BY: each group is kept with its first row; two NULLs fall into one group.
\<close>

fun group_by :: "('a \<Rightarrow> 'k) \<Rightarrow> 'a list \<Rightarrow> ('a \<times> 'a list) list" where
  "group_by key [] = []"
| "group_by key (x # xs) =
     (x, x # filter (\<lambda>y. key y = key x) xs)
       # group_by key (filter (\<lambda>y. key y \<noteq> key x) xs)"

definition union_geojson :: "('w, 'g, 'j) env \<Rightarrow> 'w raw_row list \<Rightarrow> string" where
  "union_geojson e grp =
     ST_AsGeoJSON e (ST_Union_Agg e (map (\<lambda>r. ST_GeomFromWKB e (geometry r)) grp))"

definition select_group ::
  "('w, 'g, 'j) env \<Rightarrow> query \<Rightarrow> 'w raw_row \<times> 'w raw_row list \<Rightarrow> result_row" where
  "select_group e q g =
     \<lparr> row_fields = map (\<lambda>(c, alias). (alias, cols (fst g) c)) (q_select q),
       geojson = union_geojson e (snd g) \<rparr>"

definition kept_rows :: "query \<Rightarrow> 'w parquet \<Rightarrow> 'w raw_row list" where
  "kept_rows q t = filter (where_ok q) (rows t)"

text \<open>
  \<open>conn.query(query)\<close>: the file may be unreachable, a column the query names may
  be missing from the file, and a selected column must be a grouping column.
\<close>

definition conn_query ::
  "('w, 'g, 'j) env \<Rightarrow> query \<Rightarrow> js_error + result_row list" where
  "conn_query e q =
     (case fetch e (q_from q) of
        None \<Rightarrow> Inl IOError
      | Some t \<Rightarrow>
          if \<not> (set (map fst (q_select q)) \<subseteq> set (q_group_by q)
                \<and> set (q_where q # q_group_by q) \<subseteq> set (schema t))
          then Inl BinderError
          else Inr (map (select_group e q) (group_by (group_key q) (kept_rows q t))))"

subsection \<open>Result rows to features\<close>

datatype js_value = Undefined | Null | Str string

definition field :: "result_row \<Rightarrow> string \<Rightarrow> js_value" where
  "field r a =
     (case map_of (row_fields r) a of
        None \<Rightarrow> Undefined
      | Some None \<Rightarrow> Null
      | Some (Some s) \<Rightarrow> Str s)"

fun truthy :: "js_value \<Rightarrow> bool" where
  "truthy (Str s) = (s \<noteq> [])"
| "truthy _ = False"

record props =
  name :: js_value
  type :: js_value
  eng_type :: js_value
  gid :: js_value
  country :: js_value
  level :: nat
  parent :: "js_value option"

record 'j feature =
  properties :: props
  feature_geometry :: 'j

datatype log_entry = Warn_failed_to_parse_geometry js_value | Error_failed_to_load js_error

definition row_props :: "nat \<Rightarrow> result_row \<Rightarrow> props" where
  "row_props lvl r =
     \<lparr> name = field r ''name'', type = field r ''type'', eng_type = field r ''eng_type'',
       gid = field r ''gid'', country = field r ''country'', level = lvl,
       parent = (if truthy (field r ''parent'') then Some (field r ''parent'') else None) \<rparr>"

text \<open>
  The callback of \<open>rows.map\<close>: \<open>JSON.parse\<close> throws on a malformed text
  (\<open>None\<close>); the callback catches it, warns and returns null.
\<close>

definition row_to_feature ::
  "('w, 'g, 'j) env \<Rightarrow> nat \<Rightarrow> result_row \<Rightarrow> 'j feature option \<times> log_entry list" where
  "row_to_feature e lvl r =
     (case JSON_parse e (geojson r) of
        None \<Rightarrow> (None, [Warn_failed_to_parse_geometry (field r ''name'')])
      | Some g \<Rightarrow> (Some \<lparr> properties = row_props lvl r, feature_geometry = g \<rparr>, []))"

text \<open>\<open>rows.map(...).filter(f => f !== null)\<close>, with the warnings in order.\<close>

definition rows_to_features ::
  "('w, 'g, 'j) env \<Rightarrow> nat \<Rightarrow> result_row list \<Rightarrow> 'j feature list \<times> log_entry list" where
  "rows_to_features e lvl rs =
     (List.map_filter (\<lambda>r. fst (row_to_feature e lvl r)) rs,
      concat (map (\<lambda>r. snd (row_to_feature e lvl r)) rs))"

subsection \<open>Waiting for the engine\<close>

text \<open>
  \<open>ready e k\<close> is what \<open>duckDBReady && conn\<close> evaluates to at the k-th look of a
  caller: look 0 when it is called, look k after the k-th timer of 500 ms. The loop
  \<open>for (let i = 0; i < 60; i++)\<close> is \<open>wait_loop\<close>; the result carries the number
  of timers awaited.
\<close>

function wait_loop :: "(nat \<Rightarrow> bool) \<Rightarrow> nat \<Rightarrow> bool \<times> nat" where
  "wait_loop rdy i =
     (if i < 60 then (if rdy (Suc i) then (True, Suc i) else wait_loop rdy (Suc i))
      else (False, i))"
  by pat_completeness auto
termination
  by (relation "measure (\<lambda>(rdy, i). 60 - i)") auto

definition waitForDuckDB :: "(nat \<Rightarrow> bool) \<Rightarrow> bool \<times> nat" where
  "waitForDuckDB rdy = (if rdy 0 then (True, 0) else wait_loop rdy 0)"


subsection \<open>The page state and loadBoundaries\<close>

record country_info =
  filename :: string
  country_name :: string
  bounds :: "rat list"
  levels :: "nat list"

datatype loading_text = Loading_Level_boundaries nat | Loading_text string

datatype shown_error =
  Database_failed_to_initialize
| Failed_to_load_boundaries js_error

text \<open>
  A Leaflet layer made by \<open>L.geoJSON(geojson, ...)\<close>: an object (its identity is
  \<open>layer_id\<close>) holding the feature collection it draws.
\<close>

record 'j geojson_layer =
  layer_id :: nat
  layer_features :: "'j feature list"

record 'j page =
  currentCountry :: "country_info option"
  currentLevel :: "nat option"
  boundaryLayer :: "'j geojson_layer option"
  map_layers :: "'j geojson_layer list"
  next_object :: nat
  loading_indicator :: "loading_text option"
  error_boxes :: "shown_error list"
  level_buttons :: "(nat \<times> bool) list"
  console :: "log_entry list"

definition removeLayer :: "'j geojson_layer \<Rightarrow> 'j geojson_layer list \<Rightarrow> 'j geojson_layer list" where
  "removeLayer l ls = filter (\<lambda>x. layer_id x \<noteq> layer_id l) ls"

text \<open>
  \<open>if (boundaryLayer) { map.removeLayer(boundaryLayer); }\<close>: the layers left
  on the map.
\<close>

definition remove_existing_layer :: "'j page \<Rightarrow> 'j geojson_layer list" where
  "remove_existing_layer s =
     (case boundaryLayer s of
        None \<Rightarrow> map_layers s
      | Some old \<Rightarrow> removeLayer old (map_layers s))"

datatype 'j pending = Done "'j page" | Awaiting query "'j page"

text \<open>
  loadBoundaries up to \<open>await conn.query(query)\<close>: either it has returned
  (\<open>Done\<close>) or the query is on its way (\<open>Awaiting\<close>).
\<close>

definition loadBoundaries_begin ::
  "('w, 'g, 'j) env \<Rightarrow> nat \<Rightarrow> 'j page \<Rightarrow> 'j pending" where
  "loadBoundaries_begin e lvl s =
     (case currentCountry s of
        None \<Rightarrow> Done s
      | Some c \<Rightarrow>
          let s1 = s \<lparr> loading_indicator := Some (Loading_Level_boundaries lvl),
                       currentLevel := Some lvl,
                       level_buttons := map (\<lambda>(l, a). (l, l = lvl)) (level_buttons s) \<rparr>
          in if \<not> ready e 0 \<and> \<not> fst (waitForDuckDB (ready e))
             then Done (s1 \<lparr> loading_indicator := None,
                              error_boxes := error_boxes s1 @ [Database_failed_to_initialize] \<rparr>)
             else Awaiting (build_query (baseUrl e) (filename c) lvl) s1)"

text \<open>
  loadBoundaries from the point where \<open>conn.query\<close> settles, with the rows or with
  the error it rejected with (the \<open>catch\<close> branch).
\<close>

definition loadBoundaries_finish ::
  "('w, 'g, 'j) env \<Rightarrow> nat \<Rightarrow> js_error + result_row list \<Rightarrow> 'j page \<Rightarrow> 'j page" where
  "loadBoundaries_finish e lvl outcome s =
     (case outcome of
        Inl err \<Rightarrow>
          s \<lparr> console := console s @ [Error_failed_to_load err],
              loading_indicator := None,
              error_boxes := error_boxes s @ [Failed_to_load_boundaries err] \<rparr>
      | Inr rs \<Rightarrow>
          let fs = rows_to_features e lvl rs;
              shown = remove_existing_layer s;
              new = \<lparr> layer_id = next_object s, layer_features = fst fs \<rparr>
          in s \<lparr> console := console s @ snd fs,
                 map_layers := shown @ [new],
                 boundaryLayer := Some new,
                 next_object := Suc (next_object s),
                 loading_indicator := None \<rparr>)"

text \<open>One call of loadBoundaries with nothing else running in between.\<close>

definition loadBoundaries :: "('w, 'g, 'j) env \<Rightarrow> nat \<Rightarrow> 'j page \<Rightarrow> 'j page" where
  "loadBoundaries e lvl s =
     (case loadBoundaries_begin e lvl s of
        Done s' \<Rightarrow> s'
      | Awaiting q s' \<Rightarrow> loadBoundaries_finish e lvl (conn_query e q) s')"

text \<open>
  The older copy of the on-demand client: the same function without the wait for
  the engine.
\<close>

definition loadBoundaries_begin_old ::
  "('w, 'g, 'j) env \<Rightarrow> nat \<Rightarrow> 'j page \<Rightarrow> 'j pending" where
  "loadBoundaries_begin_old e lvl s =
     (case currentCountry s of
        None \<Rightarrow> Done s
      | Some c \<Rightarrow>
          Awaiting (build_query (baseUrl e) (filename c) lvl)
            (s \<lparr> loading_indicator := Some (Loading_Level_boundaries lvl),
                 currentLevel := Some lvl,
                 level_buttons := map (\<lambda>(l, a). (l, l = lvl)) (level_buttons s) \<rparr>))"

subsection \<open>Clicks and settling queries\<close>

text \<open>
  The page runs on one thread: a click on a level button runs loadBoundaries up to
  its \<open>await conn.query\<close>, and the rest of that call runs when its query settles.
  Queries in flight are kept with the \<open>level\<close> their call closed over; nothing in
  the page orders their settling. \<open>Settle i\<close> settles the i-th query in flight.
\<close>

record 'j session =
  page_of :: "'j page"
  in_flight :: "(nat \<times> query) list"

datatype event = Click nat | Settle nat

fun handle :: "('w, 'g, 'j) env \<Rightarrow> event \<Rightarrow> 'j session \<Rightarrow> 'j session" where
  "handle e (Click lvl) ss =
     (case loadBoundaries_begin e lvl (page_of ss) of
        Done s' \<Rightarrow> ss \<lparr> page_of := s' \<rparr>
      | Awaiting q s' \<Rightarrow> ss \<lparr> page_of := s', in_flight := in_flight ss @ [(lvl, q)] \<rparr>)"
| "handle e (Settle i) ss =
     (if i < length (in_flight ss)
      then (case in_flight ss ! i of
              (lvl, q) \<Rightarrow>
                ss \<lparr> page_of := loadBoundaries_finish e lvl (conn_query e q) (page_of ss),
                     in_flight := take i (in_flight ss) @ drop (Suc i) (in_flight ss) \<rparr>)
      else ss)"

fun run :: "('w, 'g, 'j) env \<Rightarrow> event list \<Rightarrow> 'j session \<Rightarrow> 'j session" where
  "run e [] ss = ss"
| "run e (ev # evs) ss = run e evs (handle e ev ss)"

text \<open>The levels of the features that the Leaflet map draws.\<close>

definition displayed_levels :: "'j page \<Rightarrow> nat list" where
  "displayed_levels s =
     concat (map (\<lambda>l. map (\<lambda>f. level (properties f)) (layer_features l)) (map_layers s))"

section \<open>Tiled variant: layers and sources of the MapLibre map\<close>

text \<open>
  The tiled client (MapLibre GL JS and PMTiles) keeps one vector source and a
  line/fill pair of layers per administrative level. Two of its copies are modelled:
  the client with the country filter, \<open>src/unnamed/part_001\<close>, and the client
  without it, \<open>src/js/app.js\<close>. Source and layer identifiers are
  template strings of the level: \<open>gadm-level3\<close> is \<open>Gadm_level 3\<close>,
  \<open>layer-line-3\<close> is \<open>Layer_line 3\<close>, \<open>layer-fill-3\<close> is \<open>Layer_fill 3\<close>, the
  tile layer \<open>admin3\<close> is \<open>Admin 3\<close>, and the archive \<open>gadm_level3.pmtiles\<close> is
  \<open>Pmtiles 3\<close>.
\<close>

datatype source_name = Carto_light | Gadm_level nat

datatype layer_name = Basemap | Layer_line nat | Layer_fill nat

datatype source_def = Raster_tiles | Pmtiles nat

datatype tile_layer = Countries | Admin nat

datatype layer_type = Raster | Line | Fill

datatype visibility = Visible | Vis_none

datatype paint_property =
  Line_color | Line_width | Fill_color | Fill_opacity | Fill_outline_color

text \<open>
  A paint value is a colour, a number, or the expression
  \<open>['case', ['==', ['get', 'NAME_0'], n], a, b]\<close>.
\<close>

datatype paint_value = Colour string | Number rat | Case_NAME_0 string paint_value paint_value

record style_layer =
  lname :: layer_name
  ltype :: layer_type
  lsource :: source_name
  source_layer :: "tile_layer option"
  visibility :: visibility
  paint :: "paint_property \<Rightarrow> paint_value option"
  lfilter :: "string option"

text \<open>
  The map: its sources and its layers in drawing order, and the listeners bound with
  \<open>map.on(event, layerId, handler)\<close> (the event, the layer and the level the
  handler closed over).
\<close>

record maplibre =
  sources :: "(source_name \<times> source_def) list"
  layers :: "style_layer list"
  listeners :: "(string \<times> layer_name \<times> nat) list"

datatype map_error =
  Source_exists | Layer_exists | No_such_source | No_such_layer | Undefined_style

definition and_then :: "map_error + 'a \<Rightarrow> ('a \<Rightarrow> map_error + 'b) \<Rightarrow> map_error + 'b" where
  "and_then r f = (case r of Inl err \<Rightarrow> Inl err | Inr x \<Rightarrow> f x)"

subsection \<open>The calls of the map that the client makes\<close>

definition getSource :: "maplibre \<Rightarrow> source_name \<Rightarrow> bool" where
  "getSource m sid = (sid \<in> set (map fst (sources m)))"

definition getLayer :: "maplibre \<Rightarrow> layer_name \<Rightarrow> bool" where
  "getLayer m lid = (lid \<in> set (map lname (layers m)))"

definition addSource :: "source_name \<Rightarrow> source_def \<Rightarrow> maplibre \<Rightarrow> map_error + maplibre" where
  "addSource sid d m =
     (if getSource m sid then Inl Source_exists
      else Inr (m \<lparr> sources := sources m @ [(sid, d)] \<rparr>))"

text \<open>\<open>map.addLayer(layer, beforeId)\<close>: the new layer goes under \<open>beforeId\<close>, or on top.\<close>

definition addLayer ::
  "style_layer \<Rightarrow> layer_name option \<Rightarrow> maplibre \<Rightarrow> map_error + maplibre" where
  "addLayer l before m =
     (if getLayer m (lname l) then Inl Layer_exists
      else if \<not> getSource m (lsource l) then Inl No_such_source
      else (case before of
              None \<Rightarrow> Inr (m \<lparr> layers := layers m @ [l] \<rparr>)
            | Some b \<Rightarrow>
                if \<not> getLayer m b then Inl No_such_layer
                else Inr (m \<lparr> layers := takeWhile (\<lambda>x. lname x \<noteq> b) (layers m) @ [l]
                                          @ dropWhile (\<lambda>x. lname x \<noteq> b) (layers m) \<rparr>)))"

definition map_removeLayer :: "layer_name \<Rightarrow> maplibre \<Rightarrow> maplibre" where
  "map_removeLayer lid m = m \<lparr> layers := filter (\<lambda>x. lname x \<noteq> lid) (layers m) \<rparr>"

definition setLayoutProperty :: "layer_name \<Rightarrow> visibility \<Rightarrow> maplibre \<Rightarrow> maplibre" where
  "setLayoutProperty lid v m =
     m \<lparr> layers := map (\<lambda>x. if lname x = lid then x \<lparr> visibility := v \<rparr> else x) (layers m) \<rparr>"

definition setPaintProperty ::
  "layer_name \<Rightarrow> paint_property \<Rightarrow> paint_value \<Rightarrow> maplibre \<Rightarrow> maplibre" where
  "setPaintProperty lid p v m =
     m \<lparr> layers := map (\<lambda>x. if lname x = lid then x \<lparr> paint := (paint x)(p \<mapsto> v) \<rparr> else x)
                       (layers m) \<rparr>"

definition map_on :: "string \<Rightarrow> layer_name \<Rightarrow> nat \<Rightarrow> maplibre \<Rightarrow> maplibre" where
  "map_on ev lid lvl m = m \<lparr> listeners := listeners m @ [(ev, lid, lvl)] \<rparr>"

subsection \<open>The state of the tiled client\<close>

record level_style =
  color :: string
  fill :: string
  width :: rat
  opacity :: rat

text \<open>
  The table \<open>STYLES\<close> of the client with the country filter
  (\<open>src/unnamed/part_001\<close>), and of \<open>js/app.js\<close>.
\<close>

definition STYLES :: "nat \<Rightarrow> level_style option" where
  "STYLES lvl =
     (if lvl = 0 then Some \<lparr> color = ''#000000'', fill = ''transparent'', width = 1, opacity = 0 \<rparr>
      else if lvl = 1 then Some \<lparr> color = ''#651FFF'', fill = ''#651FFF'', width = 3, opacity = 2 / 10 \<rparr>
      else if lvl = 2 then Some \<lparr> color = ''#2979FF'', fill = ''#2979FF'', width = 2, opacity = 2 / 10 \<rparr>
      else if lvl = 3 then Some \<lparr> color = ''#00B0FF'', fill = ''#00B0FF'', width = 15 / 10, opacity = 2 / 10 \<rparr>
      else if lvl = 4 then Some \<lparr> color = ''#00E5FF'', fill = ''#00E5FF'', width = 15 / 10, opacity = 2 / 10 \<rparr>
      else if lvl = 5 then Some \<lparr> color = ''#1DE9B6'', fill = ''#1DE9B6'', width = 15 / 10, opacity = 2 / 10 \<rparr>
      else None)"

definition STYLES_app :: "nat \<Rightarrow> level_style option" where
  "STYLES_app lvl =
     (if lvl = 0 then Some \<lparr> color = ''#FFD700'', fill = ''transparent'', width = 2, opacity = 0 \<rparr>
      else if lvl = 1 then Some \<lparr> color = ''#00FFFF'', fill = ''#00FFFF'', width = 1, opacity = 15 / 100 \<rparr>
      else if lvl = 2 then Some \<lparr> color = ''#FF00FF'', fill = ''#FF00FF'', width = 1, opacity = 15 / 100 \<rparr>
      else if lvl = 3 then Some \<lparr> color = ''#FF6600'', fill = ''#FF6600'', width = 1, opacity = 15 / 100 \<rparr>
      else if lvl = 4 then Some \<lparr> color = ''#00FF00'', fill = ''#00FF00'', width = 1, opacity = 15 / 100 \<rparr>
      else if lvl = 5 then Some \<lparr> color = ''#00FF00'', fill = ''#00FF00'', width = 1, opacity = 15 / 100 \<rparr>
      else None)"

record catalog_entry =
  entry_name :: string
  entry_bounds :: "rat list"
  admin_levels :: "nat list"

datatype camera = World_view | Fit_bounds "rat list"

text \<open>
  The globals of the tiled client and the parts of the document it writes: the
  level buttons (level and whether the button has the class \<open>active\<close>), whether the
  container of the buttons is shown, and the value of the country selector.
\<close>

record tiled =
  the_map :: maplibre
  selected :: "catalog_entry option"
  countriesData :: "catalog_entry list"
  admin_buttons :: "(nat \<times> bool) list"
  container_shown :: bool
  select_value :: string
  camera_at :: camera

definition vis :: "bool \<Rightarrow> visibility" where
  "vis isVisible = (if isVisible then Visible else Vis_none)"

definition tile_layer_of :: "nat \<Rightarrow> tile_layer" where
  "tile_layer_of lvl = (if lvl = 0 then Countries else Admin lvl)"

text \<open>
  The filter \<open>['==', ['get', 'NAME_0'], currentCountry.name]\<close>, set when the layer
  is created for a level above 0 while a country is selected.
\<close>

definition country_filter :: "nat \<Rightarrow> catalog_entry option \<Rightarrow> string option" where
  "country_filter lvl c = (if lvl > 0 then map_option entry_name c else None)"

definition line_layer :: "nat \<Rightarrow> bool \<Rightarrow> level_style \<Rightarrow> string option \<Rightarrow> style_layer" where
  "line_layer lvl isVisible st flt =
     \<lparr> lname = Layer_line lvl, ltype = Line, lsource = Gadm_level lvl,
       source_layer = Some (tile_layer_of lvl), visibility = vis isVisible,
       paint = [Line_color \<mapsto> Colour (color st), Line_width \<mapsto> Number (width st)],
       lfilter = flt \<rparr>"

definition fill_layer :: "nat \<Rightarrow> bool \<Rightarrow> level_style \<Rightarrow> string option \<Rightarrow> style_layer" where
  "fill_layer lvl isVisible st flt =
     \<lparr> lname = Layer_fill lvl, ltype = Fill, lsource = Gadm_level lvl,
       source_layer = Some (tile_layer_of lvl), visibility = vis isVisible,
       paint = [Fill_color \<mapsto> Colour (fill st), Fill_opacity \<mapsto> Number (opacity st),
                Fill_outline_color \<mapsto> Colour (color st)],
       lfilter = flt \<rparr>"

text \<open>
  addLevelLayer on the map, for a table of styles and the filter of new layers.
  \<open>STYLES[level].color\<close> throws when the table has no entry for the level.
\<close>

definition add_level_layers ::
  "(nat \<Rightarrow> level_style option) \<Rightarrow> string option \<Rightarrow> nat \<Rightarrow> bool \<Rightarrow> maplibre
     \<Rightarrow> map_error + maplibre" where
  "add_level_layers styles flt lvl isVisible m =
     and_then
       (if \<not> getSource m (Gadm_level lvl) then addSource (Gadm_level lvl) (Pmtiles lvl) m
        else Inr m)
       (\<lambda>m1. and_then
          (if \<not> getLayer m1 (Layer_line lvl)
           then (case styles lvl of
                   None \<Rightarrow> Inl Undefined_style
                 | Some st \<Rightarrow> addLayer (line_layer lvl isVisible st flt) None m1)
           else Inr m1)
          (\<lambda>m2.
             if \<not> getLayer m2 (Layer_fill lvl)
             then (case styles lvl of
                     None \<Rightarrow> Inl Undefined_style
                   | Some st \<Rightarrow>
                       and_then
                         (addLayer (fill_layer lvl isVisible st flt) (Some (Layer_line lvl)) m2)
                         (\<lambda>m3. Inr (map_on ''mouseleave'' (Layer_fill lvl) lvl
                                      (map_on ''mouseenter'' (Layer_fill lvl) lvl
                                        (map_on ''click'' (Layer_fill lvl) lvl m3)))))
             else Inr m2))"

text \<open>addLevelLayer of the client with the country filter.\<close>

definition addLevelLayer :: "nat \<Rightarrow> bool \<Rightarrow> tiled \<Rightarrow> map_error + tiled" where
  "addLevelLayer lvl isVisible a =
     and_then (add_level_layers STYLES (country_filter lvl (selected a)) lvl isVisible (the_map a))
       (\<lambda>m. Inr (a \<lparr> the_map := m \<rparr>))"

text \<open>addLevelLayer of \<open>js/app.js\<close>: no filter.\<close>

definition addLevelLayer_app :: "nat \<Rightarrow> bool \<Rightarrow> tiled \<Rightarrow> map_error + tiled" where
  "addLevelLayer_app lvl isVisible a =
     and_then (add_level_layers STYLES_app None lvl isVisible (the_map a))
       (\<lambda>m. Inr (a \<lparr> the_map := m \<rparr>))"

definition set_visibility :: "nat \<Rightarrow> bool \<Rightarrow> maplibre \<Rightarrow> maplibre" where
  "set_visibility lvl isVisible m =
     (let m1 = (if getLayer m (Layer_line lvl)
                then setLayoutProperty (Layer_line lvl) (vis isVisible) m else m)
      in if getLayer m1 (Layer_fill lvl)
         then setLayoutProperty (Layer_fill lvl) (vis isVisible) m1 else m1)"

definition setLayerVisibility :: "nat \<Rightarrow> bool \<Rightarrow> tiled \<Rightarrow> tiled" where
  "setLayerVisibility lvl isVisible a = a \<lparr> the_map := set_visibility lvl isVisible (the_map a) \<rparr>"

text \<open>
  The body of \<open>for (let i = 1; i <= 5; i++)\<close> in resetAdminLevels and in
  handleCountryChange: the fill layer goes first, then the line layer.
\<close>

definition remove_level :: "nat \<Rightarrow> maplibre \<Rightarrow> maplibre" where
  "remove_level i m =
     (let m1 = (if getLayer m (Layer_fill i) then map_removeLayer (Layer_fill i) m else m)
      in if getLayer m1 (Layer_line i) then map_removeLayer (Layer_line i) m1 else m1)"

definition remove_admin_layers :: "maplibre \<Rightarrow> maplibre" where
  "remove_admin_layers m = fold remove_level [1, 2, 3, 4, 5] m"

definition resetAdminLevels :: "tiled \<Rightarrow> tiled" where
  "resetAdminLevels a =
     a \<lparr> admin_buttons := [], container_shown := False,
         the_map := remove_admin_layers (the_map a) \<rparr>"

text \<open>resetAdminLevels of \<open>js/app.js\<close>: it hides the levels 1 to 5 and shows level 0.\<close>

definition resetAdminLevels_app :: "tiled \<Rightarrow> tiled" where
  "resetAdminLevels_app a =
     a \<lparr> container_shown := False,
         the_map := set_visibility 0 True
                      (fold (\<lambda>i. set_visibility i False) [1, 2, 3, 4, 5] (the_map a)) \<rparr>"

text \<open>\<open>// Reset Level 0 style\<close>, after resetAdminLevels in two handlers.\<close>

definition reset_level0_style :: "maplibre \<Rightarrow> map_error + maplibre" where
  "reset_level0_style m =
     (if getLayer m (Layer_line 0)
      then (case STYLES 0 of
              None \<Rightarrow> Inl Undefined_style
            | Some st \<Rightarrow>
                Inr (setPaintProperty (Layer_line 0) Line_width (Number (width st))
                      (setPaintProperty (Layer_line 0) Line_color (Colour (color st)) m)))
      else Inr m)"

text \<open>The click handler of \<open>reset-view\<close>, in the client with the country filter.\<close>

definition reset_view :: "tiled \<Rightarrow> map_error + tiled" where
  "reset_view a =
     (let a1 = resetAdminLevels (a \<lparr> camera_at := World_view, select_value := [],
                                      selected := None \<rparr>)
      in and_then (reset_level0_style (the_map a1)) (\<lambda>m. Inr (a1 \<lparr> the_map := m \<rparr>)))"

text \<open>The click handler of \<open>reset-view\<close> in \<open>js/app.js\<close>.\<close>

definition reset_view_app :: "tiled \<Rightarrow> tiled" where
  "reset_view_app a = resetAdminLevels_app (a \<lparr> camera_at := World_view, select_value := [] \<rparr>)"

subsection \<open>Country selection and level buttons\<close>

fun for_each :: "('x \<Rightarrow> 's \<Rightarrow> map_error + 's) \<Rightarrow> 'x list \<Rightarrow> 's \<Rightarrow> map_error + 's" where
  "for_each f [] s = Inr s"
| "for_each f (x # xs) s = and_then (f x s) (for_each f xs)"

text \<open>
  createLevelButton: the button is appended, then the layers of its level are made
  sure of and their visibility is set. The same two calls are the button's click
  handler, after the toggle of its class \<open>active\<close>.
\<close>

definition createLevelButton :: "nat \<Rightarrow> bool \<Rightarrow> tiled \<Rightarrow> map_error + tiled" where
  "createLevelButton lvl active a =
     and_then (addLevelLayer lvl active (a \<lparr> admin_buttons := admin_buttons a @ [(lvl, active)] \<rparr>))
       (\<lambda>a1. Inr (setLayerVisibility lvl active a1))"

definition click_button :: "nat \<Rightarrow> tiled \<Rightarrow> map_error + tiled" where
  "click_button i a =
     (if i < length (admin_buttons a)
      then (case admin_buttons a ! i of
              (lvl, was_active) \<Rightarrow>
                and_then
                  (addLevelLayer lvl (\<not> was_active)
                     (a \<lparr> admin_buttons := (admin_buttons a)[i := (lvl, \<not> was_active)] \<rparr>))
                  (\<lambda>a1. Inr (setLayerVisibility lvl (\<not> was_active) a1)))
      else Inr a)"

definition updateAdminLevelUI :: "catalog_entry \<Rightarrow> tiled \<Rightarrow> map_error + tiled" where
  "updateAdminLevelUI c a =
     and_then (createLevelButton 0 True (a \<lparr> container_shown := True, admin_buttons := [] \<rparr>))
       (for_each (\<lambda>lvl. createLevelButton lvl False) (admin_levels c))"

text \<open>\<open>// Highlight Level 0 (Country Boundary)\<close> in handleCountryChange.\<close>

definition highlight_level0 :: "string \<Rightarrow> maplibre \<Rightarrow> map_error + maplibre" where
  "highlight_level0 n m =
     (if getLayer m (Layer_line 0)
      then (case STYLES 0 of
              None \<Rightarrow> Inl Undefined_style
            | Some st \<Rightarrow>
                Inr (setPaintProperty (Layer_line 0) Line_width
                       (Case_NAME_0 n (Number 4) (Number (width st)))
                      (setPaintProperty (Layer_line 0) Line_color
                         (Case_NAME_0 n (Colour ''#D500F9'') (Colour (color st))) m)))
      else Inr m)"

definition handleCountryChange :: "string \<Rightarrow> tiled \<Rightarrow> map_error + tiled" where
  "handleCountryChange countryName a =
     (if countryName = []
      then (let a1 = resetAdminLevels (a \<lparr> selected := None \<rparr>)
            in and_then (reset_level0_style (the_map a1)) (\<lambda>m. Inr (a1 \<lparr> the_map := m \<rparr>)))
      else (case find (\<lambda>c. entry_name c = countryName) (countriesData a) of
              None \<Rightarrow> Inr a
            | Some c \<Rightarrow>
                let a1 = a \<lparr> selected := Some c, camera_at := Fit_bounds (entry_bounds c) \<rparr>
                in and_then (highlight_level0 (entry_name c) (the_map a1))
                     (\<lambda>m. updateAdminLevelUI c (a1 \<lparr> the_map := remove_admin_layers m \<rparr>))))"

text \<open>The same handlers in \<open>js/app.js\<close>.\<close>

definition createLevelButton_app :: "nat \<Rightarrow> bool \<Rightarrow> tiled \<Rightarrow> map_error + tiled" where
  "createLevelButton_app lvl active a =
     and_then (addLevelLayer_app lvl active (a \<lparr> admin_buttons := admin_buttons a @ [(lvl, active)] \<rparr>))
       (\<lambda>a1. Inr (setLayerVisibility lvl active a1))"

definition click_button_app :: "nat \<Rightarrow> tiled \<Rightarrow> map_error + tiled" where
  "click_button_app i a =
     (if i < length (admin_buttons a)
      then (case admin_buttons a ! i of
              (lvl, was_active) \<Rightarrow>
                and_then
                  (addLevelLayer_app lvl (\<not> was_active)
                     (a \<lparr> admin_buttons := (admin_buttons a)[i := (lvl, \<not> was_active)] \<rparr>))
                  (\<lambda>a1. Inr (setLayerVisibility lvl (\<not> was_active) a1)))
      else Inr a)"

definition updateAdminLevelUI_app :: "catalog_entry \<Rightarrow> tiled \<Rightarrow> map_error + tiled" where
  "updateAdminLevelUI_app c a =
     and_then (createLevelButton_app 0 True (a \<lparr> container_shown := True, admin_buttons := [] \<rparr>))
       (for_each (\<lambda>lvl. createLevelButton_app lvl False) (admin_levels c))"

definition handleCountryChange_app :: "string \<Rightarrow> tiled \<Rightarrow> map_error + tiled" where
  "handleCountryChange_app countryName a =
     (if countryName = [] then Inr a
      else (case find (\<lambda>c. entry_name c = countryName) (countriesData a) of
              None \<Rightarrow> Inr a
            | Some c \<Rightarrow>
                updateAdminLevelUI_app c
                  (a \<lparr> selected := Some c, camera_at := Fit_bounds (entry_bounds c) \<rparr>)))"

subsection \<open>The events of a session\<close>

datatype tiled_event = Map_load | Country_change string | Button_click nat | Reset_click

fun fire :: "tiled_event \<Rightarrow> tiled \<Rightarrow> map_error + tiled" where
  "fire Map_load a = addLevelLayer 0 True a"
| "fire (Country_change n) a = handleCountryChange n (a \<lparr> select_value := n \<rparr>)"
| "fire (Button_click i) a = click_button i a"
| "fire Reset_click a = reset_view a"

fun fire_app :: "tiled_event \<Rightarrow> tiled \<Rightarrow> map_error + tiled" where
  "fire_app Map_load a = addLevelLayer_app 0 True a"
| "fire_app (Country_change n) a = handleCountryChange_app n (a \<lparr> select_value := n \<rparr>)"
| "fire_app (Button_click i) a = click_button_app i a"
| "fire_app Reset_click a = Inr (reset_view_app a)"

text \<open>The map as initMap makes it, and the client before the first event.\<close>

definition basemap_layer :: style_layer where
  "basemap_layer =
     \<lparr> lname = Basemap, ltype = Raster, lsource = Carto_light, source_layer = None,
       visibility = Visible, paint = Map.empty, lfilter = None \<rparr>"

definition initial_map :: maplibre where
  "initial_map =
     \<lparr> sources = [(Carto_light, Raster_tiles)], layers = [basemap_layer], listeners = [] \<rparr>"

definition initial :: "catalog_entry list \<Rightarrow> tiled" where
  "initial catalog =
     \<lparr> the_map = initial_map, selected = None, countriesData = catalog,
       admin_buttons = [], container_shown = False, select_value = [],
       camera_at = World_view \<rparr>"

text \<open>No two sources and no two layers of the map have the same identifier.\<close>

definition no_duplicates :: "maplibre \<Rightarrow> bool" where
  "no_duplicates m = (distinct (map fst (sources m)) \<and> distinct (map lname (layers m)))"

definition layers_named :: "maplibre \<Rightarrow> layer_name \<Rightarrow> style_layer list" where
  "layers_named m n = filter (\<lambda>x. lname x = n) (layers m)"

definition sources_named :: "maplibre \<Rightarrow> source_name \<Rightarrow> (source_name \<times> source_def) list" where
  "sources_named m n = filter (\<lambda>x. fst x = n) (sources m)"

text \<open>The filter and the visibility of the layers that have a given identifier.\<close>

definition filter_and_visibility :: "maplibre \<Rightarrow> layer_name \<Rightarrow> (string option \<times> visibility) list" where
  "filter_and_visibility m n = map (\<lambda>x. (lfilter x, visibility x)) (layers_named m n)"

text \<open>The levels of the catalog and of the buttons are levels the tables style.\<close>

definition levels_ok :: "tiled \<Rightarrow> bool" where
  "levels_ok a =
     ((\<forall>c \<in> set (countriesData a). \<forall>l \<in> set (admin_levels c). l \<le> 5)
      \<and> (\<forall>b \<in> set (admin_buttons a). fst b \<le> 5))"

text \<open>The layers of the levels 1 to 5.\<close>

definition is_admin_layer :: "layer_name \<Rightarrow> bool" where
  "is_admin_layer n =
     (case n of Basemap \<Rightarrow> False
      | Layer_line i \<Rightarrow> 1 \<le> i \<and> i \<le> 5
      | Layer_fill i \<Rightarrow> 1 \<le> i \<and> i \<le> 5)"

subsection \<open>A small country file\<close>

text \<open>
  A file of six raw rows at level 2, used to run the definitions: two rows of one
  district (they share \<open>GID_2 = X.1.1_1\<close>), a row with a NULL and a row with an
  empty \<open>NAME_2\<close>, a district whose \<open>NAME_1\<close> is NULL, and a district whose
  union geometry does not parse. Geometries are strings here: the union is the
  concatenation, and the text \<open>bad\<close> is the one \<open>JSON.parse\<close> rejects.
\<close>

definition demo_row ::
  "string option \<Rightarrow> string option \<Rightarrow> string option \<Rightarrow> string \<Rightarrow> string raw_row" where
  "demo_row n1 n2 g2 w =
     \<lparr> cols = (\<lambda>c. None)
         (Col_NAME 0 := Some ''Wakanda'', Col_NAME 1 := n1, Col_NAME 2 := n2,
          Col_TYPE 2 := Some ''District'', Col_ENGTYPE 2 := Some ''District'',
          Col_GID 2 := g2),
       geometry = w \<rparr>"

definition demo_table :: "string parquet" where
  "demo_table =
     \<lparr> schema = [Col_NAME 0, Col_NAME 1, Col_NAME 2, Col_TYPE 1, Col_TYPE 2,
                 Col_ENGTYPE 1, Col_ENGTYPE 2, Col_GID 1, Col_GID 2],
       rows =
         [demo_row (Some ''North'') (Some ''Birnin'') (Some ''X.1.1_1'') ''a'',
          demo_row (Some ''North'') None None ''n'',
          demo_row (Some ''North'') (Some ''Birnin'') (Some ''X.1.1_1'') ''b'',
          demo_row (Some ''North'') (Some '''') None ''e'',
          demo_row None (Some ''Orphan'') (Some ''X.0.2_1'') ''c'',
          demo_row (Some ''North'') (Some ''Broken'') (Some ''X.1.3_1'') ''bad''] \<rparr>"

definition demo_env :: "(string, string, string) env" where
  "demo_env =
     \<lparr> ready = (\<lambda>k. True),
       baseUrl = ''http://host/'',
       fetch = (\<lambda>u. if u = ''http://host/data/wakanda.parquet'' then Some demo_table else None),
       ST_GeomFromWKB = (\<lambda>w. w),
       ST_Union_Agg = concat,
       ST_AsGeoJSON = (\<lambda>g. g),
       JSON_parse = (\<lambda>s. if s = ''bad'' then None else Some s) \<rparr>"

definition demo_rows :: "result_row list" where
  "demo_rows =
     [\<lparr> row_fields = [(''name'', Some ''Birnin''), (''type'', Some ''District''),
                      (''eng_type'', Some ''District''), (''gid'', Some ''X.1.1_1''),
                      (''country'', Some ''Wakanda''), (''parent'', Some ''North'')],
        geojson = ''ab'' \<rparr>,
      \<lparr> row_fields = [(''name'', Some ''Orphan''), (''type'', Some ''District''),
                      (''eng_type'', Some ''District''), (''gid'', Some ''X.0.2_1''),
                      (''country'', Some ''Wakanda''), (''parent'', None)],
        geojson = ''c'' \<rparr>,
      \<lparr> row_fields = [(''name'', Some ''Broken''), (''type'', Some ''District''),
                      (''eng_type'', Some ''District''), (''gid'', Some ''X.1.3_1''),
                      (''country'', Some ''Wakanda''), (''parent'', Some ''North'')],
        geojson = ''bad'' \<rparr>]"

definition demo_features :: "string feature list" where
  "demo_features =
     [\<lparr> properties =
          \<lparr> name = Str ''Birnin'', type = Str ''District'', eng_type = Str ''District'',
            gid = Str ''X.1.1_1'', country = Str ''Wakanda'', level = 2,
            parent = Some (Str ''North'') \<rparr>,
        feature_geometry = ''ab'' \<rparr>,
      \<lparr> properties =
          \<lparr> name = Str ''Orphan'', type = Str ''District'', eng_type = Str ''District'',
            gid = Str ''X.0.2_1'', country = Str ''Wakanda'', level = 2,
            parent = None \<rparr>,
        feature_geometry = ''c'' \<rparr>]"





definition demo_rows_1 :: "result_row list" where
  "demo_rows_1 =
     [\<lparr> row_fields = [(''name'', Some ''North''), (''type'', None), (''eng_type'', None),
                      (''gid'', None), (''country'', Some ''Wakanda'')],
        geojson = ''anbebad'' \<rparr>]"

definition demo_page :: "string page" where
  "demo_page =
     \<lparr> currentCountry = None, currentLevel = None, boundaryLayer = None, map_layers = [],
       next_object = 0, loading_indicator = None, error_boxes = [],
       level_buttons = [], console = [] \<rparr>"

definition demo_country :: country_info where
  "demo_country =
     \<lparr> filename = ''wakanda.parquet'', country_name = ''Wakanda'',
       bounds = [10, 10, 20, 20], levels = [1, 2] \<rparr>"

text \<open>The page after Wakanda was chosen, before any boundary is drawn.\<close>

definition demo_selected :: "string page" where
  "demo_selected =
     demo_page \<lparr> currentCountry := Some demo_country,
                 level_buttons := [(1, False), (2, False)] \<rparr>"

text \<open>A catalog of two countries for the tiled client.\<close>

definition demo_catalog :: "catalog_entry list" where
  "demo_catalog =
     [\<lparr> entry_name = ''Wakanda'', entry_bounds = [10, 10, 20, 20], admin_levels = [1, 2] \<rparr>,
      \<lparr> entry_name = ''Zamunda'', entry_bounds = [30, 0, 40, 10], admin_levels = [1] \<rparr>]"

text \<open>
  The listeners that addLevelLayer binds when it creates the fill layer of a level.
\<close>

definition level_listeners :: "nat \<Rightarrow> (string \<times> layer_name \<times> nat) list" where
  "level_listeners lvl =
     [(''click'', Layer_fill lvl, lvl), (''mouseenter'', Layer_fill lvl, lvl),
      (''mouseleave'', Layer_fill lvl, lvl)]"

text \<open>
  The map of the client with the country filter: after the map has loaded
  (\<open>demo_map_loaded\<close>), after the outline of Zamunda was highlighted
  (\<open>demo_map_highlighted\<close>), and after the layers of level 1 were added, filtered to
  Zamunda and hidden (\<open>demo_map\<close>).
\<close>

definition demo_map_loaded :: maplibre where
  "demo_map_loaded =
     \<lparr> sources = [(Carto_light, Raster_tiles), (Gadm_level 0, Pmtiles 0)],
       layers = [basemap_layer, fill_layer 0 True (the (STYLES 0)) None,
                 line_layer 0 True (the (STYLES 0)) None],
       listeners = level_listeners 0 \<rparr>"

definition demo_line0_highlighted :: style_layer where
  "demo_line0_highlighted =
     (line_layer 0 True (the (STYLES 0)) None)
       \<lparr> paint := (paint (line_layer 0 True (the (STYLES 0)) None))
            (Line_color \<mapsto> Case_NAME_0 ''Zamunda'' (Colour ''#D500F9'') (Colour ''#000000''),
             Line_width \<mapsto> Case_NAME_0 ''Zamunda'' (Number 4) (Number 1)) \<rparr>"

definition demo_map_highlighted :: maplibre where
  "demo_map_highlighted =
     \<lparr> sources = [(Carto_light, Raster_tiles), (Gadm_level 0, Pmtiles 0)],
       layers = [basemap_layer, fill_layer 0 True (the (STYLES 0)) None, demo_line0_highlighted],
       listeners = level_listeners 0 \<rparr>"

definition demo_map :: maplibre where
  "demo_map =
     \<lparr> sources = [(Carto_light, Raster_tiles), (Gadm_level 0, Pmtiles 0),
                  (Gadm_level 1, Pmtiles 1)],
       layers = [basemap_layer, fill_layer 0 True (the (STYLES 0)) None, demo_line0_highlighted,
                 fill_layer 1 False (the (STYLES 1)) (Some ''Zamunda''),
                 line_layer 1 False (the (STYLES 1)) (Some ''Zamunda'')],
       listeners = level_listeners 0 @ level_listeners 1 \<rparr>"

text \<open>The client with the country filter after the map has loaded and Zamunda was chosen.\<close>

definition demo_tiled :: tiled where
  "demo_tiled =
     \<lparr> the_map = demo_map, selected = Some (demo_catalog ! 1), countriesData = demo_catalog,
       admin_buttons = [(0, True), (1, False)], container_shown = True,
       select_value = ''Zamunda'', camera_at = Fit_bounds [30, 0, 40, 10] \<rparr>"

text \<open>
  The map of \<open>js/app.js\<close>: after the map has loaded, after Zamunda was chosen (the
  layers of level 1 exist, hidden), and after the button of level 1 was clicked (they
  are shown).
\<close>

definition demo_app_map_loaded :: maplibre where
  "demo_app_map_loaded =
     \<lparr> sources = [(Carto_light, Raster_tiles), (Gadm_level 0, Pmtiles 0)],
       layers = [basemap_layer, fill_layer 0 True (the (STYLES_app 0)) None,
                 line_layer 0 True (the (STYLES_app 0)) None],
       listeners = level_listeners 0 \<rparr>"

definition demo_app_map :: "bool \<Rightarrow> maplibre" where
  "demo_app_map level1_shown =
     \<lparr> sources = [(Carto_light, Raster_tiles), (Gadm_level 0, Pmtiles 0),
                  (Gadm_level 1, Pmtiles 1)],
       layers = [basemap_layer, fill_layer 0 True (the (STYLES_app 0)) None,
                 line_layer 0 True (the (STYLES_app 0)) None,
                 fill_layer 1 level1_shown (the (STYLES_app 1)) None,
                 line_layer 1 level1_shown (the (STYLES_app 1)) None],
       listeners = level_listeners 0 @ level_listeners 1 \<rparr>"

text \<open>
  The client of \<open>js/app.js\<close> after the map has loaded, Zamunda was chosen and the
  button of level 1 was clicked.
\<close>

definition demo_tiled_app :: tiled where
  "demo_tiled_app =
     \<lparr> the_map = demo_app_map True, selected = Some (demo_catalog ! 1),
       countriesData = demo_catalog, admin_buttons = [(0, True), (1, True)],
       container_shown = True, select_value = ''Zamunda'',
       camera_at = Fit_bounds [30, 0, 40, 10] \<rparr>"

section \<open>Properties of the on-demand variant\<close>

subsection \<open>GROUP BY\<close>

lemma group_by_member:
  "(x, g) \<in> set (group_by key xs) \<Longrightarrow> x \<in> set xs \<and> g = filter (\<lambda>y. key y = key x) xs"
proof (induction key xs rule: group_by.induct)
  case (1 key)
  then show ?case by simp
next
  case (2 key a xs)
  show ?case
  proof (cases "(x, g) = (a, a # filter (\<lambda>y. key y = key a) xs)")
    case True
    then show ?thesis by simp
  next
    case False
    from "2.prems" False have m: "(x, g) \<in> set (group_by key (filter (\<lambda>y. key y \<noteq> key a) xs))"
      by auto
    from 2(1)[OF m] have x: "x \<in> set xs" "key x \<noteq> key a"
      and g: "g = filter (\<lambda>y. key y = key x) (filter (\<lambda>y. key y \<noteq> key a) xs)"
      by auto
    have "filter (\<lambda>y. key y = key x) (filter (\<lambda>y. key y \<noteq> key a) xs)
          = filter (\<lambda>y. key y = key x) xs"
      using x(2) by (auto simp: filter_filter intro: filter_cong)
    with x g show ?thesis by auto
  qed
qed




subsection \<open>The query and its rows\<close>

lemma conn_query_Inr:
  assumes "conn_query e q = Inr rs"
  obtains t where "fetch e (q_from q) = Some t"
    and "set (q_where q # q_group_by q) \<subseteq> set (schema t)"
    and "rs = map (select_group e q) (group_by (group_key q) (kept_rows q t))"
  using assms by (auto simp: conn_query_def split: option.splits if_splits)

lemma feature_member:
  assumes "f \<in> set (fst (rows_to_features e lvl rs))"
  obtains r g where "r \<in> set rs" and "JSON_parse e (geojson r) = Some g"
    and "f = \<lparr> properties = row_props lvl r, feature_geometry = g \<rparr>"
  using assms
  by (auto simp: rows_to_features_def List.map_filter_def row_to_feature_def split: option.splits)

lemma field_name_select:
  "field (select_group e (build_query b fl lvl) g) ''name''
     = (case cols (fst g) (Col_NAME lvl) of None \<Rightarrow> Null | Some s \<Rightarrow> Str s)"
  by (simp add: field_def select_group_def build_query_def split: option.splits)

lemma kept_rows_name:
  "x \<in> set (kept_rows (build_query b fl lvl) t) \<Longrightarrow>
     \<exists>s. cols x (Col_NAME lvl) = Some s \<and> s \<noteq> []"
  by (auto simp: kept_rows_def where_ok_def build_query_def split: option.splits)


lemma demo_query:
  "conn_query demo_env (build_query ''http://host/'' ''wakanda.parquet'' 2) = Inr demo_rows"
  by (simp add: conn_query_def build_query_def demo_env_def demo_table_def demo_rows_def
      kept_rows_def where_ok_def group_key_def select_group_def union_geojson_def demo_row_def)

lemma demo_fetch:
  "fetch demo_env (q_from (build_query ''http://host/'' ''wakanda.parquet'' 2)) = Some demo_table"
  by (simp add: build_query_def demo_env_def)

lemma demo_feats:
  "rows_to_features demo_env 2 demo_rows
     = (demo_features, [Warn_failed_to_parse_geometry (Str ''Broken'')])"
  by (simp add: rows_to_features_def row_to_feature_def List.map_filter_def demo_rows_def
      demo_env_def demo_features_def row_props_def field_def)

lemma result_row_group:
  assumes "fetch e (q_from q) = Some t" and "conn_query e q = Inr rs" and "r \<in> set rs"
  obtains x where "x \<in> set (kept_rows q t)"
    and "r = select_group e q (x, filter (\<lambda>y. group_key q y = group_key q x) (kept_rows q t))"
proof -
  from assms(1,2) have rs: "rs = map (select_group e q) (group_by (group_key q) (kept_rows q t))"
    by (auto elim: conn_query_Inr)
  with assms(3) obtain p where p: "p \<in> set (group_by (group_key q) (kept_rows q t))"
    and rp: "r = select_group e q p"
    by auto
  from p have "(fst p, snd p) \<in> set (group_by (group_key q) (kept_rows q t))" by simp
  from group_by_member[OF this] rp that show thesis
    by (metis prod.collapse)
qed

lemma field_parent_select:
  "field (select_group e (build_query b fl lvl) g) ''parent''
     = (if lvl > 1
        then (case cols (fst g) (Col_NAME (lvl - 1)) of None \<Rightarrow> Null | Some s \<Rightarrow> Str s)
        else Undefined)"
  by (simp add: field_def select_group_def build_query_def split: option.splits)

lemma parsed_features:
  "fst (rows_to_features e lvl rs)
     = map (\<lambda>r. \<lparr> properties = row_props lvl r,
                   feature_geometry = the (JSON_parse e (geojson r)) \<rparr>)
         (filter (\<lambda>r. JSON_parse e (geojson r) \<noteq> None) rs)"
  by (induction rs)
     (auto simp: rows_to_features_def List.map_filter_def row_to_feature_def split: option.splits)

lemma parse_warnings:
  "snd (rows_to_features e lvl rs)
     = map (\<lambda>r. Warn_failed_to_parse_geometry (field r ''name''))
         (filter (\<lambda>r. JSON_parse e (geojson r) = None) rs)"
  by (induction rs)
     (auto simp: rows_to_features_def row_to_feature_def split: option.splits)



subsection \<open>Rows, groups and features\<close>









subsection \<open>Claim C1\<close>




subsection \<open>Claim C2\<close>

text \<open>
  C2. Whatever the level, the country file and the engine, every feature that
  loadBoundaries builds from the rows of its query has a \<open>name\<close> that is a non-empty
  string (neither null nor undefined nor the empty string), and every row of the query
  result aggregates a non-empty group of rows of the file all of which have a
  \<open>NAME_level\<close> that is neither NULL nor empty: the rows with a NULL or empty name
  take no part in the aggregation.
\<close>

theorem features_have_names:
  assumes "fetch e (q_from (build_query b fl lvl)) = Some t"
    and "conn_query e (build_query b fl lvl) = Inr rs"
  shows "(\<forall>f \<in> set (fst (rows_to_features e lvl rs)).
            \<exists>s. name (properties f) = Str s \<and> s \<noteq> [])
       \<and> (\<forall>r \<in> set rs. \<exists>grp. geojson r = union_geojson e grp \<and> grp \<noteq> []
            \<and> set grp \<subseteq> set (rows t)
            \<and> (\<forall>x \<in> set grp. \<exists>s. cols x (Col_NAME lvl) = Some s \<and> s \<noteq> []))"
proof (intro conjI ballI)
  let ?q = "build_query b fl lvl"
  fix f assume "f \<in> set (fst (rows_to_features e lvl rs))"
  then obtain r g where r: "r \<in> set rs"
    and f: "f = \<lparr> properties = row_props lvl r, feature_geometry = g \<rparr>"
    by (rule feature_member)
  from assms r obtain x where x: "x \<in> set (kept_rows ?q t)"
    and rx: "r = select_group e ?q
                  (x, filter (\<lambda>y. group_key ?q y = group_key ?q x) (kept_rows ?q t))"
    by (rule result_row_group)
  from kept_rows_name[OF x] obtain s where s: "cols x (Col_NAME lvl) = Some s" "s \<noteq> []"
    by blast
  have "name (properties f) = field r ''name''"
    by (simp add: f row_props_def)
  also have "\<dots> = Str s"
    by (simp add: rx field_name_select s)
  finally show "\<exists>s. name (properties f) = Str s \<and> s \<noteq> []"
    using s by simp
next
  let ?q = "build_query b fl lvl"
  fix r assume "r \<in> set rs"
  with assms obtain x where x: "x \<in> set (kept_rows ?q t)"
    and rx: "r = select_group e ?q
                  (x, filter (\<lambda>y. group_key ?q y = group_key ?q x) (kept_rows ?q t))"
    by (rule result_row_group)
  let ?grp = "filter (\<lambda>y. group_key ?q y = group_key ?q x) (kept_rows ?q t)"
  have "geojson r = union_geojson e ?grp"
    by (simp add: rx select_group_def)
  moreover from x have "?grp \<noteq> []"
    by (auto simp: filter_empty_conv)
  moreover have "set ?grp \<subseteq> set (rows t)"
    by (auto simp: kept_rows_def)
  moreover have "\<forall>y \<in> set ?grp. \<exists>s. cols y (Col_NAME lvl) = Some s \<and> s \<noteq> []"
    using kept_rows_name by fastforce
  ultimately show "\<exists>grp. geojson r = union_geojson e grp \<and> grp \<noteq> []
            \<and> set grp \<subseteq> set (rows t)
            \<and> (\<forall>x \<in> set grp. \<exists>s. cols x (Col_NAME lvl) = Some s \<and> s \<noteq> [])"
    by blast
qed

theorem features_have_names_witness:
  "fetch demo_env (q_from (build_query ''http://host/'' ''wakanda.parquet'' 2)) = Some demo_table
   \<and> conn_query demo_env (build_query ''http://host/'' ''wakanda.parquet'' 2) = Inr demo_rows
   \<and> name (properties (demo_features ! 0)) = Str ''Birnin''
   \<and> name (properties (demo_features ! 1)) = Str ''Orphan''
   \<and> length (fst (rows_to_features demo_env 2 demo_rows)) = 2
   \<and> length (rows demo_table) = 6"
  using features_have_names [OF demo_fetch demo_query] demo_fetch demo_query
  by (simp add: demo_feats demo_features_def demo_table_def)

subsection \<open>Claim C8\<close>

text \<open>
  C8. For every list of result rows, the features are exactly the rows whose
  \<open>geojson\<close> text JSON.parse accepts, converted in order; each row that JSON.parse
  rejects is dropped and leaves one warning that carries the row's name; no row is
  lost otherwise. The call that receives the rows shows no error box: it ends with
  the feature collection in the new boundary layer.
\<close>

theorem unparsable_rows_dropped:
  "fst (rows_to_features e lvl rs)
     = map (\<lambda>r. \<lparr> properties = row_props lvl r,
                   feature_geometry = the (JSON_parse e (geojson r)) \<rparr>)
         (filter (\<lambda>r. JSON_parse e (geojson r) \<noteq> None) rs)
   \<and> snd (rows_to_features e lvl rs)
     = map (\<lambda>r. Warn_failed_to_parse_geometry (field r ''name''))
         (filter (\<lambda>r. JSON_parse e (geojson r) = None) rs)
   \<and> length (fst (rows_to_features e lvl rs)) + length (snd (rows_to_features e lvl rs))
     = length rs
   \<and> error_boxes (loadBoundaries_finish e lvl (Inr rs) s) = error_boxes s
   \<and> console (loadBoundaries_finish e lvl (Inr rs) s)
     = console s @ snd (rows_to_features e lvl rs)
   \<and> boundaryLayer (loadBoundaries_finish e lvl (Inr rs) s)
     = Some \<lparr> layer_id = next_object s, layer_features = fst (rows_to_features e lvl rs) \<rparr>"
proof -
  have "length (filter (\<lambda>r. JSON_parse e (geojson r) \<noteq> None) rs)
        + length (filter (\<lambda>r. JSON_parse e (geojson r) = None) rs) = length rs"
    using sum_length_filter_compl[of "\<lambda>r. JSON_parse e (geojson r) \<noteq> None" rs] by simp
  then have "length (fst (rows_to_features e lvl rs)) + length (snd (rows_to_features e lvl rs))
     = length rs"
    by (simp add: parsed_features parse_warnings)
  moreover have "error_boxes (loadBoundaries_finish e lvl (Inr rs) s) = error_boxes s"
    by (simp add: loadBoundaries_finish_def Let_def)
  moreover have "console (loadBoundaries_finish e lvl (Inr rs) s)
     = console s @ snd (rows_to_features e lvl rs)"
    by (simp add: loadBoundaries_finish_def Let_def)
  moreover have "boundaryLayer (loadBoundaries_finish e lvl (Inr rs) s)
     = Some \<lparr> layer_id = next_object s, layer_features = fst (rows_to_features e lvl rs) \<rparr>"
    by (simp add: loadBoundaries_finish_def Let_def)
  ultimately show ?thesis
    using parsed_features[of e lvl rs] parse_warnings[of e lvl rs] by simp
qed

theorem unparsable_rows_dropped_witness:
  "fst (rows_to_features demo_env 2 demo_rows) = demo_features
   \<and> snd (rows_to_features demo_env 2 demo_rows) = [Warn_failed_to_parse_geometry (Str ''Broken'')]
   \<and> length demo_features + 1 = length demo_rows
   \<and> error_boxes (loadBoundaries_finish demo_env 2 (Inr demo_rows) demo_page) = []
   \<and> boundaryLayer (loadBoundaries_finish demo_env 2 (Inr demo_rows) demo_page)
       = Some \<lparr> layer_id = 0, layer_features = demo_features \<rparr>"
  using unparsable_rows_dropped [of demo_env 2 demo_rows demo_page]
  by (simp add: demo_feats) (simp add: demo_page_def demo_rows_def demo_features_def)

subsection \<open>Claim C9\<close>

text \<open>
  C9, as the code has it. A feature comes from a raw row of the file (any row of its
  group) such that the feature's \<open>parent\<close> property is present exactly when the
  level is greater than 1 and the row's NAME_(level-1) is neither NULL nor the empty
  string; when present it is that value. (The claim as stated, present if and only
  if the level is greater than 1, fails: see the counterexample below.)
\<close>

theorem parent_property:
  assumes "fetch e (q_from (build_query b fl lvl)) = Some t"
    and "conn_query e (build_query b fl lvl) = Inr rs"
    and "f \<in> set (fst (rows_to_features e lvl rs))"
  shows "\<exists>x \<in> set (rows t).
           name (properties f) = (case cols x (Col_NAME lvl) of None \<Rightarrow> Null | Some s \<Rightarrow> Str s)
         \<and> parent (properties f) =
             (if lvl > 1
              then (case cols x (Col_NAME (lvl - 1)) of
                      None \<Rightarrow> None
                    | Some s \<Rightarrow> if s = [] then None else Some (Str s))
              else None)"
proof -
  let ?q = "build_query b fl lvl"
  from assms(3) obtain r g where r: "r \<in> set rs"
    and f: "f = \<lparr> properties = row_props lvl r, feature_geometry = g \<rparr>"
    by (rule feature_member)
  from assms(1,2) r obtain x where x: "x \<in> set (kept_rows ?q t)"
    and rx: "r = select_group e ?q
                  (x, filter (\<lambda>y. group_key ?q y = group_key ?q x) (kept_rows ?q t))"
    by (rule result_row_group)
  from x have xt: "x \<in> set (rows t)"
    by (simp add: kept_rows_def)
  have "name (properties f) = (case cols x (Col_NAME lvl) of None \<Rightarrow> Null | Some s \<Rightarrow> Str s)"
    by (simp add: f row_props_def rx field_name_select)
  moreover have "parent (properties f) =
             (if lvl > 1
              then (case cols x (Col_NAME (lvl - 1)) of
                      None \<Rightarrow> None
                    | Some s \<Rightarrow> if s = [] then None else Some (Str s))
              else None)"
    by (simp add: f row_props_def rx field_parent_select split: option.splits)
  ultimately show ?thesis using xt by blast
qed

theorem parent_property_witness:
  "fetch demo_env (q_from (build_query ''http://host/'' ''wakanda.parquet'' 2)) = Some demo_table
   \<and> conn_query demo_env (build_query ''http://host/'' ''wakanda.parquet'' 2) = Inr demo_rows
   \<and> demo_features ! 0 \<in> set (fst (rows_to_features demo_env 2 demo_rows))
   \<and> (\<exists>x. x \<in> set (rows demo_table) \<and> cols x (Col_NAME 1) = Some ''North''
          \<and> parent (properties (demo_features ! 0)) = Some (Str ''North''))"
proof -
  have m: "demo_features ! 0 \<in> set (fst (rows_to_features demo_env 2 demo_rows))"
    by (simp add: demo_feats demo_features_def)
  from parent_property [OF demo_fetch demo_query m]
  obtain x where "x \<in> set (rows demo_table)"
    and "parent (properties (demo_features ! 0)) =
           (case cols x (Col_NAME 1) of None \<Rightarrow> None
            | Some s \<Rightarrow> if s = [] then None else Some (Str s))"
    by auto
  moreover have "parent (properties (demo_features ! 0)) = Some (Str ''North'')"
    by (simp add: demo_features_def)
  ultimately have "\<exists>x. x \<in> set (rows demo_table) \<and> cols x (Col_NAME 1) = Some ''North''
          \<and> parent (properties (demo_features ! 0)) = Some (Str ''North'')"
    by (auto split: option.splits if_splits)
  with m demo_fetch demo_query show ?thesis by simp
qed

text \<open>
  Counterexample to C9 as stated: at level 2 the district Orphan, whose NAME_1 is NULL,
  becomes a feature without a \<open>parent\<close> property.
\<close>

theorem parent_absent_counterexample:
  "conn_query demo_env (build_query ''http://host/'' ''wakanda.parquet'' 2) = Inr demo_rows
   \<and> fst (rows_to_features demo_env 2 demo_rows) = demo_features
   \<and> level (properties (demo_features ! 1)) = 2
   \<and> name (properties (demo_features ! 1)) = Str ''Orphan''
   \<and> parent (properties (demo_features ! 1)) = None"
  by (simp add: demo_query demo_feats) (simp add: demo_features_def)

subsection \<open>Claim C10\<close>

text \<open>
  C10. When no country is selected, loadBoundaries returns at once, in both copies
  of the on-demand client: the call is over before any query is issued (\<open>Done\<close>)
  and the page state, with its loading indicator, error boxes, currentLevel, boundary
  layer and map layers, is the one it was called in.
\<close>

theorem no_country_no_op:
  assumes "currentCountry s = None"
  shows "loadBoundaries_begin e lvl s = Done s
       \<and> loadBoundaries e lvl s = s
       \<and> loadBoundaries_begin_old e lvl s = Done s"
  using assms
  by (simp add: loadBoundaries_begin_def loadBoundaries_def loadBoundaries_begin_old_def)

theorem no_country_no_op_witness:
  "currentCountry demo_page = None
   \<and> loadBoundaries_begin demo_env 1 demo_page = Done demo_page
   \<and> loadBoundaries demo_env 1 demo_page = demo_page
   \<and> loadBoundaries_begin_old demo_env 1 demo_page = Done demo_page"
proof -
  have h: "currentCountry demo_page = None" by (simp add: demo_page_def)
  from no_country_no_op [OF h, of demo_env 1] h show ?thesis by simp
qed


subsection \<open>Waiting for the engine\<close>







subsection \<open>Two clicks in a row\<close>

lemma demo_query_1:
  "conn_query demo_env (build_query ''http://host/'' ''wakanda.parquet'' 1) = Inr demo_rows_1"
  by (simp add: conn_query_def build_query_def demo_env_def demo_table_def demo_rows_1_def
      kept_rows_def where_ok_def group_key_def select_group_def union_geojson_def demo_row_def)

lemma demo_base: "baseUrl demo_env = ''http://host/''" and demo_ready: "ready demo_env k"
  by (simp_all add: demo_env_def)

lemma remove_fresh:
  assumes "\<forall>l \<in> set (map_layers s). layer_id l < next_object s"
  shows "filter (\<lambda>x. layer_id x \<noteq> next_object s) (remove_existing_layer s)
         = remove_existing_layer s"
proof -
  have "set (remove_existing_layer s) \<subseteq> set (map_layers s)"
    by (auto simp: remove_existing_layer_def removeLayer_def split: option.splits)
  with assms have "\<forall>x \<in> set (remove_existing_layer s). layer_id x \<noteq> next_object s"
    by fastforce
  then show ?thesis by (simp add: filter_id_conv)
qed

lemma two_clicks:
  assumes "currentCountry s = Some c" and "ready e 0"
  shows "run e [Click l1, Click l2] \<lparr> page_of = s, in_flight = [] \<rparr>
       = \<lparr> page_of = s \<lparr> loading_indicator := Some (Loading_Level_boundaries l2),
                          currentLevel := Some l2,
                          level_buttons := map (\<lambda>(l, a). (l, l = l2)) (level_buttons s) \<rparr>,
           in_flight = [(l1, build_query (baseUrl e) (filename c) l1),
                        (l2, build_query (baseUrl e) (filename c) l2)] \<rparr>"
  using assms
  by (simp add: loadBoundaries_begin_def Let_def comp_def case_prod_unfold)

lemma settle_first:
  assumes "conn_query e q = Inr rs"
  shows "handle e (Settle 0) \<lparr> page_of = s, in_flight = (lvl, q) # qs \<rparr>
       = \<lparr> page_of = loadBoundaries_finish e lvl (Inr rs) s, in_flight = qs \<rparr>"
  using assms by simp

lemma settle_second:
  assumes "conn_query e q = Inr rs"
  shows "handle e (Settle (Suc 0)) \<lparr> page_of = s, in_flight = p # (lvl, q) # qs \<rparr>
       = \<lparr> page_of = loadBoundaries_finish e lvl (Inr rs) s, in_flight = p # qs \<rparr>"
  using assms by simp

lemma finish_once:
  "map_layers (loadBoundaries_finish e lvl (Inr rs) s)
     = remove_existing_layer s
         @ [\<lparr> layer_id = next_object s, layer_features = fst (rows_to_features e lvl rs) \<rparr>]"
  by (simp add: loadBoundaries_finish_def Let_def remove_existing_layer_def)

lemma finish_twice:
  assumes "\<forall>l \<in> set (map_layers s). layer_id l < next_object s"
  shows "map_layers (loadBoundaries_finish e lvl' (Inr rs') (loadBoundaries_finish e lvl (Inr rs) s))
     = remove_existing_layer s
         @ [\<lparr> layer_id = Suc (next_object s), layer_features = fst (rows_to_features e lvl' rs') \<rparr>]"
  using remove_fresh[OF assms]
  by (simp add: loadBoundaries_finish_def Let_def remove_existing_layer_def removeLayer_def)

lemma demo_feats_1:
  "rows_to_features demo_env 1 demo_rows_1
     = ([\<lparr> properties =
            \<lparr> name = Str ''North'', type = Null, eng_type = Null, gid = Null,
              country = Str ''Wakanda'', level = 1, parent = None \<rparr>,
          feature_geometry = ''anbebad'' \<rparr>], [])"
  by (simp add: rows_to_features_def row_to_feature_def List.map_filter_def demo_rows_1_def
      demo_env_def row_props_def field_def)

lemma demo_selected_country: "currentCountry demo_selected = Some demo_country"
  by (simp add: demo_selected_def)

lemma demo_selected_fresh: "\<forall>l \<in> set (map_layers demo_selected). layer_id l < next_object demo_selected"
  by (simp add: demo_selected_def demo_page_def)

lemma demo_selected_empty: "remove_existing_layer demo_selected = []"
  by (simp add: remove_existing_layer_def demo_selected_def demo_page_def)

lemma demo_q1:
  "conn_query demo_env (build_query (baseUrl demo_env) (filename demo_country) 1) = Inr demo_rows_1"
  using demo_query_1 by (simp add: demo_env_def demo_country_def)

lemma demo_q2:
  "conn_query demo_env (build_query (baseUrl demo_env) (filename demo_country) 2) = Inr demo_rows"
  using demo_query by (simp add: demo_env_def demo_country_def)

lemma two_clicks_settled:
  assumes "currentCountry s = Some c" and "ready e 0"
    and "conn_query e (build_query (baseUrl e) (filename c) l1) = Inr rs1"
    and "conn_query e (build_query (baseUrl e) (filename c) l2) = Inr rs2"
  shows "run e [Click l1, Click l2, Settle 0] \<lparr> page_of = s, in_flight = [] \<rparr>
        = \<lparr> page_of = loadBoundaries_finish e l1 (Inr rs1)
              (s \<lparr> loading_indicator := Some (Loading_Level_boundaries l2),
                   currentLevel := Some l2,
                   level_buttons := map (\<lambda>(l, a). (l, l = l2)) (level_buttons s) \<rparr>),
            in_flight = [(l2, build_query (baseUrl e) (filename c) l2)] \<rparr>"
    and "run e [Click l1, Click l2, Settle 0, Settle 0] \<lparr> page_of = s, in_flight = [] \<rparr>
        = \<lparr> page_of = loadBoundaries_finish e l2 (Inr rs2)
              (loadBoundaries_finish e l1 (Inr rs1)
                (s \<lparr> loading_indicator := Some (Loading_Level_boundaries l2),
                     currentLevel := Some l2,
                     level_buttons := map (\<lambda>(l, a). (l, l = l2)) (level_buttons s) \<rparr>)),
            in_flight = [] \<rparr>"
    and "run e [Click l1, Click l2, Settle 1, Settle 0] \<lparr> page_of = s, in_flight = [] \<rparr>
        = \<lparr> page_of = loadBoundaries_finish e l1 (Inr rs1)
              (loadBoundaries_finish e l2 (Inr rs2)
                (s \<lparr> loading_indicator := Some (Loading_Level_boundaries l2),
                     currentLevel := Some l2,
                     level_buttons := map (\<lambda>(l, a). (l, l = l2)) (level_buttons s) \<rparr>)),
            in_flight = [] \<rparr>"
proof -
  let ?s2 = "s \<lparr> loading_indicator := Some (Loading_Level_boundaries l2),
                  currentLevel := Some l2,
                  level_buttons := map (\<lambda>(l, a). (l, l = l2)) (level_buttons s) \<rparr>"
  let ?q1 = "build_query (baseUrl e) (filename c) l1"
  let ?q2 = "build_query (baseUrl e) (filename c) l2"
  have clicks: "run e ([Click l1, Click l2] @ evs) \<lparr> page_of = s, in_flight = [] \<rparr>
        = run e evs \<lparr> page_of = ?s2, in_flight = [(l1, ?q1), (l2, ?q2)] \<rparr>" for evs
    using two_clicks[OF assms(1,2), of l1 l2] by simp
  show "run e [Click l1, Click l2, Settle 0] \<lparr> page_of = s, in_flight = [] \<rparr>
        = \<lparr> page_of = loadBoundaries_finish e l1 (Inr rs1) ?s2, in_flight = [(l2, ?q2)] \<rparr>"
    using clicks[of "[Settle 0]"] settle_first[OF assms(3)] by simp
  show "run e [Click l1, Click l2, Settle 0, Settle 0] \<lparr> page_of = s, in_flight = [] \<rparr>
        = \<lparr> page_of = loadBoundaries_finish e l2 (Inr rs2)
                        (loadBoundaries_finish e l1 (Inr rs1) ?s2),
            in_flight = [] \<rparr>"
    using clicks[of "[Settle 0, Settle 0]"] settle_first[OF assms(3)] settle_first[OF assms(4)]
    by simp
  show "run e [Click l1, Click l2, Settle 1, Settle 0] \<lparr> page_of = s, in_flight = [] \<rparr>
        = \<lparr> page_of = loadBoundaries_finish e l1 (Inr rs1)
                        (loadBoundaries_finish e l2 (Inr rs2) ?s2),
            in_flight = [] \<rparr>"
    using clicks[of "[Settle 1, Settle 0]"] settle_second[OF assms(4)] settle_first[OF assms(3)]
    by simp
qed

lemma finish_level:
  "currentLevel (loadBoundaries_finish e l outcome t) = currentLevel t"
  by (simp add: loadBoundaries_finish_def Let_def split: sum.splits)

lemma finish_features_only:
  "boundaryLayer t = None \<Longrightarrow> map_layers t = [] \<Longrightarrow>
   displayed_levels (loadBoundaries_finish e l (Inr rs) t)
     = map (\<lambda>f. level (properties f)) (fst (rows_to_features e l rs))"
  by (simp add: displayed_levels_def loadBoundaries_finish_def Let_def remove_existing_layer_def)

lemma finish_twice_features_only:
  "boundaryLayer t = None \<Longrightarrow> map_layers t = [] \<Longrightarrow>
   displayed_levels (loadBoundaries_finish e l' (Inr rs') (loadBoundaries_finish e l (Inr rs) t))
     = map (\<lambda>f. level (properties f)) (fst (rows_to_features e l' rs'))"
  by (simp add: displayed_levels_def loadBoundaries_finish_def Let_def remove_existing_layer_def
      removeLayer_def)

subsection \<open>Claim C7\<close>



subsection \<open>Claim C3\<close>

text \<open>
  C3, as the code has it. With a country selected and the engine ready, let level
  \<open>l1\<close> be clicked and then level \<open>l2\<close> before the first query settles, and let
  both queries succeed. loadBoundaries has no sequence or generation check: each
  result is drawn when it arrives, in place of the boundary layer drawn before.
  So when the first query settles, level \<open>l1\<close>'s features are drawn although
  currentLevel is \<open>l2\<close>; once both have settled the map holds, besides the layers
  that were not the boundary layer, exactly one new layer: the features of \<open>l2\<close>
  if the queries settle in the order they were issued, the features of \<open>l1\<close> if
  they settle in the opposite order. currentLevel is \<open>l2\<close> throughout.
\<close>

theorem last_settled_result_is_displayed:
  assumes "currentCountry s = Some c" and "ready e 0"
    and "\<forall>l \<in> set (map_layers s). layer_id l < next_object s"
    and "conn_query e (build_query (baseUrl e) (filename c) l1) = Inr rs1"
    and "conn_query e (build_query (baseUrl e) (filename c) l2) = Inr rs2"
  shows "map_layers (page_of (run e [Click l1, Click l2, Settle 0]
                               \<lparr> page_of = s, in_flight = [] \<rparr>))
           = remove_existing_layer s
               @ [\<lparr> layer_id = next_object s,
                     layer_features = fst (rows_to_features e l1 rs1) \<rparr>]
       \<and> map_layers (page_of (run e [Click l1, Click l2, Settle 0, Settle 0]
                               \<lparr> page_of = s, in_flight = [] \<rparr>))
           = remove_existing_layer s
               @ [\<lparr> layer_id = Suc (next_object s),
                     layer_features = fst (rows_to_features e l2 rs2) \<rparr>]
       \<and> map_layers (page_of (run e [Click l1, Click l2, Settle 1, Settle 0]
                               \<lparr> page_of = s, in_flight = [] \<rparr>))
           = remove_existing_layer s
               @ [\<lparr> layer_id = Suc (next_object s),
                     layer_features = fst (rows_to_features e l1 rs1) \<rparr>]
       \<and> currentLevel (page_of (run e [Click l1, Click l2, Settle 0]
                                 \<lparr> page_of = s, in_flight = [] \<rparr>)) = Some l2
       \<and> currentLevel (page_of (run e [Click l1, Click l2, Settle 0, Settle 0]
                                 \<lparr> page_of = s, in_flight = [] \<rparr>)) = Some l2
       \<and> currentLevel (page_of (run e [Click l1, Click l2, Settle 1, Settle 0]
                                 \<lparr> page_of = s, in_flight = [] \<rparr>)) = Some l2"
proof -
  let ?s2 = "s \<lparr> loading_indicator := Some (Loading_Level_boundaries l2),
                  currentLevel := Some l2,
                  level_buttons := map (\<lambda>(l, a). (l, l = l2)) (level_buttons s) \<rparr>"
  note r = two_clicks_settled [OF assms(1,2,4,5)]
  have fresh: "\<forall>l \<in> set (map_layers ?s2). layer_id l < next_object ?s2"
    using assms(3) by simp
  have rem: "remove_existing_layer ?s2 = remove_existing_layer s"
    by (simp add: remove_existing_layer_def split: option.splits)
  show ?thesis
    unfolding r
    using finish_once[of e l1 rs1 ?s2] finish_twice[OF fresh, of e l2 rs2 l1 rs1]
      finish_twice[OF fresh, of e l1 rs1 l2 rs2]
    by (simp add: rem finish_level)
qed

theorem last_settled_result_is_displayed_witness:
  "currentCountry demo_selected = Some demo_country \<and> ready demo_env 0
   \<and> displayed_levels (page_of (run demo_env [Click 1, Click 2, Settle 0, Settle 0]
                                  \<lparr> page_of = demo_selected, in_flight = [] \<rparr>)) = [2, 2]
   \<and> displayed_levels (page_of (run demo_env [Click 1, Click 2, Settle 1, Settle 0]
                                  \<lparr> page_of = demo_selected, in_flight = [] \<rparr>)) = [1]"
proof -
  note th = last_settled_result_is_displayed
              [OF demo_selected_country demo_ready demo_selected_fresh demo_q1 demo_q2]
  from th have m1:
    "map_layers (page_of (run demo_env [Click 1, Click 2, Settle 0, Settle 0]
                            \<lparr> page_of = demo_selected, in_flight = [] \<rparr>))
       = remove_existing_layer demo_selected
           @ [\<lparr> layer_id = Suc (next_object demo_selected),
                 layer_features = fst (rows_to_features demo_env 2 demo_rows) \<rparr>]"
    by blast
  from th have m2:
    "map_layers (page_of (run demo_env [Click 1, Click 2, Settle 1, Settle 0]
                            \<lparr> page_of = demo_selected, in_flight = [] \<rparr>))
       = remove_existing_layer demo_selected
           @ [\<lparr> layer_id = Suc (next_object demo_selected),
                 layer_features = fst (rows_to_features demo_env 1 demo_rows_1) \<rparr>]"
    by blast
  have "displayed_levels (page_of (run demo_env [Click 1, Click 2, Settle 0, Settle 0]
                                  \<lparr> page_of = demo_selected, in_flight = [] \<rparr>)) = [2, 2]"
    unfolding displayed_levels_def m1
    by (simp add: demo_selected_empty demo_feats demo_features_def)
  moreover
  have "displayed_levels (page_of (run demo_env [Click 1, Click 2, Settle 1, Settle 0]
                                  \<lparr> page_of = demo_selected, in_flight = [] \<rparr>)) = [1]"
    unfolding displayed_levels_def m2
    by (simp add: demo_selected_empty demo_feats_1 [unfolded One_nat_def])
  ultimately show ?thesis
    using demo_selected_country demo_ready [of 0] by blast
qed

text \<open>
  Counterexample to C3 as stated: after the clicks on level 1 and level 2, the level-1
  result is drawn when it arrives (currentLevel is 2), and it is what stays on the
  map when it arrives last.
\<close>

theorem stale_result_displayed_counterexample:
  "currentLevel (page_of (run demo_env [Click 1, Click 2, Settle 0]
                            \<lparr> page_of = demo_selected, in_flight = [] \<rparr>)) = Some 2
   \<and> displayed_levels (page_of (run demo_env [Click 1, Click 2, Settle 0]
                            \<lparr> page_of = demo_selected, in_flight = [] \<rparr>)) = [1]
   \<and> currentLevel (page_of (run demo_env [Click 1, Click 2, Settle 1, Settle 0]
                            \<lparr> page_of = demo_selected, in_flight = [] \<rparr>)) = Some 2
   \<and> displayed_levels (page_of (run demo_env [Click 1, Click 2, Settle 1, Settle 0]
                            \<lparr> page_of = demo_selected, in_flight = [] \<rparr>)) = [1]"
proof -
  note r = two_clicks_settled [OF demo_selected_country demo_ready demo_q1 demo_q2]
  have n: "boundaryLayer (demo_selected \<lparr> loading_indicator := Some (Loading_Level_boundaries 2),
                   currentLevel := Some 2,
                   level_buttons := map (\<lambda>(l, a). (l, l = 2)) (level_buttons demo_selected) \<rparr>) = None"
    "map_layers (demo_selected \<lparr> loading_indicator := Some (Loading_Level_boundaries 2),
                   currentLevel := Some 2,
                   level_buttons := map (\<lambda>(l, a). (l, l = 2)) (level_buttons demo_selected) \<rparr>) = []"
    by (simp_all add: demo_selected_def demo_page_def)
  show ?thesis
    unfolding r
    by (simp add: finish_level finish_features_only [OF n]
          finish_twice_features_only [OF n] demo_feats_1 [unfolded One_nat_def])
qed

section \<open>Properties of the tiled variant\<close>

subsection \<open>The calls of the map\<close>

lemma and_then_Inr:
  "and_then r f = Inr y \<longleftrightarrow> (\<exists>x. r = Inr x \<and> f x = Inr y)"
  by (cases r) (simp_all add: and_then_def)

lemma and_then_simps [simp]:
  "and_then (Inr x) f = f x" "and_then (Inl err) f = Inl err"
  by (simp_all add: and_then_def)

lemma addSource_Inr:
  assumes "addSource sid d m = Inr m'"
  shows "m' = m \<lparr> sources := sources m @ [(sid, d)] \<rparr>" and "\<not> getSource m sid"
  using assms by (auto simp: addSource_def split: if_splits)

lemma insert_middle_names:
  "set (map f (as @ [l] @ bs)) = insert (f l) (set (map f (as @ bs)))"
  by auto

lemma insert_middle_distinct:
  "distinct (map f (as @ [l] @ bs))
     = (distinct (map f (as @ bs)) \<and> f l \<notin> set (map f (as @ bs)))"
  by auto

lemma insert_before_names:
  "set (map f (takeWhile P xs @ [l] @ dropWhile P xs)) = insert (f l) (set (map f xs))"
  unfolding insert_middle_names by (simp only: takeWhile_dropWhile_id)

lemma insert_before_distinct:
  assumes "distinct (map f xs)" and "f l \<notin> set (map f xs)"
  shows "distinct (map f (takeWhile P xs @ [l] @ dropWhile P xs))"
  unfolding insert_middle_distinct using assms by (simp only: takeWhile_dropWhile_id simp_thms)

lemma addLayer_Inr:
  assumes "addLayer l b m = Inr m'"
  shows "\<not> getLayer m (lname l)"
    and "sources m' = sources m"
    and "listeners m' = listeners m"
    and "set (map lname (layers m')) = insert (lname l) (set (map lname (layers m)))"
    and "distinct (map lname (layers m)) \<Longrightarrow> distinct (map lname (layers m'))"
proof -
  from assms show n: "\<not> getLayer m (lname l)"
    by (auto simp: addLayer_def split: if_splits)
  then have fresh: "lname l \<notin> set (map lname (layers m))"
    by (simp add: getLayer_def)
  from assms show "sources m' = sources m" "listeners m' = listeners m"
    by (auto simp: addLayer_def split: if_splits option.splits)
  show "set (map lname (layers m')) = insert (lname l) (set (map lname (layers m)))"
  proof (cases b)
    case None
    with assms have "layers m' = layers m @ [l]"
      by (auto simp: addLayer_def split: if_splits)
    then show ?thesis by simp
  next
    case (Some x)
    with assms have "layers m' = takeWhile (\<lambda>y. lname y \<noteq> x) (layers m) @ [l]
                                   @ dropWhile (\<lambda>y. lname y \<noteq> x) (layers m)"
      by (auto simp: addLayer_def split: if_splits)
    then show ?thesis by (simp only: insert_before_names)
  qed
  assume d: "distinct (map lname (layers m))"
  show "distinct (map lname (layers m'))"
  proof (cases b)
    case None
    with assms have "layers m' = layers m @ [l]"
      by (auto simp: addLayer_def split: if_splits)
    with d fresh show ?thesis by simp
  next
    case (Some x)
    with assms have "layers m' = takeWhile (\<lambda>y. lname y \<noteq> x) (layers m) @ [l]
                                   @ dropWhile (\<lambda>y. lname y \<noteq> x) (layers m)"
      by (auto simp: addLayer_def split: if_splits)
    with insert_before_distinct[OF d fresh] show ?thesis by simp
  qed
qed

subsection \<open>addLevelLayer\<close>

lemma line_layer_name [simp]: "lname (line_layer lvl v st flt) = Layer_line lvl"
  and fill_layer_name [simp]: "lname (fill_layer lvl v st flt) = Layer_fill lvl"
  and line_layer_source [simp]: "lsource (line_layer lvl v st flt) = Gadm_level lvl"
  and fill_layer_source [simp]: "lsource (fill_layer lvl v st flt) = Gadm_level lvl"
  by (simp_all add: line_layer_def fill_layer_def)

lemma map_on_fields [simp]:
  "layers (map_on ev n lvl m) = layers m" "sources (map_on ev n lvl m) = sources m"
  by (simp_all add: map_on_def)

lemma getLayer_map_on [simp]: "getLayer (map_on ev n lvl m) x = getLayer m x"
  by (simp add: getLayer_def)

lemma getSource_map_on [simp]: "getSource (map_on ev n lvl m) x = getSource m x"
  by (simp add: getSource_def)

text \<open>What a successful addLevelLayer leaves on the map.\<close>

lemma add_level_layers_Inr:
  assumes "add_level_layers styles flt lvl v m = Inr m'"
  shows "set (map fst (sources m')) = insert (Gadm_level lvl) (set (map fst (sources m)))"
    and "set (map lname (layers m'))
           = insert (Layer_line lvl) (insert (Layer_fill lvl) (set (map lname (layers m))))"
    and "no_duplicates m \<Longrightarrow> no_duplicates m'"
proof -
  from assms obtain m1 m2 where
    p1: "(if \<not> getSource m (Gadm_level lvl) then addSource (Gadm_level lvl) (Pmtiles lvl) m
          else Inr m) = Inr m1"
    and p2: "(if \<not> getLayer m1 (Layer_line lvl)
           then (case styles lvl of
                   None \<Rightarrow> Inl Undefined_style
                 | Some st \<Rightarrow> addLayer (line_layer lvl v st flt) None m1)
           else Inr m1) = Inr m2"
    and p3: "(if \<not> getLayer m2 (Layer_fill lvl)
             then (case styles lvl of
                     None \<Rightarrow> Inl Undefined_style
                   | Some st \<Rightarrow>
                       and_then
                         (addLayer (fill_layer lvl v st flt) (Some (Layer_line lvl)) m2)
                         (\<lambda>m3. Inr (map_on ''mouseleave'' (Layer_fill lvl) lvl
                                      (map_on ''mouseenter'' (Layer_fill lvl) lvl
                                        (map_on ''click'' (Layer_fill lvl) lvl m3)))))
             else Inr m2) = Inr m'"
    unfolding add_level_layers_def and_then_Inr by blast
  have s1: "set (map fst (sources m1)) = insert (Gadm_level lvl) (set (map fst (sources m)))"
    and l1: "layers m1 = layers m"
    and d1: "distinct (map fst (sources m)) \<Longrightarrow> distinct (map fst (sources m1))"
    using p1 by (auto simp: addSource_def getSource_def split: if_splits)
  have s2: "sources m2 = sources m1"
    and l2: "set (map lname (layers m2)) = insert (Layer_line lvl) (set (map lname (layers m1)))"
    and d2: "distinct (map lname (layers m1)) \<Longrightarrow> distinct (map lname (layers m2))"
  proof -
    show "sources m2 = sources m1"
      using p2 by (auto split: if_splits option.splits dest: addLayer_Inr(2))
    show "set (map lname (layers m2)) = insert (Layer_line lvl) (set (map lname (layers m1)))"
    proof (cases "getLayer m1 (Layer_line lvl)")
      case True
      with p2 show ?thesis by (auto simp: getLayer_def)
    next
      case False
      with p2 obtain st where "addLayer (line_layer lvl v st flt) None m1 = Inr m2"
        by (auto split: option.splits)
      from addLayer_Inr(4)[OF this] show ?thesis by simp
    qed
    assume d: "distinct (map lname (layers m1))"
    show "distinct (map lname (layers m2))"
    proof (cases "getLayer m1 (Layer_line lvl)")
      case True
      with p2 d show ?thesis by simp
    next
      case False
      with p2 obtain st where "addLayer (line_layer lvl v st flt) None m1 = Inr m2"
        by (auto split: option.splits)
      from addLayer_Inr(5)[OF this d] show ?thesis .
    qed
  qed
  have s3: "sources m' = sources m2"
    and l3: "set (map lname (layers m')) = insert (Layer_fill lvl) (set (map lname (layers m2)))"
    and d3: "distinct (map lname (layers m2)) \<Longrightarrow> distinct (map lname (layers m'))"
  proof -
    have c: "m' = m2 \<and> getLayer m2 (Layer_fill lvl)
           \<or> (\<exists>st m3. addLayer (fill_layer lvl v st flt) (Some (Layer_line lvl)) m2 = Inr m3
                \<and> layers m' = layers m3 \<and> sources m' = sources m3)"
      using p3 by (fastforce simp: and_then_Inr split: if_splits option.splits)
    then show "sources m' = sources m2"
      by (auto dest: addLayer_Inr(2))
    from c show "set (map lname (layers m')) = insert (Layer_fill lvl) (set (map lname (layers m2)))"
    proof
      assume "m' = m2 \<and> getLayer m2 (Layer_fill lvl)"
      then show ?thesis by (auto simp: getLayer_def)
    next
      assume "\<exists>st m3. addLayer (fill_layer lvl v st flt) (Some (Layer_line lvl)) m2 = Inr m3
                \<and> layers m' = layers m3 \<and> sources m' = sources m3"
      then obtain st m3 where a: "addLayer (fill_layer lvl v st flt) (Some (Layer_line lvl)) m2 = Inr m3"
        and e: "layers m' = layers m3"
        by blast
      from addLayer_Inr(4)[OF a] e show ?thesis by simp
    qed
    assume d: "distinct (map lname (layers m2))"
    from c show "distinct (map lname (layers m'))"
    proof
      assume "m' = m2 \<and> getLayer m2 (Layer_fill lvl)"
      with d show ?thesis by simp
    next
      assume "\<exists>st m3. addLayer (fill_layer lvl v st flt) (Some (Layer_line lvl)) m2 = Inr m3
                \<and> layers m' = layers m3 \<and> sources m' = sources m3"
      then obtain st m3 where a: "addLayer (fill_layer lvl v st flt) (Some (Layer_line lvl)) m2 = Inr m3"
        and e: "layers m' = layers m3"
        by blast
      from addLayer_Inr(5)[OF a d] e show ?thesis by simp
    qed
  qed
  show "set (map fst (sources m')) = insert (Gadm_level lvl) (set (map fst (sources m)))"
    by (simp only: s3 s2 s1)
  show "set (map lname (layers m'))
           = insert (Layer_line lvl) (insert (Layer_fill lvl) (set (map lname (layers m))))"
    unfolding l3 l2 l1 by blast
  assume "no_duplicates m"
  then show "no_duplicates m'"
    unfolding no_duplicates_def using d1 d2 d3 by (simp add: s3 s2 l1)
qed

lemma add_level_layers_noop:
  assumes "getSource m (Gadm_level lvl)" and "getLayer m (Layer_line lvl)"
    and "getLayer m (Layer_fill lvl)"
  shows "add_level_layers styles flt lvl v m = Inr m"
  using assms by (simp add: add_level_layers_def)

lemma add_level_layers_again:
  assumes "add_level_layers styles flt lvl v m = Inr m'"
  shows "add_level_layers styles' flt' lvl v' m' = Inr m'"
proof (rule add_level_layers_noop)
  from add_level_layers_Inr(1)[OF assms] show "getSource m' (Gadm_level lvl)"
    by (simp add: getSource_def)
  from add_level_layers_Inr(2)[OF assms]
  show "getLayer m' (Layer_line lvl)" "getLayer m' (Layer_fill lvl)"
    by (simp_all add: getLayer_def)
qed

lemma add_level_layers_succeeds:
  assumes "styles lvl = Some st"
  shows "\<exists>m'. add_level_layers styles flt lvl v m = Inr m'"
proof -
  let ?p1 = "if \<not> getSource m (Gadm_level lvl)
        then addSource (Gadm_level lvl) (Pmtiles lvl) m else Inr m"
  have "\<exists>m1. ?p1 = Inr m1 \<and> getSource m1 (Gadm_level lvl)"
    by (cases "getSource m (Gadm_level lvl)") (simp_all add: addSource_def getSource_def)
  then obtain m1 where p1: "?p1 = Inr m1" and g1: "getSource m1 (Gadm_level lvl)"
    by blast
  let ?p2 = "if \<not> getLayer m1 (Layer_line lvl)
           then (case styles lvl of
                   None \<Rightarrow> Inl Undefined_style
                 | Some st \<Rightarrow> addLayer (line_layer lvl v st flt) None m1)
           else Inr m1"
  have "\<exists>m2. ?p2 = Inr m2 \<and> getSource m2 (Gadm_level lvl) \<and> getLayer m2 (Layer_line lvl)"
    using assms g1
    by (cases "getLayer m1 (Layer_line lvl)") (simp_all add: addLayer_def getSource_def getLayer_def)
  then obtain m2 where p2: "?p2 = Inr m2"
    and g2: "getSource m2 (Gadm_level lvl)" "getLayer m2 (Layer_line lvl)"
    by blast
  let ?p3 = "if \<not> getLayer m2 (Layer_fill lvl)
             then (case styles lvl of
                     None \<Rightarrow> Inl Undefined_style
                   | Some st \<Rightarrow>
                       and_then
                         (addLayer (fill_layer lvl v st flt) (Some (Layer_line lvl)) m2)
                         (\<lambda>m3. Inr (map_on ''mouseleave'' (Layer_fill lvl) lvl
                                      (map_on ''mouseenter'' (Layer_fill lvl) lvl
                                        (map_on ''click'' (Layer_fill lvl) lvl m3)))))
             else Inr m2"
  have "\<exists>m3. ?p3 = Inr m3"
    using assms g2
    by (cases "getLayer m2 (Layer_fill lvl)") (simp_all add: addLayer_def)
  then obtain m3 where p3: "?p3 = Inr m3" by blast
  have "add_level_layers styles flt lvl v m = Inr m3"
    unfolding add_level_layers_def and_then_Inr using p1 p2 p3 by blast
  then show ?thesis by blast
qed

subsection \<open>No handler duplicates a source or a layer\<close>

lemma names_setLayoutProperty [simp]:
  "map lname (layers (setLayoutProperty n v m)) = map lname (layers m)"
  "sources (setLayoutProperty n v m) = sources m"
  by (simp_all add: setLayoutProperty_def comp_def if_distrib cong: if_cong)

lemma names_setPaintProperty [simp]:
  "map lname (layers (setPaintProperty n p v m)) = map lname (layers m)"
  "sources (setPaintProperty n p v m) = sources m"
  by (simp_all add: setPaintProperty_def comp_def if_distrib cong: if_cong)

lemma no_duplicates_setLayoutProperty [simp]:
  "no_duplicates (setLayoutProperty n v m) = no_duplicates m"
  by (simp add: no_duplicates_def)

lemma no_duplicates_setPaintProperty [simp]:
  "no_duplicates (setPaintProperty n p v m) = no_duplicates m"
  by (simp add: no_duplicates_def)

lemma no_duplicates_removeLayer:
  "no_duplicates m \<Longrightarrow> no_duplicates (map_removeLayer n m)"
  by (simp add: no_duplicates_def map_removeLayer_def distinct_map_filter)

lemma no_duplicates_set_visibility [simp]:
  "no_duplicates (set_visibility lvl v m) = no_duplicates m"
  by (simp add: set_visibility_def Let_def)

lemma no_duplicates_remove_level:
  "no_duplicates m \<Longrightarrow> no_duplicates (remove_level i m)"
  by (simp add: remove_level_def Let_def no_duplicates_removeLayer)

lemma no_duplicates_remove_admin_layers:
  "no_duplicates m \<Longrightarrow> no_duplicates (remove_admin_layers m)"
  by (simp add: remove_admin_layers_def no_duplicates_remove_level)

lemma no_duplicates_reset_level0_style:
  "reset_level0_style m = Inr m' \<Longrightarrow> no_duplicates m \<Longrightarrow> no_duplicates m'"
  by (auto simp: reset_level0_style_def split: if_splits option.splits)

lemma no_duplicates_highlight_level0:
  "highlight_level0 n m = Inr m' \<Longrightarrow> no_duplicates m \<Longrightarrow> no_duplicates m'"
  by (auto simp: highlight_level0_def split: if_splits option.splits)

lemma no_duplicates_addLevelLayer:
  assumes "addLevelLayer lvl v a = Inr a'" and "no_duplicates (the_map a)"
  shows "no_duplicates (the_map a')"
  using assms add_level_layers_Inr(3)
  by (fastforce simp: addLevelLayer_def and_then_Inr)

lemma no_duplicates_addLevelLayer_app:
  assumes "addLevelLayer_app lvl v a = Inr a'" and "no_duplicates (the_map a)"
  shows "no_duplicates (the_map a')"
  using assms add_level_layers_Inr(3)
  by (fastforce simp: addLevelLayer_app_def and_then_Inr)

lemma no_duplicates_createLevelButton:
  assumes "createLevelButton lvl v a = Inr a'" and "no_duplicates (the_map a)"
  shows "no_duplicates (the_map a')"
proof -
  from assms(1) obtain a1 where
    1: "addLevelLayer lvl v (a \<lparr> admin_buttons := admin_buttons a @ [(lvl, v)] \<rparr>) = Inr a1"
    and 2: "a' = setLayerVisibility lvl v a1"
    by (auto simp: createLevelButton_def and_then_Inr)
  from no_duplicates_addLevelLayer[OF 1] assms(2) have "no_duplicates (the_map a1)" by simp
  with 2 show ?thesis by (simp add: setLayerVisibility_def)
qed

lemma no_duplicates_createLevelButton_app:
  assumes "createLevelButton_app lvl v a = Inr a'" and "no_duplicates (the_map a)"
  shows "no_duplicates (the_map a')"
proof -
  from assms(1) obtain a1 where
    1: "addLevelLayer_app lvl v (a \<lparr> admin_buttons := admin_buttons a @ [(lvl, v)] \<rparr>) = Inr a1"
    and 2: "a' = setLayerVisibility lvl v a1"
    by (auto simp: createLevelButton_app_def and_then_Inr)
  from no_duplicates_addLevelLayer_app[OF 1] assms(2) have "no_duplicates (the_map a1)" by simp
  with 2 show ?thesis by (simp add: setLayerVisibility_def)
qed

lemma for_each_invariant:
  assumes "\<And>x s s'. f x s = Inr s' \<Longrightarrow> P s \<Longrightarrow> P s'"
  shows "for_each f xs s = Inr s' \<Longrightarrow> P s \<Longrightarrow> P s'"
proof (induction xs arbitrary: s)
  case Nil
  then show ?case by simp
next
  case (Cons x xs)
  from Cons.prems(1) obtain s1 where 1: "f x s = Inr s1" and 2: "for_each f xs s1 = Inr s'"
    by (auto simp: and_then_Inr)
  from assms[OF 1 Cons.prems(2)] have "P s1" .
  from Cons.IH[OF 2 this] show ?case .
qed

lemma no_duplicates_click_button:
  assumes "click_button i a = Inr a'" and "no_duplicates (the_map a)"
  shows "no_duplicates (the_map a')"
proof (cases "i < length (admin_buttons a)")
  case False
  with assms show ?thesis by (simp add: click_button_def)
next
  case True
  obtain lvl act where b: "admin_buttons a ! i = (lvl, act)" by (cases "admin_buttons a ! i")
  with True assms(1) obtain a1 where
    1: "addLevelLayer lvl (\<not> act) (a \<lparr> admin_buttons := (admin_buttons a)[i := (lvl, \<not> act)] \<rparr>) = Inr a1"
    and 2: "a' = setLayerVisibility lvl (\<not> act) a1"
    by (auto simp: click_button_def and_then_Inr)
  from no_duplicates_addLevelLayer[OF 1] assms(2) have "no_duplicates (the_map a1)" by simp
  with 2 show ?thesis by (simp add: setLayerVisibility_def)
qed

lemma no_duplicates_click_button_app:
  assumes "click_button_app i a = Inr a'" and "no_duplicates (the_map a)"
  shows "no_duplicates (the_map a')"
proof (cases "i < length (admin_buttons a)")
  case False
  with assms show ?thesis by (simp add: click_button_app_def)
next
  case True
  obtain lvl act where b: "admin_buttons a ! i = (lvl, act)" by (cases "admin_buttons a ! i")
  with True assms(1) obtain a1 where
    1: "addLevelLayer_app lvl (\<not> act) (a \<lparr> admin_buttons := (admin_buttons a)[i := (lvl, \<not> act)] \<rparr>) = Inr a1"
    and 2: "a' = setLayerVisibility lvl (\<not> act) a1"
    by (auto simp: click_button_app_def and_then_Inr)
  from no_duplicates_addLevelLayer_app[OF 1] assms(2) have "no_duplicates (the_map a1)" by simp
  with 2 show ?thesis by (simp add: setLayerVisibility_def)
qed

lemma no_duplicates_updateAdminLevelUI:
  assumes "updateAdminLevelUI c a = Inr a'" and "no_duplicates (the_map a)"
  shows "no_duplicates (the_map a')"
proof -
  from assms(1) obtain a1 where
    1: "createLevelButton 0 True (a \<lparr> container_shown := True, admin_buttons := [] \<rparr>) = Inr a1"
    and 2: "for_each (\<lambda>lvl. createLevelButton lvl False) (admin_levels c) a1 = Inr a'"
    by (auto simp: updateAdminLevelUI_def and_then_Inr)
  from no_duplicates_createLevelButton[OF 1] assms(2) have "no_duplicates (the_map a1)" by simp
  with 2 show ?thesis
    by (rule for_each_invariant[where P="\<lambda>s. no_duplicates (the_map s)", rotated])
       (rule no_duplicates_createLevelButton)
qed

lemma no_duplicates_updateAdminLevelUI_app:
  assumes "updateAdminLevelUI_app c a = Inr a'" and "no_duplicates (the_map a)"
  shows "no_duplicates (the_map a')"
proof -
  from assms(1) obtain a1 where
    1: "createLevelButton_app 0 True (a \<lparr> container_shown := True, admin_buttons := [] \<rparr>) = Inr a1"
    and 2: "for_each (\<lambda>lvl. createLevelButton_app lvl False) (admin_levels c) a1 = Inr a'"
    by (auto simp: updateAdminLevelUI_app_def and_then_Inr)
  from no_duplicates_createLevelButton_app[OF 1] assms(2) have "no_duplicates (the_map a1)" by simp
  with 2 show ?thesis
    by (rule for_each_invariant[where P="\<lambda>s. no_duplicates (the_map s)", rotated])
       (rule no_duplicates_createLevelButton_app)
qed

lemma no_duplicates_reset_view:
  assumes "reset_view a = Inr a'" and "no_duplicates (the_map a)"
  shows "no_duplicates (the_map a')"
proof -
  let ?a1 = "resetAdminLevels (a \<lparr> camera_at := World_view, select_value := [], selected := None \<rparr>)"
  from assms(1) obtain m where 1: "reset_level0_style (the_map ?a1) = Inr m"
    and 2: "a' = ?a1 \<lparr> the_map := m \<rparr>"
    by (auto simp: reset_view_def Let_def and_then_Inr)
  have "no_duplicates (the_map ?a1)"
    using assms(2) by (simp add: resetAdminLevels_def no_duplicates_remove_admin_layers)
  from no_duplicates_reset_level0_style[OF 1 this] 2 show ?thesis by simp
qed

lemma no_duplicates_handleCountryChange:
  assumes "handleCountryChange n a = Inr a'" and "no_duplicates (the_map a)"
  shows "no_duplicates (the_map a')"
proof (cases "n = []")
  case True
  let ?a1 = "resetAdminLevels (a \<lparr> selected := None \<rparr>)"
  from True assms(1) obtain m where 1: "reset_level0_style (the_map ?a1) = Inr m"
    and 2: "a' = ?a1 \<lparr> the_map := m \<rparr>"
    by (auto simp: handleCountryChange_def Let_def and_then_Inr)
  have "no_duplicates (the_map ?a1)"
    using assms(2) by (simp add: resetAdminLevels_def no_duplicates_remove_admin_layers)
  from no_duplicates_reset_level0_style[OF 1 this] 2 show ?thesis by simp
next
  case False
  show ?thesis
  proof (cases "find (\<lambda>c. entry_name c = n) (countriesData a)")
    case None
    with False assms show ?thesis by (simp add: handleCountryChange_def)
  next
    case (Some c)
    let ?a1 = "a \<lparr> selected := Some c, camera_at := Fit_bounds (entry_bounds c) \<rparr>"
    from False Some assms(1) obtain m where 1: "highlight_level0 (entry_name c) (the_map ?a1) = Inr m"
      and 2: "updateAdminLevelUI c (?a1 \<lparr> the_map := remove_admin_layers m \<rparr>) = Inr a'"
      by (auto simp: handleCountryChange_def Let_def and_then_Inr)
    from no_duplicates_highlight_level0[OF 1] assms(2) have "no_duplicates m" by simp
    then have "no_duplicates (the_map (?a1 \<lparr> the_map := remove_admin_layers m \<rparr>))"
      by (simp add: no_duplicates_remove_admin_layers)
    from no_duplicates_updateAdminLevelUI[OF 2 this] show ?thesis .
  qed
qed

lemma no_duplicates_handleCountryChange_app:
  assumes "handleCountryChange_app n a = Inr a'" and "no_duplicates (the_map a)"
  shows "no_duplicates (the_map a')"
  using assms no_duplicates_updateAdminLevelUI_app
  by (fastforce simp: handleCountryChange_app_def split: if_splits option.splits)

lemma no_duplicates_fire:
  assumes "fire ev a = Inr a'" and "no_duplicates (the_map a)"
  shows "no_duplicates (the_map a')"
proof (cases ev)
  case Map_load
  with assms show ?thesis using no_duplicates_addLevelLayer by simp
next
  case (Country_change n)
  with assms show ?thesis
    using no_duplicates_handleCountryChange[of n "a \<lparr> select_value := n \<rparr>" a'] by simp
next
  case (Button_click i)
  with assms show ?thesis using no_duplicates_click_button by simp
next
  case Reset_click
  with assms show ?thesis using no_duplicates_reset_view by simp
qed

lemma no_duplicates_fire_app:
  assumes "fire_app ev a = Inr a'" and "no_duplicates (the_map a)"
  shows "no_duplicates (the_map a')"
proof (cases ev)
  case Map_load
  with assms show ?thesis using no_duplicates_addLevelLayer_app by simp
next
  case (Country_change n)
  with assms show ?thesis
    using no_duplicates_handleCountryChange_app[of n "a \<lparr> select_value := n \<rparr>" a'] by simp
next
  case (Button_click i)
  with assms show ?thesis using no_duplicates_click_button_app by simp
next
  case Reset_click
  with assms show ?thesis
    by (auto simp: reset_view_app_def resetAdminLevels_app_def)
qed

lemma no_duplicates_initial: "no_duplicates (the_map (initial catalog))"
  by (simp add: initial_def initial_map_def no_duplicates_def basemap_layer_def)

subsection \<open>No handler fails on a catalog of levels up to 5\<close>

lemma STYLES_defined: "lvl \<le> 5 \<Longrightarrow> \<exists>st. STYLES lvl = Some st"
  by (simp add: STYLES_def)

lemma STYLES_app_defined: "lvl \<le> 5 \<Longrightarrow> \<exists>st. STYLES_app lvl = Some st"
  by (simp add: STYLES_app_def)

lemma addLevelLayer_succeeds:
  assumes "lvl \<le> 5"
  shows "\<exists>m'. addLevelLayer lvl v a = Inr (a \<lparr> the_map := m' \<rparr>)"
proof -
  from STYLES_defined[OF assms] obtain st where "STYLES lvl = Some st" by blast
  from add_level_layers_succeeds[of STYLES lvl st, OF this]
  obtain m' where "add_level_layers STYLES (country_filter lvl (selected a)) lvl v (the_map a) = Inr m'"
    by blast
  then show ?thesis by (auto simp: addLevelLayer_def intro!: exI[of _ m'])
qed

lemma addLevelLayer_app_succeeds:
  assumes "lvl \<le> 5"
  shows "\<exists>m'. addLevelLayer_app lvl v a = Inr (a \<lparr> the_map := m' \<rparr>)"
proof -
  from STYLES_app_defined[OF assms] obtain st where "STYLES_app lvl = Some st" by blast
  from add_level_layers_succeeds[of STYLES_app lvl st, OF this]
  obtain m' where "add_level_layers STYLES_app None lvl v (the_map a) = Inr m'"
    by blast
  then show ?thesis by (auto simp: addLevelLayer_app_def intro!: exI[of _ m'])
qed

lemma createLevelButton_succeeds:
  assumes "lvl \<le> 5" and "levels_ok a"
  shows "\<exists>a'. createLevelButton lvl v a = Inr a' \<and> levels_ok a'"
proof -
  let ?a0 = "a \<lparr> admin_buttons := admin_buttons a @ [(lvl, v)] \<rparr>"
  from addLevelLayer_succeeds[OF assms(1), of v ?a0]
  obtain m' where 1: "addLevelLayer lvl v ?a0 = Inr (?a0 \<lparr> the_map := m' \<rparr>)" by blast
  have "levels_ok (setLayerVisibility lvl v (?a0 \<lparr> the_map := m' \<rparr>))"
    using assms by (auto simp: levels_ok_def setLayerVisibility_def)
  with 1 show ?thesis by (simp add: createLevelButton_def)
qed

lemma createLevelButton_app_succeeds:
  assumes "lvl \<le> 5" and "levels_ok a"
  shows "\<exists>a'. createLevelButton_app lvl v a = Inr a' \<and> levels_ok a'"
proof -
  let ?a0 = "a \<lparr> admin_buttons := admin_buttons a @ [(lvl, v)] \<rparr>"
  from addLevelLayer_app_succeeds[OF assms(1), of v ?a0]
  obtain m' where 1: "addLevelLayer_app lvl v ?a0 = Inr (?a0 \<lparr> the_map := m' \<rparr>)" by blast
  have "levels_ok (setLayerVisibility lvl v (?a0 \<lparr> the_map := m' \<rparr>))"
    using assms by (auto simp: levels_ok_def setLayerVisibility_def)
  with 1 show ?thesis by (simp add: createLevelButton_app_def)
qed

lemma for_each_succeeds:
  assumes "\<And>x s. x \<in> set xs \<Longrightarrow> P s \<Longrightarrow> \<exists>s'. f x s = Inr s' \<and> P s'"
  shows "P s \<Longrightarrow> \<exists>s'. for_each f xs s = Inr s' \<and> P s'"
  using assms
proof (induction xs arbitrary: s)
  case Nil
  then show ?case by simp
next
  case (Cons x xs)
  from Cons.prems(2)[of x s] Cons.prems(1) obtain s1 where 1: "f x s = Inr s1" and p: "P s1"
    by auto
  from Cons.IH[OF p] Cons.prems(2) obtain s' where "for_each f xs s1 = Inr s'" and "P s'"
    by auto
  with 1 show ?case by simp
qed

lemma click_button_succeeds:
  assumes "levels_ok a"
  shows "\<exists>a'. click_button i a = Inr a' \<and> levels_ok a'"
proof (cases "i < length (admin_buttons a)")
  case False
  with assms show ?thesis by (simp add: click_button_def)
next
  case True
  obtain lvl act where b: "admin_buttons a ! i = (lvl, act)" by (cases "admin_buttons a ! i")
  from True b assms have l: "lvl \<le> 5"
    by (metis fst_conv levels_ok_def nth_mem)
  let ?a0 = "a \<lparr> admin_buttons := (admin_buttons a)[i := (lvl, \<not> act)] \<rparr>"
  from addLevelLayer_succeeds[OF l, of "\<not> act" ?a0]
  obtain m' where 1: "addLevelLayer lvl (\<not> act) ?a0 = Inr (?a0 \<lparr> the_map := m' \<rparr>)" by blast
  have "\<forall>b \<in> set ((admin_buttons a)[i := (lvl, \<not> act)]). fst b \<le> 5"
    using assms l by (auto simp: levels_ok_def dest!: set_update_subset_insert[THEN subsetD])
  then have "levels_ok (setLayerVisibility lvl (\<not> act) (?a0 \<lparr> the_map := m' \<rparr>))"
    using assms by (simp add: levels_ok_def setLayerVisibility_def)
  with 1 True b show ?thesis by (simp add: click_button_def)
qed

lemma click_button_app_succeeds:
  assumes "levels_ok a"
  shows "\<exists>a'. click_button_app i a = Inr a' \<and> levels_ok a'"
proof (cases "i < length (admin_buttons a)")
  case False
  with assms show ?thesis by (simp add: click_button_app_def)
next
  case True
  obtain lvl act where b: "admin_buttons a ! i = (lvl, act)" by (cases "admin_buttons a ! i")
  from True b assms have l: "lvl \<le> 5"
    by (metis fst_conv levels_ok_def nth_mem)
  let ?a0 = "a \<lparr> admin_buttons := (admin_buttons a)[i := (lvl, \<not> act)] \<rparr>"
  from addLevelLayer_app_succeeds[OF l, of "\<not> act" ?a0]
  obtain m' where 1: "addLevelLayer_app lvl (\<not> act) ?a0 = Inr (?a0 \<lparr> the_map := m' \<rparr>)" by blast
  have "\<forall>b \<in> set ((admin_buttons a)[i := (lvl, \<not> act)]). fst b \<le> 5"
    using assms l by (auto simp: levels_ok_def dest!: set_update_subset_insert[THEN subsetD])
  then have "levels_ok (setLayerVisibility lvl (\<not> act) (?a0 \<lparr> the_map := m' \<rparr>))"
    using assms by (simp add: levels_ok_def setLayerVisibility_def)
  with 1 True b show ?thesis by (simp add: click_button_app_def)
qed

lemma reset_level0_style_succeeds: "\<exists>m'. reset_level0_style m = Inr m'"
  by (simp add: reset_level0_style_def STYLES_def)

lemma highlight_level0_succeeds: "\<exists>m'. highlight_level0 n m = Inr m'"
  by (simp add: highlight_level0_def STYLES_def)

lemma updateAdminLevelUI_succeeds:
  assumes "levels_ok a" and "\<forall>l \<in> set (admin_levels c). l \<le> 5"
  shows "\<exists>a'. updateAdminLevelUI c a = Inr a' \<and> levels_ok a'"
proof -
  have "levels_ok (a \<lparr> container_shown := True, admin_buttons := [] \<rparr>)"
    using assms(1) by (simp add: levels_ok_def)
  from createLevelButton_succeeds[OF _ this, of 0 True]
  obtain a1 where 1: "createLevelButton 0 True (a \<lparr> container_shown := True, admin_buttons := [] \<rparr>) = Inr a1"
    and ok: "levels_ok a1"
    by auto
  have "\<exists>a'. for_each (\<lambda>lvl. createLevelButton lvl False) (admin_levels c) a1 = Inr a' \<and> levels_ok a'"
    using ok
  proof (rule for_each_succeeds[rotated])
    fix x s assume "x \<in> set (admin_levels c)" and "levels_ok s"
    with assms(2) show "\<exists>s'. createLevelButton x False s = Inr s' \<and> levels_ok s'"
      using createLevelButton_succeeds by blast
  qed
  with 1 show ?thesis by (simp add: updateAdminLevelUI_def)
qed

lemma updateAdminLevelUI_app_succeeds:
  assumes "levels_ok a" and "\<forall>l \<in> set (admin_levels c). l \<le> 5"
  shows "\<exists>a'. updateAdminLevelUI_app c a = Inr a' \<and> levels_ok a'"
proof -
  have "levels_ok (a \<lparr> container_shown := True, admin_buttons := [] \<rparr>)"
    using assms(1) by (simp add: levels_ok_def)
  from createLevelButton_app_succeeds[OF _ this, of 0 True]
  obtain a1 where 1: "createLevelButton_app 0 True (a \<lparr> container_shown := True, admin_buttons := [] \<rparr>) = Inr a1"
    and ok: "levels_ok a1"
    by auto
  have "\<exists>a'. for_each (\<lambda>lvl. createLevelButton_app lvl False) (admin_levels c) a1 = Inr a' \<and> levels_ok a'"
    using ok
  proof (rule for_each_succeeds[rotated])
    fix x s assume "x \<in> set (admin_levels c)" and "levels_ok s"
    with assms(2) show "\<exists>s'. createLevelButton_app x False s = Inr s' \<and> levels_ok s'"
      using createLevelButton_app_succeeds by blast
  qed
  with 1 show ?thesis by (simp add: updateAdminLevelUI_app_def)
qed

lemma found_in_catalog:
  "find (\<lambda>c. entry_name c = n) cs = Some c \<Longrightarrow> c \<in> set cs"
  by (induction cs) (auto split: if_splits)

lemma fire_succeeds:
  assumes "levels_ok a"
  shows "\<exists>a'. fire ev a = Inr a' \<and> levels_ok a'"
proof (cases ev)
  case Map_load
  from addLevelLayer_succeeds[of 0 True a] obtain m' where
    "addLevelLayer 0 True a = Inr (a \<lparr> the_map := m' \<rparr>)" by auto
  moreover have "levels_ok (a \<lparr> the_map := m' \<rparr>)" using assms by (simp add: levels_ok_def)
  ultimately show ?thesis using Map_load by simp
next
  case (Country_change n)
  let ?a = "a \<lparr> select_value := n \<rparr>"
  have ok: "levels_ok ?a" using assms by (simp add: levels_ok_def)
  show ?thesis
  proof (cases "n = []")
    case True
    let ?a1 = "resetAdminLevels (?a \<lparr> selected := None \<rparr>)"
    obtain m' where 1: "reset_level0_style (the_map ?a1) = Inr m'"
      using reset_level0_style_succeeds by blast
    have "levels_ok (?a1 \<lparr> the_map := m' \<rparr>)"
      using assms by (simp add: levels_ok_def resetAdminLevels_def)
    with 1 True Country_change show ?thesis
      by (simp add: handleCountryChange_def Let_def)
  next
    case False
    show ?thesis
    proof (cases "find (\<lambda>c. entry_name c = n) (countriesData ?a)")
      case None
      with False ok Country_change show ?thesis by (simp add: handleCountryChange_def)
    next
      case (Some c)
      from found_in_catalog[OF Some] assms have lv: "\<forall>l \<in> set (admin_levels c). l \<le> 5"
        by (simp add: levels_ok_def)
      let ?a1 = "?a \<lparr> selected := Some c, camera_at := Fit_bounds (entry_bounds c) \<rparr>"
      obtain m where 1: "highlight_level0 (entry_name c) (the_map ?a1) = Inr m"
        using highlight_level0_succeeds by blast
      have "levels_ok (?a1 \<lparr> the_map := remove_admin_layers m \<rparr>)"
        using assms by (simp add: levels_ok_def)
      from updateAdminLevelUI_succeeds[OF this lv] obtain a' where
        "updateAdminLevelUI c (?a1 \<lparr> the_map := remove_admin_layers m \<rparr>) = Inr a'" "levels_ok a'"
        by blast
      with 1 False Some Country_change show ?thesis
        by (simp add: handleCountryChange_def Let_def)
    qed
  qed
next
  case (Button_click i)
  with click_button_succeeds[OF assms] show ?thesis by simp
next
  case Reset_click
  let ?a1 = "resetAdminLevels (a \<lparr> camera_at := World_view, select_value := [], selected := None \<rparr>)"
  obtain m' where 1: "reset_level0_style (the_map ?a1) = Inr m'"
    using reset_level0_style_succeeds by blast
  have "levels_ok (?a1 \<lparr> the_map := m' \<rparr>)"
    using assms by (simp add: levels_ok_def resetAdminLevels_def)
  with 1 Reset_click show ?thesis
    by (simp add: reset_view_def Let_def)
qed

lemma fire_app_succeeds:
  assumes "levels_ok a"
  shows "\<exists>a'. fire_app ev a = Inr a' \<and> levels_ok a'"
proof (cases ev)
  case Map_load
  from addLevelLayer_app_succeeds[of 0 True a] obtain m' where
    "addLevelLayer_app 0 True a = Inr (a \<lparr> the_map := m' \<rparr>)" by auto
  moreover have "levels_ok (a \<lparr> the_map := m' \<rparr>)" using assms by (simp add: levels_ok_def)
  ultimately show ?thesis using Map_load by simp
next
  case (Country_change n)
  let ?a = "a \<lparr> select_value := n \<rparr>"
  have ok: "levels_ok ?a" using assms by (simp add: levels_ok_def)
  show ?thesis
  proof (cases "find (\<lambda>c. entry_name c = n) (countriesData ?a)")
    case None
    with ok Country_change show ?thesis by (auto simp: handleCountryChange_app_def)
  next
    case (Some c)
    from found_in_catalog[OF Some] assms have lv: "\<forall>l \<in> set (admin_levels c). l \<le> 5"
      by (simp add: levels_ok_def)
    let ?a1 = "?a \<lparr> selected := Some c, camera_at := Fit_bounds (entry_bounds c) \<rparr>"
    have "levels_ok ?a1" using assms by (simp add: levels_ok_def)
    from updateAdminLevelUI_app_succeeds[OF this lv] obtain a' where
      "updateAdminLevelUI_app c ?a1 = Inr a'" "levels_ok a'"
      by blast
    with Some ok Country_change show ?thesis
      by (auto simp: handleCountryChange_app_def)
  qed
next
  case (Button_click i)
  with click_button_app_succeeds[OF assms] show ?thesis by simp
next
  case Reset_click
  have "levels_ok (reset_view_app a)"
    using assms by (simp add: levels_ok_def reset_view_app_def resetAdminLevels_app_def)
  with Reset_click show ?thesis by simp
qed

lemma distinct_count_le:
  "distinct (map f xs) \<Longrightarrow> length (filter (\<lambda>x. f x = n) xs) \<le> 1"
proof (induction xs)
  case Nil
  then show ?case by simp
next
  case (Cons x xs)
  show ?case
  proof (cases "f x = n")
    case True
    with Cons.prems have "filter (\<lambda>y. f y = n) xs = []"
      by (fastforce simp: filter_empty_conv image_iff)
    with True show ?thesis by simp
  next
    case False
    with Cons show ?thesis by simp
  qed
qed

lemma distinct_count_one:
  assumes "distinct (map f xs)" and "n \<in> set (map f xs)"
  shows "length (filter (\<lambda>x. f x = n) xs) = 1"
proof -
  from assms(2) have "filter (\<lambda>x. f x = n) xs \<noteq> []"
    by (auto simp: filter_empty_conv)
  then have "length (filter (\<lambda>x. f x = n) xs) \<noteq> 0" by simp
  with distinct_count_le[OF assms(1), of n] show ?thesis by linarith
qed

lemma no_duplicates_counts:
  assumes "no_duplicates m"
  shows "length (sources_named m s) \<le> 1" and "length (layers_named m n) \<le> 1"
  using assms distinct_count_le[of fst "sources m" s] distinct_count_le[of lname "layers m" n]
  by (simp_all add: no_duplicates_def sources_named_def layers_named_def)

lemma add_level_layers_counts:
  assumes "add_level_layers styles flt lvl v m = Inr m'" and "no_duplicates m"
  shows "length (sources_named m' (Gadm_level lvl)) = 1"
    and "length (layers_named m' (Layer_line lvl)) = 1"
    and "length (layers_named m' (Layer_fill lvl)) = 1"
proof -
  from add_level_layers_Inr(3)[OF assms] have d: "distinct (map fst (sources m'))"
    "distinct (map lname (layers m'))"
    by (simp_all add: no_duplicates_def)
  from add_level_layers_Inr(1)[OF assms(1)] have "Gadm_level lvl \<in> set (map fst (sources m'))"
    by simp
  from distinct_count_one[OF d(1) this] show "length (sources_named m' (Gadm_level lvl)) = 1"
    by (simp add: sources_named_def)
  from add_level_layers_Inr(2)[OF assms(1)] have "Layer_line lvl \<in> set (map lname (layers m'))"
    "Layer_fill lvl \<in> set (map lname (layers m'))"
    by simp_all
  from distinct_count_one[OF d(2) this(1)] distinct_count_one[OF d(2) this(2)]
  show "length (layers_named m' (Layer_line lvl)) = 1" "length (layers_named m' (Layer_fill lvl)) = 1"
    by (simp_all add: layers_named_def)
qed

lemma run_fire:
  assumes "levels_ok a" and "no_duplicates (the_map a)"
  shows "\<exists>b. for_each fire evs a = Inr b \<and> levels_ok b \<and> no_duplicates (the_map b)"
  using assms
proof (induction evs arbitrary: a)
  case Nil
  then show ?case by simp
next
  case (Cons ev evs)
  from fire_succeeds[OF Cons.prems(1), of ev] obtain a1 where 1: "fire ev a = Inr a1"
    and ok: "levels_ok a1"
    by blast
  from no_duplicates_fire[OF 1 Cons.prems(2)] have "no_duplicates (the_map a1)" .
  from Cons.IH[OF ok this] 1 show ?case by simp
qed

lemma run_fire_app:
  assumes "levels_ok a" and "no_duplicates (the_map a)"
  shows "\<exists>b. for_each fire_app evs a = Inr b \<and> levels_ok b \<and> no_duplicates (the_map b)"
  using assms
proof (induction evs arbitrary: a)
  case Nil
  then show ?case by simp
next
  case (Cons ev evs)
  from fire_app_succeeds[OF Cons.prems(1), of ev] obtain a1 where 1: "fire_app ev a = Inr a1"
    and ok: "levels_ok a1"
    by blast
  from no_duplicates_fire_app[OF 1 Cons.prems(2)] have "no_duplicates (the_map a1)" .
  from Cons.IH[OF ok this] 1 show ?case by simp
qed

lemma addLevelLayer_twice:
  assumes "lvl \<le> 5"
  shows "\<exists>a'. addLevelLayer lvl v a = Inr a' \<and> addLevelLayer lvl v a' = Inr a'
           \<and> (no_duplicates (the_map a) \<longrightarrow>
                 no_duplicates (the_map a')
               \<and> length (sources_named (the_map a') (Gadm_level lvl)) = 1
               \<and> length (layers_named (the_map a') (Layer_line lvl)) = 1
               \<and> length (layers_named (the_map a') (Layer_fill lvl)) = 1)"
proof -
  from STYLES_defined[OF assms] obtain st where "STYLES lvl = Some st" by blast
  from add_level_layers_succeeds[of STYLES lvl st, OF this]
  obtain m' where m: "add_level_layers STYLES (country_filter lvl (selected a)) lvl v (the_map a) = Inr m'"
    by blast
  let ?a' = "a \<lparr> the_map := m' \<rparr>"
  have 1: "addLevelLayer lvl v a = Inr ?a'"
    using m by (simp add: addLevelLayer_def)
  have 2: "addLevelLayer lvl v ?a' = Inr ?a'"
    using add_level_layers_again[OF m, of STYLES "country_filter lvl (selected a)" v]
    by (simp add: addLevelLayer_def)
  have 3: "no_duplicates (the_map a) \<longrightarrow>
                 no_duplicates (the_map ?a')
               \<and> length (sources_named (the_map ?a') (Gadm_level lvl)) = 1
               \<and> length (layers_named (the_map ?a') (Layer_line lvl)) = 1
               \<and> length (layers_named (the_map ?a') (Layer_fill lvl)) = 1"
    using add_level_layers_Inr(3)[OF m] add_level_layers_counts[OF m] by simp
  from 1 2 3 show ?thesis by blast
qed

lemma addLevelLayer_app_twice:
  assumes "lvl \<le> 5"
  shows "\<exists>a'. addLevelLayer_app lvl v a = Inr a' \<and> addLevelLayer_app lvl v a' = Inr a'
           \<and> (no_duplicates (the_map a) \<longrightarrow>
                 no_duplicates (the_map a')
               \<and> length (sources_named (the_map a') (Gadm_level lvl)) = 1
               \<and> length (layers_named (the_map a') (Layer_line lvl)) = 1
               \<and> length (layers_named (the_map a') (Layer_fill lvl)) = 1)"
proof -
  from STYLES_app_defined[OF assms] obtain st where "STYLES_app lvl = Some st" by blast
  from add_level_layers_succeeds[of STYLES_app lvl st, OF this]
  obtain m' where m: "add_level_layers STYLES_app None lvl v (the_map a) = Inr m'"
    by blast
  let ?a' = "a \<lparr> the_map := m' \<rparr>"
  have 1: "addLevelLayer_app lvl v a = Inr ?a'"
    using m by (simp add: addLevelLayer_app_def)
  have 2: "addLevelLayer_app lvl v ?a' = Inr ?a'"
    using add_level_layers_again[OF m, of STYLES_app None v]
    by (simp add: addLevelLayer_app_def)
  have 3: "no_duplicates (the_map a) \<longrightarrow>
                 no_duplicates (the_map ?a')
               \<and> length (sources_named (the_map ?a') (Gadm_level lvl)) = 1
               \<and> length (layers_named (the_map ?a') (Layer_line lvl)) = 1
               \<and> length (layers_named (the_map ?a') (Layer_fill lvl)) = 1"
    using add_level_layers_Inr(3)[OF m] add_level_layers_counts[OF m] by simp
  from 1 2 3 show ?thesis by blast
qed


subsection \<open>Claim C4\<close>

text \<open>
  C4. For a level from 0 to 5 and either visibility argument, addLevelLayer returns,
  and a second call with the same arguments from the state it returned leaves that
  state as it is: nothing is added and the visible state is the same; this holds in
  the client with the country filter and in \<open>js/app.js\<close>. (For any level at all,
  a call that returns is followed by a second call that changes nothing.) Called on a map without
  duplicate identifiers, it returns a map without duplicate identifiers that has
  exactly one source \<open>gadm-level{N}\<close>, one layer \<open>layer-line-{N}\<close> and one layer
  \<open>layer-fill-{N}\<close>. And at any time: after any sequence of events (map load,
  country changes, button clicks, reset) on a catalog whose levels are at most 5, no
  handler has failed and the map holds at most one source and at most one line and one
  fill layer for every level.
\<close>

lemma addLevelLayer_again:
  assumes "addLevelLayer k w a = Inr a1"
  shows "addLevelLayer k w a1 = Inr a1"
proof -
  from assms obtain m' where
    m: "add_level_layers STYLES (country_filter k (selected a)) k w (the_map a) = Inr m'"
    and a1: "a1 = a \<lparr> the_map := m' \<rparr>"
    by (auto simp: addLevelLayer_def and_then_Inr)
  from add_level_layers_again[OF m, of STYLES "country_filter k (selected a)" w] a1
  show ?thesis by (simp add: addLevelLayer_def)
qed

lemma addLevelLayer_app_again:
  assumes "addLevelLayer_app k w a = Inr a1"
  shows "addLevelLayer_app k w a1 = Inr a1"
proof -
  from assms obtain m' where
    m: "add_level_layers STYLES_app None k w (the_map a) = Inr m'"
    and a1: "a1 = a \<lparr> the_map := m' \<rparr>"
    by (auto simp: addLevelLayer_app_def and_then_Inr)
  from add_level_layers_again[OF m, of STYLES_app None w] a1
  show ?thesis by (simp add: addLevelLayer_app_def)
qed

theorem addLevelLayer_idempotent:
  assumes "lvl \<le> 5" and "\<forall>c \<in> set catalog. \<forall>l \<in> set (admin_levels c). l \<le> 5"
  shows "(\<exists>a'. addLevelLayer lvl v a = Inr a' \<and> addLevelLayer lvl v a' = Inr a'
           \<and> (no_duplicates (the_map a) \<longrightarrow>
                 no_duplicates (the_map a')
               \<and> length (sources_named (the_map a') (Gadm_level lvl)) = 1
               \<and> length (layers_named (the_map a') (Layer_line lvl)) = 1
               \<and> length (layers_named (the_map a') (Layer_fill lvl)) = 1))
       \<and> (\<exists>a'. addLevelLayer_app lvl v a = Inr a' \<and> addLevelLayer_app lvl v a' = Inr a'
           \<and> (no_duplicates (the_map a) \<longrightarrow>
                 no_duplicates (the_map a')
               \<and> length (sources_named (the_map a') (Gadm_level lvl)) = 1
               \<and> length (layers_named (the_map a') (Layer_line lvl)) = 1
               \<and> length (layers_named (the_map a') (Layer_fill lvl)) = 1))
       \<and> (\<forall>k w a1. addLevelLayer k w a = Inr a1 \<longrightarrow> addLevelLayer k w a1 = Inr a1)
       \<and> (\<forall>k w a1. addLevelLayer_app k w a = Inr a1 \<longrightarrow> addLevelLayer_app k w a1 = Inr a1)
       \<and> (\<exists>b. for_each fire evs (initial catalog) = Inr b
           \<and> (\<forall>n. length (sources_named (the_map b) (Gadm_level n)) \<le> 1
                 \<and> length (layers_named (the_map b) (Layer_line n)) \<le> 1
                 \<and> length (layers_named (the_map b) (Layer_fill n)) \<le> 1))
       \<and> (\<exists>b. for_each fire_app evs (initial catalog) = Inr b
           \<and> (\<forall>n. length (sources_named (the_map b) (Gadm_level n)) \<le> 1
                 \<and> length (layers_named (the_map b) (Layer_line n)) \<le> 1
                 \<and> length (layers_named (the_map b) (Layer_fill n)) \<le> 1))"
proof -
  have ok: "levels_ok (initial catalog)"
    using assms(2) by (simp add: levels_ok_def initial_def)
  from run_fire[OF ok no_duplicates_initial, of evs] obtain b where
    b: "for_each fire evs (initial catalog) = Inr b" "no_duplicates (the_map b)"
    by blast
  from run_fire_app[OF ok no_duplicates_initial, of evs] obtain b' where
    b': "for_each fire_app evs (initial catalog) = Inr b'" "no_duplicates (the_map b')"
    by blast
  from b no_duplicates_counts[OF b(2)]
  have 3: "\<exists>b. for_each fire evs (initial catalog) = Inr b
           \<and> (\<forall>n. length (sources_named (the_map b) (Gadm_level n)) \<le> 1
                 \<and> length (layers_named (the_map b) (Layer_line n)) \<le> 1
                 \<and> length (layers_named (the_map b) (Layer_fill n)) \<le> 1)"
    by blast
  from b' no_duplicates_counts[OF b'(2)]
  have 4: "\<exists>b. for_each fire_app evs (initial catalog) = Inr b
           \<and> (\<forall>n. length (sources_named (the_map b) (Gadm_level n)) \<le> 1
                 \<and> length (layers_named (the_map b) (Layer_line n)) \<le> 1
                 \<and> length (layers_named (the_map b) (Layer_fill n)) \<le> 1)"
    by blast
  have 5: "\<forall>k w a1. addLevelLayer k w a = Inr a1 \<longrightarrow> addLevelLayer k w a1 = Inr a1"
    using addLevelLayer_again by blast
  have 6: "\<forall>k w a1. addLevelLayer_app k w a = Inr a1 \<longrightarrow> addLevelLayer_app k w a1 = Inr a1"
    using addLevelLayer_app_again by blast
  from addLevelLayer_twice[OF assms(1), of v a] addLevelLayer_app_twice[OF assms(1), of v a] 3 4 5 6
  show ?thesis by (intro conjI)
qed

theorem addLevelLayer_idempotent_witness:
  "(2::nat) \<le> 5
   \<and> (\<exists>a'. addLevelLayer 2 True (initial demo_catalog) = Inr a'
          \<and> addLevelLayer 2 True a' = Inr a'
          \<and> length (layers_named (the_map a') (Layer_line 2)) = 1)
   \<and> (\<exists>b. for_each fire [Map_load, Country_change ''Wakanda'', Button_click 1, Button_click 1,
                          Country_change ''Zamunda'', Reset_click]
             (initial demo_catalog) = Inr b
          \<and> length (layers_named (the_map b) (Layer_line 0)) \<le> 1)"
proof -
  have h1: "(2::nat) \<le> 5" by simp
  have h2: "\<forall>c \<in> set demo_catalog. \<forall>l \<in> set (admin_levels c). l \<le> 5"
    by (simp add: demo_catalog_def)
  have h3: "no_duplicates (the_map (initial demo_catalog))"
    by (rule no_duplicates_initial)
  from addLevelLayer_idempotent [OF h1 h2, of True "initial demo_catalog"
      "[Map_load, Country_change ''Wakanda'', Button_click 1, Button_click 1,
        Country_change ''Zamunda'', Reset_click]"] h3
  show ?thesis by (simp only: h1 simp_thms) blast
qed

subsection \<open>Removing the layers of the levels 1 to 5\<close>

lemma map_removeLayer_absent:
  "\<not> getLayer m n \<Longrightarrow> map_removeLayer n m = m"
proof -
  assume "\<not> getLayer m n"
  then have "filter (\<lambda>x. lname x \<noteq> n) (layers m) = layers m"
    by (auto simp: getLayer_def filter_id_conv)
  then show ?thesis by (simp add: map_removeLayer_def)
qed

lemma remove_level_eq:
  "remove_level i m
     = m \<lparr> layers := filter (\<lambda>x. lname x \<noteq> Layer_fill i \<and> lname x \<noteq> Layer_line i) (layers m) \<rparr>"
proof -
  let ?m1 = "if getLayer m (Layer_fill i) then map_removeLayer (Layer_fill i) m else m"
  have 1: "?m1 = map_removeLayer (Layer_fill i) m"
    by (simp add: map_removeLayer_absent)
  have "remove_level i m = map_removeLayer (Layer_line i) ?m1"
    by (simp add: remove_level_def Let_def map_removeLayer_absent)
  then show ?thesis
    unfolding 1 by (simp add: map_removeLayer_def conj_commute)
qed

lemma not_admin_layer_iff:
  "\<not> is_admin_layer n \<longleftrightarrow>
     (\<forall>i \<in> {1, 2, 3, 4, 5}. n \<noteq> Layer_fill i \<and> n \<noteq> Layer_line i)"
proof (cases n)
  case Basemap
  then show ?thesis by (simp add: is_admin_layer_def)
next
  case (Layer_line i)
  have "(1 \<le> i \<and> i \<le> 5) = (i = 1 \<or> i = 2 \<or> i = 3 \<or> i = 4 \<or> i = 5)" by arith
  with Layer_line show ?thesis by (auto simp: is_admin_layer_def)
next
  case (Layer_fill i)
  have "(1 \<le> i \<and> i \<le> 5) = (i = 1 \<or> i = 2 \<or> i = 3 \<or> i = 4 \<or> i = 5)" by arith
  with Layer_fill show ?thesis by (auto simp: is_admin_layer_def)
qed

lemma remove_admin_layers_eq:
  "remove_admin_layers m
     = m \<lparr> layers := filter (\<lambda>x. \<not> is_admin_layer (lname x)) (layers m) \<rparr>"
proof -
  have "filter (\<lambda>x. \<not> is_admin_layer (lname x)) (layers m)
        = filter (\<lambda>x. \<forall>i \<in> {1, 2, 3, 4, 5}. lname x \<noteq> Layer_fill i \<and> lname x \<noteq> Layer_line i)
            (layers m)"
    by (simp only: not_admin_layer_iff)
  then show ?thesis
    by (simp add: remove_admin_layers_def remove_level_eq conj_ac)
qed

subsection \<open>The two clients on the catalog of Wakanda and Zamunda\<close>

lemma layer_revisible [simp]:
  "(line_layer lvl v st flt) \<lparr> visibility := vis w \<rparr> = line_layer lvl w st flt"
  "(fill_layer lvl v st flt) \<lparr> visibility := vis w \<rparr> = fill_layer lvl w st flt"
  by (simp_all add: line_layer_def fill_layer_def)

lemma basemap_name [simp]: "lname basemap_layer = Basemap"
  by (simp add: basemap_layer_def)

lemma demo_line0_name [simp]: "lname demo_line0_highlighted = Layer_line 0"
  by (simp add: demo_line0_highlighted_def)

lemma demo_line0_visible [simp]:
  "demo_line0_highlighted \<lparr> visibility := vis True \<rparr> = demo_line0_highlighted"
  by (simp add: demo_line0_highlighted_def line_layer_def)

lemma demo_zamunda:
  "find (\<lambda>c. entry_name c = ''Zamunda'') demo_catalog = Some (demo_catalog ! 1)"
  "entry_name (demo_catalog ! 1) = ''Zamunda''"
  "admin_levels (demo_catalog ! 1) = [1]"
  "entry_bounds (demo_catalog ! 1) = [30, 0, 40, 10]"
  by (simp_all add: demo_catalog_def)

lemma demo_wakanda:
  "find (\<lambda>c. entry_name c = ''Wakanda'') demo_catalog = Some (demo_catalog ! 0)"
  "entry_name (demo_catalog ! 0) = ''Wakanda''"
  "admin_levels (demo_catalog ! 0) = [1, 2]"
  by (simp_all add: demo_catalog_def)

lemmas map_calls =
  add_level_layers_def addSource_def addLayer_def getSource_def getLayer_def map_on_def
  level_listeners_def

lemma demo_load: "add_level_layers STYLES None 0 True initial_map = Inr demo_map_loaded"
  by (simp add: map_calls initial_map_def demo_map_loaded_def STYLES_def)

lemma demo_highlight: "highlight_level0 ''Zamunda'' demo_map_loaded = Inr demo_map_highlighted"
  by (simp add: highlight_level0_def getLayer_def setPaintProperty_def STYLES_def
      demo_map_loaded_def demo_map_highlighted_def demo_line0_highlighted_def)

lemma demo_nothing_to_remove: "remove_admin_layers demo_map_highlighted = demo_map_highlighted"
  by (simp add: remove_admin_layers_eq is_admin_layer_def demo_map_highlighted_def)

lemma demo_level0_again:
  "add_level_layers STYLES None 0 True demo_map_highlighted = Inr demo_map_highlighted"
  by (rule add_level_layers_noop) (simp_all add: getSource_def getLayer_def demo_map_highlighted_def)

lemma demo_level0_visible: "set_visibility 0 True demo_map_highlighted = demo_map_highlighted"
  by (simp add: set_visibility_def setLayoutProperty_def getLayer_def demo_map_highlighted_def)

lemma demo_level1_added:
  "add_level_layers STYLES (Some ''Zamunda'') 1 False demo_map_highlighted = Inr demo_map"
  by (simp add: map_calls demo_map_highlighted_def demo_map_def STYLES_def)

lemma demo_level1_hidden: "set_visibility 1 False demo_map = demo_map"
  by (simp add: set_visibility_def setLayoutProperty_def getLayer_def demo_map_def)

lemma demo_tiled_reached:
  "for_each fire [Map_load, Country_change ''Zamunda''] (initial demo_catalog) = Inr demo_tiled"
proof -
  have 1: "fire Map_load (initial demo_catalog)
             = Inr ((initial demo_catalog) \<lparr> the_map := demo_map_loaded \<rparr>)"
    by (simp add: addLevelLayer_def country_filter_def initial_def demo_load)
  have 2: "fire (Country_change ''Zamunda'') ((initial demo_catalog) \<lparr> the_map := demo_map_loaded \<rparr>)
             = Inr demo_tiled"
    by (simp add: handleCountryChange_def updateAdminLevelUI_def createLevelButton_def
          addLevelLayer_def setLayerVisibility_def country_filter_def initial_def Let_def
          demo_zamunda [unfolded One_nat_def] demo_highlight demo_nothing_to_remove demo_level0_again
          demo_level0_visible demo_level1_added [unfolded One_nat_def]
          demo_level1_hidden [unfolded One_nat_def] demo_tiled_def)
  from 1 2 show ?thesis by simp
qed

subsection \<open>Visibility\<close>

lemma setLayoutProperty_absent:
  "\<not> getLayer m n \<Longrightarrow> setLayoutProperty n v m = m"
proof -
  assume "\<not> getLayer m n"
  then have "map (\<lambda>x. if lname x = n then x \<lparr> visibility := v \<rparr> else x) (layers m) = layers m"
    by (intro map_idI) (auto simp: getLayer_def)
  then show ?thesis by (simp add: setLayoutProperty_def)
qed

lemma set_visibility_eq:
  "set_visibility lvl v m
     = m \<lparr> layers := map (\<lambda>x. if lname x = Layer_line lvl \<or> lname x = Layer_fill lvl
                                then x \<lparr> visibility := vis v \<rparr> else x) (layers m) \<rparr>"
proof -
  let ?m1 = "if getLayer m (Layer_line lvl) then setLayoutProperty (Layer_line lvl) (vis v) m else m"
  have 1: "?m1 = setLayoutProperty (Layer_line lvl) (vis v) m"
    by (simp add: setLayoutProperty_absent)
  have 2: "set_visibility lvl v m = setLayoutProperty (Layer_fill lvl) (vis v) ?m1"
    by (simp add: set_visibility_def Let_def setLayoutProperty_absent)
  have 3: "map (\<lambda>x. if lname x = Layer_fill lvl then x \<lparr> visibility := vis v \<rparr> else x)
             (map (\<lambda>x. if lname x = Layer_line lvl then x \<lparr> visibility := vis v \<rparr> else x) (layers m))
         = map (\<lambda>x. if lname x = Layer_line lvl \<or> lname x = Layer_fill lvl
                                then x \<lparr> visibility := vis v \<rparr> else x) (layers m)"
    by (simp add: comp_def)
  show ?thesis
    unfolding 2 1 using 3 by (simp add: setLayoutProperty_def)
qed

lemma is_admin_layer_cases:
  "is_admin_layer n \<longleftrightarrow>
     (n = Layer_line 1 \<or> n = Layer_fill 1 \<or> n = Layer_line 2 \<or> n = Layer_fill 2
      \<or> n = Layer_line 3 \<or> n = Layer_fill 3 \<or> n = Layer_line 4 \<or> n = Layer_fill 4
      \<or> n = Layer_line 5 \<or> n = Layer_fill 5)"
proof (cases n)
  case Basemap
  then show ?thesis by (simp add: is_admin_layer_def)
next
  case (Layer_line i)
  have "(1 \<le> i \<and> i \<le> 5) = (i = 1 \<or> i = 2 \<or> i = 3 \<or> i = 4 \<or> i = 5)" by arith
  with Layer_line show ?thesis by (simp add: is_admin_layer_def)
next
  case (Layer_fill i)
  have "(1 \<le> i \<and> i \<le> 5) = (i = 1 \<or> i = 2 \<or> i = 3 \<or> i = 4 \<or> i = 5)" by arith
  with Layer_fill show ?thesis by (simp add: is_admin_layer_def)
qed

lemma hide_admin_show_base:
  "layers (set_visibility 0 True (fold (\<lambda>i. set_visibility i False) [1, 2, 3, 4, 5] m))
     = map (\<lambda>x. if is_admin_layer (lname x) then x \<lparr> visibility := Vis_none \<rparr>
                 else if lname x = Layer_line 0 \<or> lname x = Layer_fill 0
                      then x \<lparr> visibility := Visible \<rparr> else x)
         (layers m)"
  unfolding is_admin_layer_cases
  by (simp add: set_visibility_eq vis_def comp_def)

lemma demo_app_load: "add_level_layers STYLES_app None 0 True initial_map = Inr demo_app_map_loaded"
  by (simp add: map_calls initial_map_def demo_app_map_loaded_def STYLES_app_def)

lemma demo_app_level0_again:
  "add_level_layers STYLES_app None 0 True demo_app_map_loaded = Inr demo_app_map_loaded"
  by (rule add_level_layers_noop) (simp_all add: getSource_def getLayer_def demo_app_map_loaded_def)

lemma demo_app_level0_visible: "set_visibility 0 True demo_app_map_loaded = demo_app_map_loaded"
  by (simp add: set_visibility_eq demo_app_map_loaded_def)

lemma demo_app_level1_added:
  "add_level_layers STYLES_app None 1 False demo_app_map_loaded = Inr (demo_app_map False)"
  by (simp add: map_calls demo_app_map_loaded_def demo_app_map_def STYLES_app_def)

lemma demo_app_level1_again:
  "add_level_layers STYLES_app None 1 v (demo_app_map w) = Inr (demo_app_map w)"
  by (rule add_level_layers_noop) (simp_all add: getSource_def getLayer_def demo_app_map_def)

lemma demo_app_level1_visibility: "set_visibility 1 v (demo_app_map w) = demo_app_map v"
  by (simp add: set_visibility_eq demo_app_map_def)

lemma demo_app_others_hidden:
  "i \<noteq> 0 \<Longrightarrow> i \<noteq> 1 \<Longrightarrow> set_visibility i v (demo_app_map w) = demo_app_map w"
  by (simp add: set_visibility_eq demo_app_map_def)

lemma demo_app_level0_shown: "set_visibility 0 True (demo_app_map w) = demo_app_map w"
  by (simp add: set_visibility_eq demo_app_map_def)

lemma demo_tiled_app_reached:
  "for_each fire_app [Map_load, Country_change ''Zamunda'', Button_click 1] (initial demo_catalog)
     = Inr demo_tiled_app"
proof -
  let ?s1 = "(initial demo_catalog) \<lparr> the_map := demo_app_map_loaded \<rparr>"
  let ?s2 = "demo_tiled_app \<lparr> the_map := demo_app_map False, admin_buttons := [(0, True), (1, False)] \<rparr>"
  have 1: "fire_app Map_load (initial demo_catalog) = Inr ?s1"
    by (simp add: addLevelLayer_app_def initial_def demo_app_load)
  have 2: "fire_app (Country_change ''Zamunda'') ?s1 = Inr ?s2"
    by (simp add: handleCountryChange_app_def updateAdminLevelUI_app_def createLevelButton_app_def
          addLevelLayer_app_def setLayerVisibility_def initial_def
          demo_zamunda [unfolded One_nat_def] demo_app_level0_again
          demo_app_level0_visible demo_app_level1_added [unfolded One_nat_def]
          demo_app_level1_visibility [unfolded One_nat_def] demo_tiled_app_def)
  have 3: "fire_app (Button_click 1) ?s2 = Inr demo_tiled_app"
    by (simp add: click_button_app_def addLevelLayer_app_def setLayerVisibility_def
          demo_app_level1_again [unfolded One_nat_def]
          demo_app_level1_visibility [unfolded One_nat_def] demo_tiled_app_def)
  from 1 2 3 show ?thesis by simp
qed


lemma reset_level0_style_eq:
  "reset_level0_style m
     = Inr (m \<lparr> layers := map (\<lambda>x. if lname x = Layer_line 0
                                      then x \<lparr> paint := (paint x)(Line_color \<mapsto> Colour ''#000000'',
                                                                     Line_width \<mapsto> Number 1) \<rparr>
                                      else x) (layers m) \<rparr>)"
proof (cases "getLayer m (Layer_line 0)")
  case True
  then show ?thesis
    by (simp add: reset_level0_style_def STYLES_def setPaintProperty_def comp_def if_distrib
        cong: if_cong)
next
  case False
  then have "map (\<lambda>x. if lname x = Layer_line 0
                       then x \<lparr> paint := (paint x)(Line_color \<mapsto> Colour ''#000000'',
                                                      Line_width \<mapsto> Number 1) \<rparr>
                       else x) (layers m) = layers m"
    by (intro map_idI) (force simp: getLayer_def)
  with False show ?thesis by (simp add: reset_level0_style_def)
qed


subsection \<open>What addLevelLayer leaves alone\<close>

lemma addLayer_layers:
  assumes "addLayer l b m = Inr m'"
  shows "set (layers m') = insert l (set (layers m))"
proof (cases b)
  case None
  with assms have "layers m' = layers m @ [l]"
    by (auto simp: addLayer_def split: if_splits)
  then show ?thesis by simp
next
  case (Some x)
  with assms have "layers m' = takeWhile (\<lambda>y. lname y \<noteq> x) (layers m) @ [l]
                                 @ dropWhile (\<lambda>y. lname y \<noteq> x) (layers m)"
    by (auto simp: addLayer_def split: if_splits)
  moreover have "set (as @ [l] @ bs) = insert l (set (as @ bs))" for as bs :: "style_layer list"
    by auto
  ultimately have "set (layers m') = insert l (set (takeWhile (\<lambda>y. lname y \<noteq> x) (layers m)
                                                @ dropWhile (\<lambda>y. lname y \<noteq> x) (layers m)))"
    by (simp only:)
  then show ?thesis by (simp only: takeWhile_dropWhile_id)
qed

lemma add_level_layers_phases:
  assumes "add_level_layers styles flt lvl v m = Inr m'"
  obtains m1 m2 where
    "(if \<not> getSource m (Gadm_level lvl) then addSource (Gadm_level lvl) (Pmtiles lvl) m
      else Inr m) = Inr m1"
    and "(if \<not> getLayer m1 (Layer_line lvl)
          then (case styles lvl of
                  None \<Rightarrow> Inl Undefined_style
                | Some st \<Rightarrow> addLayer (line_layer lvl v st flt) None m1)
          else Inr m1) = Inr m2"
    and "(if \<not> getLayer m2 (Layer_fill lvl)
          then (case styles lvl of
                  None \<Rightarrow> Inl Undefined_style
                | Some st \<Rightarrow>
                    and_then
                      (addLayer (fill_layer lvl v st flt) (Some (Layer_line lvl)) m2)
                      (\<lambda>m3. Inr (map_on ''mouseleave'' (Layer_fill lvl) lvl
                                   (map_on ''mouseenter'' (Layer_fill lvl) lvl
                                     (map_on ''click'' (Layer_fill lvl) lvl m3)))))
          else Inr m2) = Inr m'"
  using assms unfolding add_level_layers_def and_then_Inr by blast

lemma add_level_layers_keeps_source:
  assumes "add_level_layers styles flt lvl v m = Inr m'" and "getSource m (Gadm_level lvl)"
  shows "sources m' = sources m"
  using add_level_layers_Inr(1)[OF assms(1)] assms
proof -
  from assms(1) obtain m1 m2 where
    p1: "(if \<not> getSource m (Gadm_level lvl) then addSource (Gadm_level lvl) (Pmtiles lvl) m
          else Inr m) = Inr m1"
    and p2: "(if \<not> getLayer m1 (Layer_line lvl)
          then (case styles lvl of
                  None \<Rightarrow> Inl Undefined_style
                | Some st \<Rightarrow> addLayer (line_layer lvl v st flt) None m1)
          else Inr m1) = Inr m2"
    and p3: "(if \<not> getLayer m2 (Layer_fill lvl)
          then (case styles lvl of
                  None \<Rightarrow> Inl Undefined_style
                | Some st \<Rightarrow>
                    and_then
                      (addLayer (fill_layer lvl v st flt) (Some (Layer_line lvl)) m2)
                      (\<lambda>m3. Inr (map_on ''mouseleave'' (Layer_fill lvl) lvl
                                   (map_on ''mouseenter'' (Layer_fill lvl) lvl
                                     (map_on ''click'' (Layer_fill lvl) lvl m3)))))
          else Inr m2) = Inr m'"
    by (rule add_level_layers_phases)
  from p1 assms(2) have "m1 = m" by simp
  moreover from p2 have "sources m2 = sources m1"
    by (auto split: if_splits option.splits dest: addLayer_Inr(2))
  moreover from p3 have "sources m' = sources m2"
    by (auto simp: and_then_Inr split: if_splits option.splits dest: addLayer_Inr(2))
  ultimately show ?thesis by simp
qed

lemma add_level_layers_keeps_layers:
  assumes "add_level_layers styles flt lvl v m = Inr m'"
    and "getLayer m (Layer_line lvl)" and "getLayer m (Layer_fill lvl)"
  shows "layers m' = layers m" and "listeners m' = listeners m"
proof -
  from assms(1) obtain m1 m2 where
    p1: "(if \<not> getSource m (Gadm_level lvl) then addSource (Gadm_level lvl) (Pmtiles lvl) m
          else Inr m) = Inr m1"
    and p2: "(if \<not> getLayer m1 (Layer_line lvl)
          then (case styles lvl of
                  None \<Rightarrow> Inl Undefined_style
                | Some st \<Rightarrow> addLayer (line_layer lvl v st flt) None m1)
          else Inr m1) = Inr m2"
    and p3: "(if \<not> getLayer m2 (Layer_fill lvl)
          then (case styles lvl of
                  None \<Rightarrow> Inl Undefined_style
                | Some st \<Rightarrow>
                    and_then
                      (addLayer (fill_layer lvl v st flt) (Some (Layer_line lvl)) m2)
                      (\<lambda>m3. Inr (map_on ''mouseleave'' (Layer_fill lvl) lvl
                                   (map_on ''mouseenter'' (Layer_fill lvl) lvl
                                     (map_on ''click'' (Layer_fill lvl) lvl m3)))))
          else Inr m2) = Inr m'"
    by (rule add_level_layers_phases)
  from p1 have 1: "layers m1 = layers m" "listeners m1 = listeners m"
    by (auto simp: addSource_def split: if_splits)
  with assms(2,3) have g1: "getLayer m1 (Layer_line lvl)" "getLayer m1 (Layer_fill lvl)"
    by (simp_all add: getLayer_def)
  with p2 have 2: "m2 = m1" by simp
  with g1 p3 have 3: "m' = m2" by simp
  from 1 2 3 show "layers m' = layers m" "listeners m' = listeners m" by simp_all
qed

lemma add_level_layers_new_layers:
  assumes "add_level_layers styles flt lvl v m = Inr m'" and "x \<in> set (layers m')"
  shows "x \<in> set (layers m)
       \<or> lfilter x = flt \<and> (lname x = Layer_line lvl \<or> lname x = Layer_fill lvl)"
proof -
  from assms(1) obtain m1 m2 where
    p1: "(if \<not> getSource m (Gadm_level lvl) then addSource (Gadm_level lvl) (Pmtiles lvl) m
          else Inr m) = Inr m1"
    and p2: "(if \<not> getLayer m1 (Layer_line lvl)
          then (case styles lvl of
                  None \<Rightarrow> Inl Undefined_style
                | Some st \<Rightarrow> addLayer (line_layer lvl v st flt) None m1)
          else Inr m1) = Inr m2"
    and p3: "(if \<not> getLayer m2 (Layer_fill lvl)
          then (case styles lvl of
                  None \<Rightarrow> Inl Undefined_style
                | Some st \<Rightarrow>
                    and_then
                      (addLayer (fill_layer lvl v st flt) (Some (Layer_line lvl)) m2)
                      (\<lambda>m3. Inr (map_on ''mouseleave'' (Layer_fill lvl) lvl
                                   (map_on ''mouseenter'' (Layer_fill lvl) lvl
                                     (map_on ''click'' (Layer_fill lvl) lvl m3)))))
          else Inr m2) = Inr m'"
    by (rule add_level_layers_phases)
  from p1 have 1: "layers m1 = layers m"
    by (auto simp: addSource_def split: if_splits)
  from p2 have 2: "set (layers m2) \<subseteq> set (layers m1) \<union> {l. \<exists>st. l = line_layer lvl v st flt}"
    by (auto split: if_splits option.splits dest!: addLayer_layers)
  from p3 have 3: "set (layers m') \<subseteq> set (layers m2) \<union> {l. \<exists>st. l = fill_layer lvl v st flt}"
    by (auto simp: and_then_Inr split: if_splits option.splits dest!: addLayer_layers)
  from assms(2) 1 2 3 have "x \<in> set (layers m) \<or> (\<exists>st. x = line_layer lvl v st flt)
      \<or> (\<exists>st. x = fill_layer lvl v st flt)"
    by auto
  then show ?thesis
    by (auto simp: line_layer_def fill_layer_def)
qed

lemma createLevelButton_filter:
  assumes "createLevelButton lvl v a = Inr a'" and "selected a = Some c"
    and "\<forall>x \<in> set (layers (the_map a)). is_admin_layer (lname x) \<longrightarrow> lfilter x = Some (entry_name c)"
  shows "selected a' = Some c
       \<and> (\<forall>x \<in> set (layers (the_map a')).
             is_admin_layer (lname x) \<longrightarrow> lfilter x = Some (entry_name c))"
proof -
  from assms(1) obtain m' where
    m: "add_level_layers STYLES (country_filter lvl (selected a)) lvl v (the_map a) = Inr m'"
    and a': "a' = setLayerVisibility lvl v
                    (a \<lparr> admin_buttons := admin_buttons a @ [(lvl, v)], the_map := m' \<rparr>)"
    by (auto simp: createLevelButton_def addLevelLayer_def and_then_Inr)
  have new: "lfilter x = Some (entry_name c)"
    if "x \<in> set (layers m')" and "is_admin_layer (lname x)" for x
  proof -
    from add_level_layers_new_layers[OF m that(1)]
    show ?thesis
    proof
      assume "x \<in> set (layers (the_map a))"
      with assms(3) that(2) show ?thesis by blast
    next
      assume n: "lfilter x = country_filter lvl (selected a)
                 \<and> (lname x = Layer_line lvl \<or> lname x = Layer_fill lvl)"
      with that(2) have "lvl > 0" by (auto simp: is_admin_layer_def)
      with n assms(2) show ?thesis by (simp add: country_filter_def)
    qed
  qed
  have "layers (the_map a')
          = map (\<lambda>x. if lname x = Layer_line lvl \<or> lname x = Layer_fill lvl
                      then x \<lparr> visibility := vis v \<rparr> else x) (layers m')"
    by (simp add: a' setLayerVisibility_def set_visibility_eq)
  then have "\<forall>x \<in> set (layers (the_map a')).
             is_admin_layer (lname x) \<longrightarrow> lfilter x = Some (entry_name c)"
    using new by auto
  moreover have "selected a' = Some c"
    using assms(2) by (simp add: a' setLayerVisibility_def)
  ultimately show ?thesis by blast
qed

lemma handleCountryChange_filter:
  assumes "n \<noteq> []" and "find (\<lambda>e. entry_name e = n) (countriesData a) = Some c"
    and "handleCountryChange n a = Inr b"
  shows "\<forall>x \<in> set (layers (the_map b)). is_admin_layer (lname x) \<longrightarrow> lfilter x = Some (entry_name c)"
proof -
  let ?a1 = "a \<lparr> selected := Some c, camera_at := Fit_bounds (entry_bounds c) \<rparr>"
  let ?P = "\<lambda>s. selected s = Some c
       \<and> (\<forall>x \<in> set (layers (the_map s)).
             is_admin_layer (lname x) \<longrightarrow> lfilter x = Some (entry_name c))"
  from assms obtain m where
    u: "updateAdminLevelUI c (?a1 \<lparr> the_map := remove_admin_layers m \<rparr>) = Inr b"
    by (auto simp: handleCountryChange_def Let_def and_then_Inr)
  let ?a2 = "?a1 \<lparr> the_map := remove_admin_layers m, container_shown := True, admin_buttons := [] \<rparr>"
  from u obtain a3 where
    1: "createLevelButton 0 True ?a2 = Inr a3"
    and 2: "for_each (\<lambda>lvl. createLevelButton lvl False) (admin_levels c) a3 = Inr b"
    by (auto simp: updateAdminLevelUI_def and_then_Inr)
  have "?P ?a2"
    by (simp add: remove_admin_layers_eq)
  with createLevelButton_filter[OF 1] have "?P a3" by simp
  with 2 have "?P b"
  proof (rule for_each_invariant[where P="?P", rotated])
    fix x s s' assume "createLevelButton x False s = Inr s'" and "?P s"
    then show "?P s'" using createLevelButton_filter by blast
  qed
  then show ?thesis by blast
qed


lemma demo_level1_again: "add_level_layers STYLES flt 1 v demo_map = Inr demo_map"
  by (rule add_level_layers_noop) (simp_all add: getSource_def getLayer_def demo_map_def)

lemma demo_tiled_level1_again: "addLevelLayer 1 True demo_tiled = Inr demo_tiled"
  by (simp add: addLevelLayer_def demo_level1_again [unfolded One_nat_def] demo_tiled_def)

subsection \<open>What addLevelLayer and the buttons put on the map\<close>

lemma getLayer_layers_named: "getLayer m n = (layers_named m n \<noteq> [])"
  by (auto simp: getLayer_def layers_named_def filter_empty_conv)

lemma filter_insert_before:
  "filter P (takeWhile Q xs @ [l] @ dropWhile Q xs)
     = filter P (takeWhile Q xs) @ (if P l then [l] else []) @ filter P (dropWhile Q xs)"
  by simp

lemma filter_around:
  "filter P (takeWhile Q xs) @ filter P (dropWhile Q xs) = filter P xs"
  unfolding filter_append[symmetric] by (simp only: takeWhile_dropWhile_id)

lemma addLayer_named:
  assumes "addLayer l b m = Inr m'"
  shows "layers_named m' n = (if lname l = n then [l] else layers_named m n)"
proof -
  let ?P = "\<lambda>x. lname x = n"
  from addLayer_Inr(1)[OF assms] have fresh: "layers_named m (lname l) = []"
    by (simp add: getLayer_layers_named)
  show ?thesis
  proof (cases b)
    case None
    with assms have "layers m' = layers m @ [l]"
      by (auto simp: addLayer_def split: if_splits)
    with fresh show ?thesis by (auto simp: layers_named_def)
  next
    case (Some x)
    let ?Q = "\<lambda>y. lname y \<noteq> x"
    from Some assms have l: "layers m' = takeWhile ?Q (layers m) @ [l] @ dropWhile ?Q (layers m)"
      by (auto simp: addLayer_def split: if_splits)
    have split: "filter ?P (layers m')
        = filter ?P (takeWhile ?Q (layers m)) @ (if ?P l then [l] else [])
            @ filter ?P (dropWhile ?Q (layers m))"
      unfolding l by (rule filter_insert_before)
    show ?thesis
    proof (cases "lname l = n")
      case True
      with fresh have "filter ?P (layers m) = []" by (simp add: layers_named_def)
      with filter_around[of ?P ?Q "layers m"]
      have "filter ?P (takeWhile ?Q (layers m)) = []" "filter ?P (dropWhile ?Q (layers m)) = []"
        by simp_all
      with split True show ?thesis by (simp add: layers_named_def)
    next
      case False
      with split have "filter ?P (layers m')
          = filter ?P (takeWhile ?Q (layers m)) @ filter ?P (dropWhile ?Q (layers m))"
        by simp
      with False show ?thesis by (simp add: layers_named_def filter_around)
    qed
  qed
qed

lemma add_level_layers_named:
  assumes "add_level_layers styles flt lvl v m = Inr m'"
  shows "map (\<lambda>x. (lfilter x, visibility x)) (layers_named m' n)
       = (if (n = Layer_line lvl \<or> n = Layer_fill lvl) \<and> \<not> getLayer m n then [(flt, vis v)]
          else map (\<lambda>x. (lfilter x, visibility x)) (layers_named m n))"
    and "listeners m'
       = listeners m @ (if getLayer m (Layer_fill lvl) then []
                        else [(''click'', Layer_fill lvl, lvl), (''mouseenter'', Layer_fill lvl, lvl),
                              (''mouseleave'', Layer_fill lvl, lvl)])"
proof -
  from assms obtain m1 m2 where
    p1: "(if \<not> getSource m (Gadm_level lvl) then addSource (Gadm_level lvl) (Pmtiles lvl) m
          else Inr m) = Inr m1"
    and p2: "(if \<not> getLayer m1 (Layer_line lvl)
          then (case styles lvl of
                  None \<Rightarrow> Inl Undefined_style
                | Some st \<Rightarrow> addLayer (line_layer lvl v st flt) None m1)
          else Inr m1) = Inr m2"
    and p3: "(if \<not> getLayer m2 (Layer_fill lvl)
          then (case styles lvl of
                  None \<Rightarrow> Inl Undefined_style
                | Some st \<Rightarrow>
                    and_then
                      (addLayer (fill_layer lvl v st flt) (Some (Layer_line lvl)) m2)
                      (\<lambda>m3. Inr (map_on ''mouseleave'' (Layer_fill lvl) lvl
                                   (map_on ''mouseenter'' (Layer_fill lvl) lvl
                                     (map_on ''click'' (Layer_fill lvl) lvl m3)))))
          else Inr m2) = Inr m'"
    by (rule add_level_layers_phases)
  from p1 have 1: "layers m1 = layers m" "listeners m1 = listeners m"
    by (auto simp: addSource_def split: if_splits)
  then have n1: "layers_named m1 k = layers_named m k" for k
    by (simp add: layers_named_def)
  have n2: "layers_named m2 k
      = (if k = Layer_line lvl \<and> \<not> getLayer m k
         then [line_layer lvl v (the (styles lvl)) flt] else layers_named m k)" for k
  proof (cases "getLayer m1 (Layer_line lvl)")
    case True
    with p2 have "m2 = m1" by simp
    with True n1 show ?thesis by (auto simp: getLayer_layers_named)
  next
    case False
    with p2 obtain st where st: "styles lvl = Some st"
      and a: "addLayer (line_layer lvl v st flt) None m1 = Inr m2"
      by (auto split: option.splits)
    from False n1 have "\<not> getLayer m (Layer_line lvl)" by (simp add: getLayer_layers_named)
    with addLayer_named[OF a, of k] st n1 show ?thesis by auto
  qed
  have l2: "listeners m2 = listeners m"
  proof (cases "getLayer m1 (Layer_line lvl)")
    case True
    with p2 have "m2 = m1" by simp
    with 1 show ?thesis by simp
  next
    case False
    with p2 obtain st where "addLayer (line_layer lvl v st flt) None m1 = Inr m2"
      by (auto split: option.splits)
    from addLayer_Inr(3)[OF this] 1 show ?thesis by simp
  qed
  have g2: "getLayer m2 (Layer_fill lvl) = getLayer m (Layer_fill lvl)"
    by (simp add: getLayer_layers_named n2)
  have n3: "layers_named m' k
      = (if k = Layer_fill lvl \<and> \<not> getLayer m k
         then [fill_layer lvl v (the (styles lvl)) flt] else layers_named m2 k)" for k
  proof (cases "getLayer m2 (Layer_fill lvl)")
    case True
    with p3 have "m' = m2" by simp
    with True g2 show ?thesis by auto
  next
    case False
    with p3 obtain st m3 where st: "styles lvl = Some st"
      and a: "addLayer (fill_layer lvl v st flt) (Some (Layer_line lvl)) m2 = Inr m3"
      and m': "m' = map_on ''mouseleave'' (Layer_fill lvl) lvl
                      (map_on ''mouseenter'' (Layer_fill lvl) lvl
                        (map_on ''click'' (Layer_fill lvl) lvl m3))"
      by (auto simp: and_then_Inr split: option.splits)
    from m' have "layers_named m' k = layers_named m3 k" by (simp add: layers_named_def)
    with addLayer_named[OF a, of k] st False g2 show ?thesis by auto
  qed
  show "map (\<lambda>x. (lfilter x, visibility x)) (layers_named m' n)
       = (if (n = Layer_line lvl \<or> n = Layer_fill lvl) \<and> \<not> getLayer m n then [(flt, vis v)]
          else map (\<lambda>x. (lfilter x, visibility x)) (layers_named m n))"
    by (auto simp: n3 n2 line_layer_def fill_layer_def)
  show "listeners m'
       = listeners m @ (if getLayer m (Layer_fill lvl) then []
                        else [(''click'', Layer_fill lvl, lvl), (''mouseenter'', Layer_fill lvl, lvl),
                              (''mouseleave'', Layer_fill lvl, lvl)])"
  proof (cases "getLayer m2 (Layer_fill lvl)")
    case True
    with p3 have "m' = m2" by simp
    with True g2 l2 show ?thesis by simp
  next
    case False
    with p3 obtain st m3 where
      a: "addLayer (fill_layer lvl v st flt) (Some (Layer_line lvl)) m2 = Inr m3"
      and m': "m' = map_on ''mouseleave'' (Layer_fill lvl) lvl
                      (map_on ''mouseenter'' (Layer_fill lvl) lvl
                        (map_on ''click'' (Layer_fill lvl) lvl m3))"
      by (auto simp: and_then_Inr split: option.splits)
    from addLayer_Inr(3)[OF a] l2 have "listeners m3 = listeners m" by simp
    with m' False g2 show ?thesis by (simp add: map_on_def)
  qed
qed

lemma set_visibility_named:
  "map (\<lambda>x. (lfilter x, visibility x)) (layers_named (set_visibility lvl v m) n)
     = (if n = Layer_line lvl \<or> n = Layer_fill lvl
        then map (\<lambda>x. (lfilter x, vis v)) (layers_named m n)
        else map (\<lambda>x. (lfilter x, visibility x)) (layers_named m n))"
  "listeners (set_visibility lvl v m) = listeners m"
  by (auto simp: set_visibility_eq layers_named_def filter_map comp_def
      intro!: map_cong filter_cong)

lemma createLevelButton_level:
  assumes "createLevelButton k v a = Inr a'"
  shows "selected a' = selected a"
    and "filter_and_visibility (the_map a') n
       = (if n = Layer_line k \<or> n = Layer_fill k
          then (if filter_and_visibility (the_map a) n = []
                then [(country_filter k (selected a), vis v)]
                else map (\<lambda>p. (fst p, vis v)) (filter_and_visibility (the_map a) n))
          else filter_and_visibility (the_map a) n)"
    and "listeners (the_map a')
       = listeners (the_map a)
           @ (if filter_and_visibility (the_map a) (Layer_fill k) = []
              then [(''click'', Layer_fill k, k), (''mouseenter'', Layer_fill k, k),
                    (''mouseleave'', Layer_fill k, k)]
              else [])"
proof -
  from assms obtain m' where
    m: "add_level_layers STYLES (country_filter k (selected a)) k v (the_map a) = Inr m'"
    and a': "a' = setLayerVisibility k v
                    (a \<lparr> admin_buttons := admin_buttons a @ [(k, v)], the_map := m' \<rparr>)"
    by (auto simp: createLevelButton_def addLevelLayer_def and_then_Inr)
  from a' show "selected a' = selected a"
    by (simp add: setLayerVisibility_def)
  have g: "getLayer (the_map a) x = (filter_and_visibility (the_map a) x \<noteq> [])" for x
    by (simp add: getLayer_layers_named filter_and_visibility_def)
  have hide: "map (\<lambda>x. (lfilter x, w)) xs = map (\<lambda>p. (fst p, w)) (map (\<lambda>x. (lfilter x, visibility x)) xs)"
    for w :: visibility and xs :: "style_layer list"
    by (simp add: comp_def)
  have "filter_and_visibility (the_map a') n
      = (if n = Layer_line k \<or> n = Layer_fill k
         then map (\<lambda>p. (fst p, vis v)) (map (\<lambda>x. (lfilter x, visibility x)) (layers_named m' n))
         else map (\<lambda>x. (lfilter x, visibility x)) (layers_named m' n))"
    unfolding filter_and_visibility_def a'
    by (simp add: setLayerVisibility_def set_visibility_named(1) hide)
  then show "filter_and_visibility (the_map a') n
       = (if n = Layer_line k \<or> n = Layer_fill k
          then (if filter_and_visibility (the_map a) n = []
                then [(country_filter k (selected a), vis v)]
                else map (\<lambda>p. (fst p, vis v)) (filter_and_visibility (the_map a) n))
          else filter_and_visibility (the_map a) n)"
    unfolding add_level_layers_named(1)[OF m] g
    by (auto simp: filter_and_visibility_def)
  show "listeners (the_map a')
       = listeners (the_map a)
           @ (if filter_and_visibility (the_map a) (Layer_fill k) = []
              then [(''click'', Layer_fill k, k), (''mouseenter'', Layer_fill k, k),
                    (''mouseleave'', Layer_fill k, k)]
              else [])"
    unfolding a' using add_level_layers_named(2)[OF m]
    by (simp add: setLayerVisibility_def set_visibility_named(2) g)
qed

lemma buttons_level:
  assumes "for_each (\<lambda>x. createLevelButton x False) ls s = Inr b" and "0 < l"
    and "n = Layer_line l \<or> n = Layer_fill l"
  shows "selected b = selected s
       \<and> filter_and_visibility (the_map b) n
           = (if l \<in> set ls
              then (if filter_and_visibility (the_map s) n = []
                    then [(map_option entry_name (selected s), Vis_none)]
                    else map (\<lambda>p. (fst p, Vis_none)) (filter_and_visibility (the_map s) n))
              else filter_and_visibility (the_map s) n)
       \<and> count_list (listeners (the_map b)) (''click'', Layer_fill l, l)
           = count_list (listeners (the_map s)) (''click'', Layer_fill l, l)
               + (if l \<in> set ls \<and> filter_and_visibility (the_map s) (Layer_fill l) = []
                  then 1 else 0)"
  using assms(1)
proof (induction ls arbitrary: s)
  case Nil
  then show ?case by simp
next
  case (Cons x xs)
  from Cons.prems obtain s1 where 1: "createLevelButton x False s = Inr s1"
    and 2: "for_each (\<lambda>x. createLevelButton x False) xs s1 = Inr b"
    by (auto simp: and_then_Inr)
  note ih = Cons.IH[OF 2]
  note st = createLevelButton_level[OF 1]
  have cf: "country_filter l (selected s) = map_option entry_name (selected s)"
    using assms(2) by (simp add: country_filter_def)
  show ?case
  proof (cases "x = l")
    case True
    have f1: "filter_and_visibility (the_map s1) n
        = (if filter_and_visibility (the_map s) n = []
           then [(map_option entry_name (selected s), Vis_none)]
           else map (\<lambda>p. (fst p, Vis_none)) (filter_and_visibility (the_map s) n))"
      using st(2)[of n] assms(3) True cf by (simp add: vis_def)
    have f2: "filter_and_visibility (the_map s1) n \<noteq> []"
      unfolding f1 by simp
    have f3: "map (\<lambda>p. (fst p, Vis_none)) (filter_and_visibility (the_map s1) n)
        = filter_and_visibility (the_map s1) n"
      unfolding f1 by (simp add: comp_def)
    have f4: "filter_and_visibility (the_map s1) (Layer_fill l) \<noteq> []"
      using st(2)[of "Layer_fill l"] True by simp
    have c1: "count_list (listeners (the_map s1)) (''click'', Layer_fill l, l)
        = count_list (listeners (the_map s)) (''click'', Layer_fill l, l)
            + (if filter_and_visibility (the_map s) (Layer_fill l) = [] then 1 else 0)"
      unfolding st(3) using True by simp
    from ih st(1) f1 f2 f3 f4 c1 True show ?thesis by simp
  next
    case False
    with assms(3) have "\<not> (n = Layer_line x \<or> n = Layer_fill x)" by auto
    with st(2)[of n] have f1: "filter_and_visibility (the_map s1) n = filter_and_visibility (the_map s) n"
      by simp
    from False st(2)[of "Layer_fill l"]
    have f4: "filter_and_visibility (the_map s1) (Layer_fill l)
        = filter_and_visibility (the_map s) (Layer_fill l)"
      by simp
    have c1: "count_list (listeners (the_map s1)) (''click'', Layer_fill l, l)
        = count_list (listeners (the_map s)) (''click'', Layer_fill l, l)"
      unfolding st(3) using False by simp
    from ih st(1) f1 f4 c1 False show ?thesis by simp
  qed
qed

lemma listeners_setPaintProperty [simp]:
  "listeners (setPaintProperty n p v m) = listeners m"
  by (simp add: setPaintProperty_def)

lemma listeners_highlight_level0:
  "highlight_level0 n m = Inr m' \<Longrightarrow> listeners m' = listeners m"
  by (auto simp: highlight_level0_def split: if_splits option.splits)

lemma handleCountryChange_levels:
  assumes "n \<noteq> []" and "find (\<lambda>e. entry_name e = n) (countriesData a) = Some c"
    and "handleCountryChange n a = Inr b" and "1 \<le> l" and "l \<le> 5"
  shows "filter_and_visibility (the_map b) (Layer_line l)
           = (if l \<in> set (admin_levels c) then [(Some (entry_name c), Vis_none)] else [])"
    and "filter_and_visibility (the_map b) (Layer_fill l)
           = (if l \<in> set (admin_levels c) then [(Some (entry_name c), Vis_none)] else [])"
    and "count_list (listeners (the_map b)) (''click'', Layer_fill l, l)
           = count_list (listeners (the_map a)) (''click'', Layer_fill l, l)
               + (if l \<in> set (admin_levels c) then 1 else 0)"
proof -
  let ?a1 = "a \<lparr> selected := Some c, camera_at := Fit_bounds (entry_bounds c) \<rparr>"
  from assms(1-3) obtain m where
    h: "highlight_level0 (entry_name c) (the_map a) = Inr m"
    and u: "updateAdminLevelUI c (?a1 \<lparr> the_map := remove_admin_layers m \<rparr>) = Inr b"
    by (auto simp: handleCountryChange_def Let_def and_then_Inr)
  let ?a2 = "?a1 \<lparr> the_map := remove_admin_layers m, container_shown := True, admin_buttons := [] \<rparr>"
  from u obtain a3 where
    1: "createLevelButton 0 True ?a2 = Inr a3"
    and 2: "for_each (\<lambda>lvl. createLevelButton lvl False) (admin_levels c) a3 = Inr b"
    by (auto simp: updateAdminLevelUI_def and_then_Inr)
  from assms(4,5) have adm: "is_admin_layer (Layer_line l)" "is_admin_layer (Layer_fill l)"
    by (simp_all add: is_admin_layer_def)
  then have e2: "filter_and_visibility (the_map ?a2) (Layer_line l) = []"
    "filter_and_visibility (the_map ?a2) (Layer_fill l) = []"
    by (auto simp: filter_and_visibility_def layers_named_def remove_admin_layers_eq
        filter_empty_conv)
  have l2: "listeners (the_map ?a2) = listeners (the_map a)"
    using listeners_highlight_level0[OF h] by (simp add: remove_admin_layers_eq)
  note st = createLevelButton_level[OF 1]
  from assms(4) have l0: "l \<noteq> 0" by simp
  from st(2)[of "Layer_line l"] st(2)[of "Layer_fill l"] l0 e2
  have e3: "filter_and_visibility (the_map a3) (Layer_line l) = []"
    "filter_and_visibility (the_map a3) (Layer_fill l) = []"
    by simp_all
  have c3: "count_list (listeners (the_map a3)) (''click'', Layer_fill l, l)
      = count_list (listeners (the_map a)) (''click'', Layer_fill l, l)"
    unfolding st(3) l2 using l0 by simp
  from st(1) have s3: "selected a3 = Some c" by simp
  from assms(4) have pos: "0 < l" by simp
  from buttons_level[OF 2 pos, of "Layer_line l"] e3 s3
  show "filter_and_visibility (the_map b) (Layer_line l)
           = (if l \<in> set (admin_levels c) then [(Some (entry_name c), Vis_none)] else [])"
    by simp
  from buttons_level[OF 2 pos, of "Layer_fill l"] e3 s3 c3
  show "filter_and_visibility (the_map b) (Layer_fill l)
           = (if l \<in> set (admin_levels c) then [(Some (entry_name c), Vis_none)] else [])"
    and "count_list (listeners (the_map b)) (''click'', Layer_fill l, l)
           = count_list (listeners (the_map a)) (''click'', Layer_fill l, l)
               + (if l \<in> set (admin_levels c) then 1 else 0)"
    by simp_all
qed

lemma createLevelButton_in_place:
  assumes "createLevelButton k v a = Inr b"
    and "getLayer (the_map a) (Layer_line k)" and "getLayer (the_map a) (Layer_fill k)"
  shows "layers (the_map b)
           = map (\<lambda>x. if lname x = Layer_line k \<or> lname x = Layer_fill k
                       then x \<lparr> visibility := vis v \<rparr> else x) (layers (the_map a))"
    and "listeners (the_map b) = listeners (the_map a)"
proof -
  from assms(1) obtain m' where
    m: "add_level_layers STYLES (country_filter k (selected a)) k v (the_map a) = Inr m'"
    and b: "b = setLayerVisibility k v
                    (a \<lparr> admin_buttons := admin_buttons a @ [(k, v)], the_map := m' \<rparr>)"
    by (auto simp: createLevelButton_def addLevelLayer_def and_then_Inr)
  from add_level_layers_keeps_layers[OF m assms(2,3)] b
  show "layers (the_map b)
           = map (\<lambda>x. if lname x = Layer_line k \<or> lname x = Layer_fill k
                       then x \<lparr> visibility := vis v \<rparr> else x) (layers (the_map a))"
    and "listeners (the_map b) = listeners (the_map a)"
    by (simp_all add: setLayerVisibility_def set_visibility_eq)
qed

lemma click_button_in_place:
  assumes "click_button i a = Inr b" and "i < length (admin_buttons a)"
    and "admin_buttons a ! i = (k, w)"
    and "getLayer (the_map a) (Layer_line k)" and "getLayer (the_map a) (Layer_fill k)"
  shows "layers (the_map b)
           = map (\<lambda>x. if lname x = Layer_line k \<or> lname x = Layer_fill k
                       then x \<lparr> visibility := vis (\<not> w) \<rparr> else x) (layers (the_map a))"
    and "listeners (the_map b) = listeners (the_map a)"
proof -
  from assms(1-3) obtain m' where
    m: "add_level_layers STYLES (country_filter k (selected a)) k (\<not> w) (the_map a) = Inr m'"
    and b: "b = setLayerVisibility k (\<not> w)
                    (a \<lparr> admin_buttons := (admin_buttons a)[i := (k, \<not> w)], the_map := m' \<rparr>)"
    by (auto simp: click_button_def addLevelLayer_def and_then_Inr)
  from add_level_layers_keeps_layers[OF m assms(4,5)] b
  show "layers (the_map b)
           = map (\<lambda>x. if lname x = Layer_line k \<or> lname x = Layer_fill k
                       then x \<lparr> visibility := vis (\<not> w) \<rparr> else x) (layers (the_map a))"
    and "listeners (the_map b) = listeners (the_map a)"
    by (simp_all add: setLayerVisibility_def set_visibility_eq)
qed

lemma demo_change_to_wakanda:
  "map_sum id (\<lambda>b. (listeners (the_map b), map (\<lambda>x. (lname x, lfilter x)) (layers (the_map b))))
         (handleCountryChange ''Wakanda'' demo_tiled)
       = Inr (level_listeners 0 @ level_listeners 1 @ level_listeners 1 @ level_listeners 2,
              [(Basemap, None), (Layer_fill 0, None), (Layer_line 0, None),
               (Layer_fill 1, Some ''Wakanda''), (Layer_line 1, Some ''Wakanda''),
               (Layer_fill 2, Some ''Wakanda''), (Layer_line 2, Some ''Wakanda'')])"
  by (simp add: handleCountryChange_def updateAdminLevelUI_def createLevelButton_def
      addLevelLayer_def setLayerVisibility_def country_filter_def Let_def
      demo_wakanda highlight_level0_def setPaintProperty_def remove_admin_layers_eq
      set_visibility_eq map_calls STYLES_def is_admin_layer_def
      demo_tiled_def demo_map_def demo_line0_highlighted_def basemap_layer_def
      line_layer_def fill_layer_def vis_def tile_layer_of_def)

lemma demo_change_returns: "\<exists>b. handleCountryChange ''Wakanda'' demo_tiled = Inr b"
  using demo_change_to_wakanda by (cases "handleCountryChange ''Wakanda'' demo_tiled") simp_all

lemma demo_click_returns: "\<exists>b. click_button 1 demo_tiled = Inr b"
  by (simp add: click_button_def addLevelLayer_def demo_level1_again [unfolded One_nat_def]
      demo_tiled_def)

subsection \<open>Claim C5\<close>

text \<open>
  C5, as the code has it, in the client with the country filter
  (\<open>src/unnamed/part_001\<close>). When addLevelLayer returns: if the source of the level
  existed, the sources of the map are the ones before (the source is not recreated);
  if both layers of the level existed, the layers and the listeners of the map are the
  ones before, so addLevelLayer changes neither filter nor paint nor visibility of an
  existing layer. The visibility is set in place by setLayerVisibility: it changes the
  visibility of the two layers of the level and nothing else. The handler of the
  map's \<open>load\<close> event is addLevelLayer alone for level 0; createLevelButton and the
  click handler of a button run setLayerVisibility right after addLevelLayer, so on
  existing layers they change the visibility of the two layers of the level, in place,
  and bind no listener. The filter follows the country selection because
  handleCountryChange removes the layers of the levels 1 to 5 before the buttons create
  them again: after a change to a country of the catalog, each level from 1 to 5 that
  the country has owns exactly one line and one fill layer, filtered to that country
  and hidden, and the click listener of its fill layer was bound once more; a level
  from 1 to 5 that the country does not have owns no layer, and no listener was bound
  for it.
\<close>

theorem existing_layers_left_unchanged:
  assumes "addLevelLayer lvl v a = Inr a'"
  shows "(getSource (the_map a) (Gadm_level lvl) \<longrightarrow> sources (the_map a') = sources (the_map a))
       \<and> (getLayer (the_map a) (Layer_line lvl) \<and> getLayer (the_map a) (Layer_fill lvl) \<longrightarrow>
             layers (the_map a') = layers (the_map a)
           \<and> listeners (the_map a') = listeners (the_map a))
       \<and> layers (the_map (setLayerVisibility lvl v a'))
           = map (\<lambda>x. if lname x = Layer_line lvl \<or> lname x = Layer_fill lvl
                       then x \<lparr> visibility := vis v \<rparr> else x) (layers (the_map a'))
       \<and> (lvl = 0 \<and> v \<longrightarrow> fire Map_load a = Inr a')
       \<and> (\<forall>b. createLevelButton lvl v a = Inr b
               \<and> getLayer (the_map a) (Layer_line lvl) \<and> getLayer (the_map a) (Layer_fill lvl) \<longrightarrow>
             layers (the_map b)
               = map (\<lambda>x. if lname x = Layer_line lvl \<or> lname x = Layer_fill lvl
                           then x \<lparr> visibility := vis v \<rparr> else x) (layers (the_map a))
           \<and> listeners (the_map b) = listeners (the_map a))
       \<and> (\<forall>i w b. i < length (admin_buttons a) \<and> admin_buttons a ! i = (lvl, w)
               \<and> click_button i a = Inr b
               \<and> getLayer (the_map a) (Layer_line lvl) \<and> getLayer (the_map a) (Layer_fill lvl) \<longrightarrow>
             layers (the_map b)
               = map (\<lambda>x. if lname x = Layer_line lvl \<or> lname x = Layer_fill lvl
                           then x \<lparr> visibility := vis (\<not> w) \<rparr> else x) (layers (the_map a))
           \<and> listeners (the_map b) = listeners (the_map a))
       \<and> (\<forall>n c b. n \<noteq> [] \<and> find (\<lambda>e. entry_name e = n) (countriesData a) = Some c
               \<and> handleCountryChange n a = Inr b \<longrightarrow>
             (\<forall>x \<in> set (layers (the_map b)).
                is_admin_layer (lname x) \<longrightarrow> lfilter x = Some (entry_name c))
           \<and> (\<forall>l. 1 \<le> l \<and> l \<le> 5 \<longrightarrow>
                 map (\<lambda>x. (lfilter x, visibility x)) (layers_named (the_map b) (Layer_line l))
                   = (if l \<in> set (admin_levels c) then [(Some (entry_name c), Vis_none)] else [])
               \<and> map (\<lambda>x. (lfilter x, visibility x)) (layers_named (the_map b) (Layer_fill l))
                   = (if l \<in> set (admin_levels c) then [(Some (entry_name c), Vis_none)] else [])
               \<and> count_list (listeners (the_map b)) (''click'', Layer_fill l, l)
                   = count_list (listeners (the_map a)) (''click'', Layer_fill l, l)
                       + (if l \<in> set (admin_levels c) then 1 else 0)))"
proof -
  from assms obtain m' where
    m: "add_level_layers STYLES (country_filter lvl (selected a)) lvl v (the_map a) = Inr m'"
    and a': "a' = a \<lparr> the_map := m' \<rparr>"
    by (auto simp: addLevelLayer_def and_then_Inr)
  have 1: "getSource (the_map a) (Gadm_level lvl) \<longrightarrow> sources (the_map a') = sources (the_map a)"
    using add_level_layers_keeps_source[OF m] by (simp add: a')
  have 2: "getLayer (the_map a) (Layer_line lvl) \<and> getLayer (the_map a) (Layer_fill lvl) \<longrightarrow>
             layers (the_map a') = layers (the_map a)
           \<and> listeners (the_map a') = listeners (the_map a)"
    using add_level_layers_keeps_layers[OF m] by (simp add: a')
  have 3: "layers (the_map (setLayerVisibility lvl v a'))
           = map (\<lambda>x. if lname x = Layer_line lvl \<or> lname x = Layer_fill lvl
                       then x \<lparr> visibility := vis v \<rparr> else x) (layers (the_map a'))"
    by (simp add: setLayerVisibility_def set_visibility_eq)
  have 4: "lvl = 0 \<and> v \<longrightarrow> fire Map_load a = Inr a'"
    using assms by auto
  have 5: "\<forall>b. createLevelButton lvl v a = Inr b
               \<and> getLayer (the_map a) (Layer_line lvl) \<and> getLayer (the_map a) (Layer_fill lvl) \<longrightarrow>
             layers (the_map b)
               = map (\<lambda>x. if lname x = Layer_line lvl \<or> lname x = Layer_fill lvl
                           then x \<lparr> visibility := vis v \<rparr> else x) (layers (the_map a))
           \<and> listeners (the_map b) = listeners (the_map a)"
    using createLevelButton_in_place by blast
  have 6: "\<forall>i w b. i < length (admin_buttons a) \<and> admin_buttons a ! i = (lvl, w)
               \<and> click_button i a = Inr b
               \<and> getLayer (the_map a) (Layer_line lvl) \<and> getLayer (the_map a) (Layer_fill lvl) \<longrightarrow>
             layers (the_map b)
               = map (\<lambda>x. if lname x = Layer_line lvl \<or> lname x = Layer_fill lvl
                           then x \<lparr> visibility := vis (\<not> w) \<rparr> else x) (layers (the_map a))
           \<and> listeners (the_map b) = listeners (the_map a)"
    using click_button_in_place by blast
  have 7: "\<forall>n c b. n \<noteq> [] \<and> find (\<lambda>e. entry_name e = n) (countriesData a) = Some c
               \<and> handleCountryChange n a = Inr b \<longrightarrow>
             (\<forall>x \<in> set (layers (the_map b)).
                is_admin_layer (lname x) \<longrightarrow> lfilter x = Some (entry_name c))
           \<and> (\<forall>l. 1 \<le> l \<and> l \<le> 5 \<longrightarrow>
                 map (\<lambda>x. (lfilter x, visibility x)) (layers_named (the_map b) (Layer_line l))
                   = (if l \<in> set (admin_levels c) then [(Some (entry_name c), Vis_none)] else [])
               \<and> map (\<lambda>x. (lfilter x, visibility x)) (layers_named (the_map b) (Layer_fill l))
                   = (if l \<in> set (admin_levels c) then [(Some (entry_name c), Vis_none)] else [])
               \<and> count_list (listeners (the_map b)) (''click'', Layer_fill l, l)
                   = count_list (listeners (the_map a)) (''click'', Layer_fill l, l)
                       + (if l \<in> set (admin_levels c) then 1 else 0))"
  proof (intro allI impI, elim conjE, intro conjI allI impI)
    fix n c b
    assume h: "n \<noteq> []" "find (\<lambda>e. entry_name e = n) (countriesData a) = Some c"
      "handleCountryChange n a = Inr b"
    from handleCountryChange_filter[OF h]
    show "\<forall>x \<in> set (layers (the_map b)).
                is_admin_layer (lname x) \<longrightarrow> lfilter x = Some (entry_name c)" .
    fix l :: nat assume "1 \<le> l \<and> l \<le> 5"
    then have l: "1 \<le> l" "l \<le> 5" by simp_all
    from handleCountryChange_levels[OF h l]
    show "map (\<lambda>x. (lfilter x, visibility x)) (layers_named (the_map b) (Layer_line l))
                   = (if l \<in> set (admin_levels c) then [(Some (entry_name c), Vis_none)] else [])"
      and "map (\<lambda>x. (lfilter x, visibility x)) (layers_named (the_map b) (Layer_fill l))
                   = (if l \<in> set (admin_levels c) then [(Some (entry_name c), Vis_none)] else [])"
      and "count_list (listeners (the_map b)) (''click'', Layer_fill l, l)
                   = count_list (listeners (the_map a)) (''click'', Layer_fill l, l)
                       + (if l \<in> set (admin_levels c) then 1 else 0)"
      by (simp_all only: filter_and_visibility_def)
  qed
  show ?thesis
    by (intro conjI 1 2 3 4 5 6 7)
qed

theorem existing_layers_left_unchanged_witness:
  "addLevelLayer 1 True demo_tiled = Inr demo_tiled
   \<and> getSource (the_map demo_tiled) (Gadm_level 1)
   \<and> getLayer (the_map demo_tiled) (Layer_line 1) \<and> getLayer (the_map demo_tiled) (Layer_fill 1)
   \<and> map visibility (layers (the_map (setLayerVisibility 1 True demo_tiled)))
       = [Visible, Visible, Visible, Visible, Visible]
   \<and> admin_buttons demo_tiled ! 1 = (1, False)
   \<and> (\<exists>b. click_button 1 demo_tiled = Inr b
         \<and> map visibility (layers (the_map b)) = [Visible, Visible, Visible, Visible, Visible]
         \<and> listeners (the_map b) = level_listeners 0 @ level_listeners 1)
   \<and> (\<exists>b. handleCountryChange ''Wakanda'' demo_tiled = Inr b
         \<and> map (\<lambda>x. (lfilter x, visibility x)) (layers_named (the_map b) (Layer_fill 1))
             = [(Some ''Wakanda'', Vis_none)]
         \<and> map (\<lambda>x. (lfilter x, visibility x)) (layers_named (the_map b) (Layer_line 2))
             = [(Some ''Wakanda'', Vis_none)]
         \<and> map (\<lambda>x. (lfilter x, visibility x)) (layers_named (the_map b) (Layer_line 3)) = []
         \<and> count_list (listeners (the_map b)) (''click'', Layer_fill 1, 1) = 2)"
proof -
  note th = existing_layers_left_unchanged [OF demo_tiled_level1_again]
  note th3 = th [THEN conjunct2, THEN conjunct2, THEN conjunct1]
  note th6 = th [THEN conjunct2, THEN conjunct2, THEN conjunct2, THEN conjunct2, THEN conjunct2,
                 THEN conjunct1]
  note th7 = th [THEN conjunct2, THEN conjunct2, THEN conjunct2, THEN conjunct2, THEN conjunct2,
                 THEN conjunct2]
  have vs: "map visibility
              (map (\<lambda>x. if lname x = Layer_line 1 \<or> lname x = Layer_fill 1
                         then x \<lparr> visibility := vis True \<rparr> else x) (layers (the_map demo_tiled)))
            = [Visible, Visible, Visible, Visible, Visible]"
    by (simp add: demo_tiled_def demo_map_def basemap_layer_def line_layer_def fill_layer_def
        demo_line0_highlighted_def vis_def)
  have shown: "map visibility (layers (the_map (setLayerVisibility 1 True demo_tiled)))
       = [Visible, Visible, Visible, Visible, Visible]"
    unfolding th3 by (rule vs)
  have g: "getSource (the_map demo_tiled) (Gadm_level 1)"
    "getLayer (the_map demo_tiled) (Layer_line 1)" "getLayer (the_map demo_tiled) (Layer_fill 1)"
    by (simp_all add: demo_tiled_def demo_map_def getSource_def getLayer_def)
  have bt: "1 < length (admin_buttons demo_tiled)" "admin_buttons demo_tiled ! 1 = (1, False)"
    by (simp_all add: demo_tiled_def)
  from demo_click_returns obtain b1 where b1: "click_button 1 demo_tiled = Inr b1" by blast
  from th6 [THEN spec, THEN spec, THEN spec, THEN mp, of 1 False b1] bt b1 g
  have "layers (the_map b1)
               = map (\<lambda>x. if lname x = Layer_line 1 \<or> lname x = Layer_fill 1
                           then x \<lparr> visibility := vis (\<not> False) \<rparr> else x) (layers (the_map demo_tiled))"
    and "listeners (the_map b1) = listeners (the_map demo_tiled)"
    by simp_all
  with vs have "map visibility (layers (the_map b1)) = [Visible, Visible, Visible, Visible, Visible]"
    and "listeners (the_map b1) = level_listeners 0 @ level_listeners 1"
    by (simp_all add: demo_tiled_def demo_map_def)
  with b1 have click: "\<exists>b. click_button 1 demo_tiled = Inr b
         \<and> map visibility (layers (the_map b)) = [Visible, Visible, Visible, Visible, Visible]
         \<and> listeners (the_map b) = level_listeners 0 @ level_listeners 1"
    by (intro exI[of _ b1] conjI)
  from demo_change_returns obtain b2 where b2: "handleCountryChange ''Wakanda'' demo_tiled = Inr b2"
    by blast
  have f: "find (\<lambda>e. entry_name e = ''Wakanda'') (countriesData demo_tiled) = Some (demo_catalog ! 0)"
    by (simp add: demo_tiled_def demo_wakanda)
  have ne: "''Wakanda'' \<noteq> []" by simp
  from th7 [THEN spec, THEN spec, THEN spec, THEN mp, of "''Wakanda''" "demo_catalog ! 0" b2] ne f b2
  have lv: "\<forall>l. 1 \<le> l \<and> l \<le> 5 \<longrightarrow>
                 map (\<lambda>x. (lfilter x, visibility x)) (layers_named (the_map b2) (Layer_line l))
                   = (if l \<in> set (admin_levels (demo_catalog ! 0))
                      then [(Some (entry_name (demo_catalog ! 0)), Vis_none)] else [])
               \<and> map (\<lambda>x. (lfilter x, visibility x)) (layers_named (the_map b2) (Layer_fill l))
                   = (if l \<in> set (admin_levels (demo_catalog ! 0))
                      then [(Some (entry_name (demo_catalog ! 0)), Vis_none)] else [])
               \<and> count_list (listeners (the_map b2)) (''click'', Layer_fill l, l)
                   = count_list (listeners (the_map demo_tiled)) (''click'', Layer_fill l, l)
                       + (if l \<in> set (admin_levels (demo_catalog ! 0)) then 1 else 0)"
    by blast
  have cnt: "count_list (listeners (the_map demo_tiled)) (''click'', Layer_fill 1, 1) = 1"
    by (simp add: demo_tiled_def demo_map_def level_listeners_def)
  from lv [THEN spec, of 1] cnt
  have w1: "map (\<lambda>x. (lfilter x, visibility x)) (layers_named (the_map b2) (Layer_fill 1))
             = [(Some ''Wakanda'', Vis_none)]"
    and w4: "count_list (listeners (the_map b2)) (''click'', Layer_fill 1, 1) = 2"
    by (simp_all add: demo_wakanda)
  from lv [THEN spec, of 2]
  have w2: "map (\<lambda>x. (lfilter x, visibility x)) (layers_named (the_map b2) (Layer_line 2))
             = [(Some ''Wakanda'', Vis_none)]"
    by (simp add: demo_wakanda)
  from lv [THEN spec, of 3]
  have w3: "map (\<lambda>x. (lfilter x, visibility x)) (layers_named (the_map b2) (Layer_line 3)) = []"
    by (simp add: demo_wakanda)
  from b2 w1 w2 w3 w4 have change: "\<exists>b. handleCountryChange ''Wakanda'' demo_tiled = Inr b
         \<and> map (\<lambda>x. (lfilter x, visibility x)) (layers_named (the_map b) (Layer_fill 1))
             = [(Some ''Wakanda'', Vis_none)]
         \<and> map (\<lambda>x. (lfilter x, visibility x)) (layers_named (the_map b) (Layer_line 2))
             = [(Some ''Wakanda'', Vis_none)]
         \<and> map (\<lambda>x. (lfilter x, visibility x)) (layers_named (the_map b) (Layer_line 3)) = []
         \<and> count_list (listeners (the_map b)) (''click'', Layer_fill 1, 1) = 2"
    by (intro exI[of _ b2] conjI)
  from demo_tiled_level1_again g shown bt(2) click change show ?thesis
    by (intro conjI)
qed

text \<open>
  Counterexample to C5 as stated: with Zamunda selected the layers of level 1 exist and
  are hidden; addLevelLayer for level 1 with \<open>isVisible = true\<close> returns the state
  it was called in, the layers still hidden. And when the selection changes to Wakanda,
  the loop of handleCountryChange takes the layers of level 1 off the map and the
  buttons create them again: their listeners are bound a second time.
\<close>

theorem existing_layers_not_updated_counterexample:
  "addLevelLayer 1 True demo_tiled = Inr demo_tiled
   \<and> map visibility (layers_named (the_map demo_tiled) (Layer_line 1)) = [Vis_none]
   \<and> map visibility (layers_named (the_map demo_tiled) (Layer_fill 1)) = [Vis_none]
   \<and> map lname (layers (remove_admin_layers (the_map demo_tiled)))
       = [Basemap, Layer_fill 0, Layer_line 0]
   \<and> map_sum id (\<lambda>b. (listeners (the_map b), map (\<lambda>x. (lname x, lfilter x)) (layers (the_map b))))
         (handleCountryChange ''Wakanda'' demo_tiled)
       = Inr (level_listeners 0 @ level_listeners 1 @ level_listeners 1 @ level_listeners 2,
              [(Basemap, None), (Layer_fill 0, None), (Layer_line 0, None),
               (Layer_fill 1, Some ''Wakanda''), (Layer_line 1, Some ''Wakanda''),
               (Layer_fill 2, Some ''Wakanda''), (Layer_line 2, Some ''Wakanda'')])"
proof -
  have 1: "map visibility (layers_named (the_map demo_tiled) (Layer_line 1)) = [Vis_none]"
    "map visibility (layers_named (the_map demo_tiled) (Layer_fill 1)) = [Vis_none]"
    by (simp_all add: layers_named_def demo_tiled_def demo_map_def basemap_layer_def
        line_layer_def fill_layer_def demo_line0_highlighted_def vis_def)
  have 2: "map lname (layers (remove_admin_layers (the_map demo_tiled)))
       = [Basemap, Layer_fill 0, Layer_line 0]"
    by (simp add: remove_admin_layers_eq demo_tiled_def demo_map_def is_admin_layer_def)
  from demo_tiled_level1_again 1 2 demo_change_to_wakanda show ?thesis by (intro conjI)
qed

subsection \<open>Claim C6\<close>

text \<open>
  C6, as the code has it. In the client with the country filter
  (\<open>src/unnamed/part_001\<close>), the reset-view action never fails; it removes every
  line and fill layer of the levels 1 to 5 from the map, keeps all other layers (those
  of level 0 among them) and all sources, sets the paint of \<open>layer-line-0\<close> back to
  the colour and width of that file's \<open>STYLES[0]\<close> (\<open>#000000\<close> and 1), and
  clears the selection and the buttons. In \<open>js/app.js\<close> the reset-view action
  removes nothing: every layer stays on the map, those of the levels 1 to 5 with
  visibility \<open>none\<close> and those of level 0 with visibility \<open>visible\<close>, and no paint
  changes. (The claim as stated, for the tiled variant as a whole, fails on
  \<open>js/app.js\<close>: see the counterexample below.)
\<close>

theorem reset_removes_levels_1_to_5:
  "\<exists>a'. reset_view a = Inr a'
      \<and> layers (the_map a')
          = map (\<lambda>x. if lname x = Layer_line 0
                      then x \<lparr> paint := (paint x)(Line_color \<mapsto> Colour ''#000000'',
                                                     Line_width \<mapsto> Number 1) \<rparr>
                      else x)
              (filter (\<lambda>x. \<not> is_admin_layer (lname x)) (layers (the_map a)))
      \<and> sources (the_map a') = sources (the_map a)
      \<and> (\<forall>i. 1 \<le> i \<and> i \<le> 5 \<longrightarrow>
             \<not> getLayer (the_map a') (Layer_line i) \<and> \<not> getLayer (the_map a') (Layer_fill i))
      \<and> getLayer (the_map a') (Layer_line 0) = getLayer (the_map a) (Layer_line 0)
      \<and> getLayer (the_map a') (Layer_fill 0) = getLayer (the_map a) (Layer_fill 0)
      \<and> selected a' = None \<and> admin_buttons a' = [] \<and> camera_at a' = World_view
      \<and> layers (the_map (reset_view_app a))
          = map (\<lambda>x. if is_admin_layer (lname x) then x \<lparr> visibility := Vis_none \<rparr>
                      else if lname x = Layer_line 0 \<or> lname x = Layer_fill 0
                           then x \<lparr> visibility := Visible \<rparr> else x)
              (layers (the_map a))"
proof -
  let ?restyle = "\<lambda>x. if lname x = Layer_line 0
                      then x \<lparr> paint := (paint x)(Line_color \<mapsto> Colour ''#000000'',
                                                     Line_width \<mapsto> Number 1) \<rparr>
                      else x"
  let ?kept = "filter (\<lambda>x. \<not> is_admin_layer (lname x)) (layers (the_map a))"
  let ?a' = "a \<lparr> camera_at := World_view, select_value := [], selected := None,
                  admin_buttons := [], container_shown := False,
                  the_map := (the_map a) \<lparr> layers := map ?restyle ?kept \<rparr> \<rparr>"
  have r: "reset_view a = Inr ?a'"
    by (simp add: reset_view_def resetAdminLevels_def Let_def remove_admin_layers_eq
        reset_level0_style_eq)
  have names: "map lname (map ?restyle ?kept)
                 = filter (\<lambda>n. \<not> is_admin_layer n) (map lname (layers (the_map a)))"
    by (simp add: filter_map comp_def if_distrib cong: if_cong)
  have gone: "\<forall>i. 1 \<le> i \<and> i \<le> 5 \<longrightarrow>
             \<not> getLayer (the_map ?a') (Layer_line i) \<and> \<not> getLayer (the_map ?a') (Layer_fill i)"
    unfolding getLayer_def by (simp add: names del: map_map) (simp add: is_admin_layer_def)
  have kept: "getLayer (the_map ?a') (Layer_line 0) = getLayer (the_map a) (Layer_line 0)"
    "getLayer (the_map ?a') (Layer_fill 0) = getLayer (the_map a) (Layer_fill 0)"
    unfolding getLayer_def by (simp_all add: names del: map_map) (simp_all add: is_admin_layer_def)
  have app: "layers (the_map (reset_view_app a))
          = map (\<lambda>x. if is_admin_layer (lname x) then x \<lparr> visibility := Vis_none \<rparr>
                      else if lname x = Layer_line 0 \<or> lname x = Layer_fill 0
                           then x \<lparr> visibility := Visible \<rparr> else x)
              (layers (the_map a))"
  proof -
    have "layers (the_map (reset_view_app a))
            = layers (set_visibility 0 True
                        (fold (\<lambda>i. set_visibility i False) [1, 2, 3, 4, 5] (the_map a)))"
      by (simp add: reset_view_app_def resetAdminLevels_app_def)
    then show ?thesis by (simp only: hide_admin_show_base)
  qed
  from r gone kept app show ?thesis
    by (intro exI[of _ ?a']) simp
qed

theorem reset_removes_levels_1_to_5_witness:
  "map lname (layers (the_map demo_tiled))
     = [Basemap, Layer_fill 0, Layer_line 0, Layer_fill 1, Layer_line 1]
   \<and> (\<exists>a'. reset_view demo_tiled = Inr a'
          \<and> map lname (layers (the_map a')) = [Basemap, Layer_fill 0, Layer_line 0]
          \<and> \<not> getLayer (the_map a') (Layer_line 1) \<and> \<not> getLayer (the_map a') (Layer_fill 1))"
proof -
  have n: "map lname (layers (the_map demo_tiled))
     = [Basemap, Layer_fill 0, Layer_line 0, Layer_fill 1, Layer_line 1]"
    by (simp add: demo_tiled_def demo_map_def)
  from reset_removes_levels_1_to_5 [of demo_tiled] obtain a' where
    r: "reset_view demo_tiled = Inr a'"
    and l: "layers (the_map a')
          = map (\<lambda>x. if lname x = Layer_line 0
                      then x \<lparr> paint := (paint x)(Line_color \<mapsto> Colour ''#000000'',
                                                     Line_width \<mapsto> Number 1) \<rparr>
                      else x)
              (filter (\<lambda>x. \<not> is_admin_layer (lname x)) (layers (the_map demo_tiled)))"
    and g: "\<forall>i. 1 \<le> i \<and> i \<le> 5 \<longrightarrow>
             \<not> getLayer (the_map a') (Layer_line i) \<and> \<not> getLayer (the_map a') (Layer_fill i)"
    by blast
  have m: "map lname (layers (the_map a')) = [Basemap, Layer_fill 0, Layer_line 0]"
    unfolding l by (simp add: demo_tiled_def demo_map_def is_admin_layer_def)
  from g have "\<not> getLayer (the_map a') (Layer_line 1) \<and> \<not> getLayer (the_map a') (Layer_fill 1)"
    by simp
  with r m have "\<exists>a'. reset_view demo_tiled = Inr a'
          \<and> map lname (layers (the_map a')) = [Basemap, Layer_fill 0, Layer_line 0]
          \<and> \<not> getLayer (the_map a') (Layer_line 1) \<and> \<not> getLayer (the_map a') (Layer_fill 1)"
    by (intro exI[of _ a']) simp
  with n show ?thesis by simp
qed

text \<open>
  Counterexample to C6 as stated: in \<open>js/app.js\<close>, with Zamunda selected and level
  1 shown, the reset-view action leaves the layers of level 1 on the map, hidden.
\<close>

theorem reset_only_hides_counterexample:
  "reset_view_app demo_tiled_app
     = demo_tiled_app \<lparr> the_map := demo_app_map False, container_shown := False,
                        select_value := [], camera_at := World_view \<rparr>
   \<and> map lname (layers (demo_app_map False))
     = [Basemap, Layer_fill 0, Layer_line 0, Layer_fill 1, Layer_line 1]
   \<and> getLayer (the_map (reset_view_app demo_tiled_app)) (Layer_line 1)
   \<and> getLayer (the_map (reset_view_app demo_tiled_app)) (Layer_fill 1)"
proof -
  have 1: "reset_view_app demo_tiled_app
     = demo_tiled_app \<lparr> the_map := demo_app_map False, container_shown := False,
                        select_value := [], camera_at := World_view \<rparr>"
    by (simp add: reset_view_app_def resetAdminLevels_app_def demo_tiled_app_def
          demo_app_level1_visibility [unfolded One_nat_def] demo_app_others_hidden
          demo_app_level0_shown)
  have 2: "map lname (layers (demo_app_map False))
     = [Basemap, Layer_fill 0, Layer_line 0, Layer_fill 1, Layer_line 1]"
    by (simp add: demo_app_map_def)
  show ?thesis
    unfolding 1 using 2 by (simp add: getLayer_def)
qed

end
